(* ===== verification/Prelude.thy ===== *)
theory Prelude
  imports Main "HOL-Library.Sublist" "HOL-Library.Word" "HOL-Library.Multiset"
begin

text \<open>
  Shared vocabulary of the development: Go byte strings and the functions of package
  \<open>strings\<close> the sources call, fallible results, stable sorting by a key, and the generic
  lemmas the component theories use.

  A Go string is a byte sequence, so it is a HOL \<open>string\<close> (a list of 8-bit characters).
  A nil slice and an empty slice are both \<open>[]\<close>; a nil pointer is \<open>None\<close>.
  A fallible call returns \<open>'e + 'a\<close> with the error on the left.  An instant of package
  \<open>time\<close> is the number of nanoseconds since Go's zero \<open>time.Time\<close>, so that \<open>IsZero\<close> is
  equality with \<open>0\<close>; the clock is an argument of whatever reads it.
\<close>

named_theorems go_defs \<open>definitions of the Go string helpers\<close>
named_theorems go_split \<open>case splits for fallible results\<close>

type_synonym time = int
type_synonym goint = "64 word"

section \<open>Fallible results\<close>

lemmas [go_split] = option.splits sum.splits if_splits

fun bind_res :: "'e + 'a \<Rightarrow> ('a \<Rightarrow> 'e + 'b) \<Rightarrow> 'e + 'b" where
  "bind_res (Inl e) f = Inl e"
| "bind_res (Inr a) f = f a"

lemma bind_res_Inr_iff: "bind_res r f = Inr b \<longleftrightarrow> (\<exists>a. r = Inr a \<and> f a = Inr b)"
  by (cases r) auto

lemma bind_res_Inl_iff: "bind_res r f = Inl e \<longleftrightarrow> r = Inl e \<or> (\<exists>a. r = Inr a \<and> f a = Inl e)"
  by (cases r) auto

section \<open>Package strings\<close>

text \<open>
  The UTF-8 encodings of the code points \<open>unicode.IsSpace\<close> accepts.  No sequence is a
  suffix of a longer valid encoding, because each starts with an ASCII byte or a lead byte, so
  trimming whole sequences at both ends is what \<open>strings.TrimSpace\<close> does rune by rune.
\<close>

definition space_seqs :: "string list" where
  "space_seqs =
     [[CHR 0x09], [CHR 0x0A], [CHR 0x0B], [CHR 0x0C], [CHR 0x0D], [CHR 0x20],
      [CHR 0xC2, CHR 0x85], [CHR 0xC2, CHR 0xA0], [CHR 0xE1, CHR 0x9A, CHR 0x80]]
     @ map (\<lambda>b. [CHR 0xE2, CHR 0x80, b])
         [CHR 0x80, CHR 0x81, CHR 0x82, CHR 0x83, CHR 0x84, CHR 0x85, CHR 0x86, CHR 0x87,
          CHR 0x88, CHR 0x89, CHR 0x8A, CHR 0xA8, CHR 0xA9, CHR 0xAF]
     @ [[CHR 0xE2, CHR 0x81, CHR 0x9F], [CHR 0xE3, CHR 0x80, CHR 0x80]]"

text \<open>Strip one of the given sequences, as often as possible.\<close>

fun strip_seqs :: "string list \<Rightarrow> nat \<Rightarrow> string \<Rightarrow> string" where
  "strip_seqs qs 0 s = s"
| "strip_seqs qs (Suc n) s =
     (case find (\<lambda>q. prefix q s) qs of
        None \<Rightarrow> s
      | Some q \<Rightarrow> strip_seqs qs n (drop (length q) s))"

definition TrimLeft :: "string \<Rightarrow> string" where
  "TrimLeft s = strip_seqs space_seqs (length s) s"

definition TrimRight :: "string \<Rightarrow> string" where
  "TrimRight s = rev (strip_seqs (map rev space_seqs) (length s) (rev s))"

definition TrimSpace :: "string \<Rightarrow> string" where
  "TrimSpace s = TrimRight (TrimLeft s)"

definition HasPrefix :: "string \<Rightarrow> string \<Rightarrow> bool" where
  "HasPrefix s p = prefix p s"

text \<open>The first position at which a substring occurs.\<close>

fun str_index :: "string \<Rightarrow> string \<Rightarrow> nat option" where
  "str_index sub s =
     (if prefix sub s then Some 0
      else case s of [] \<Rightarrow> None | _ # t \<Rightarrow> map_option Suc (str_index sub t))"

declare str_index.simps [simp del]

definition Contains :: "string \<Rightarrow> string \<Rightarrow> bool" where
  "Contains s sub = (str_index sub s \<noteq> None)"

lemma Contains_iff: "Contains s sub \<longleftrightarrow> sublist sub s"
proof (induction s)
  case Nil
  show ?case by (simp add: Contains_def str_index.simps)
next
  case (Cons c s)
  then show ?case
    by (simp add: Contains_def str_index.simps [of sub "c # s"] sublist_Cons_right)
qed

lemma sublist_left: "sublist a c \<Longrightarrow> sublist a (b @ c)"
  and sublist_right: "sublist a b \<Longrightarrow> sublist a (b @ c)"
  by (auto simp: sublist_append)

fun Join :: "string list \<Rightarrow> string \<Rightarrow> string" where
  "Join [] sep = ''''"
| "Join [x] sep = x"
| "Join (x # y # xs) sep = x @ sep @ Join (y # xs) sep"

fun Split :: "char \<Rightarrow> string \<Rightarrow> string list" where
  "Split c [] = [[]]"
| "Split c (x # xs) =
     (if x = c then [] # Split c xs
      else case Split c xs of [] \<Rightarrow> [[x]] | w # ws \<Rightarrow> (x # w) # ws)"

lemma Split_nonempty [simp]: "Split c s \<noteq> []"
  by (induction s) (auto split: list.splits)

text \<open>
  \<open>strings.Fields\<close>: the maximal runs of non-space bytes.  The word being collected is kept in
  reverse; the counter skips the rest of a multi-byte space.
\<close>

definition flush_word :: "string \<Rightarrow> string list" where
  "flush_word w = (if w = [] then [] else [rev w])"

fun fields_go :: "nat \<Rightarrow> string \<Rightarrow> string \<Rightarrow> string list" where
  "fields_go k w [] = flush_word w"
| "fields_go (Suc k) w (c # s) = fields_go k w s"
| "fields_go 0 w (c # s) =
     (case find (\<lambda>q. prefix q (c # s)) space_seqs of
        None \<Rightarrow> fields_go 0 (c # w) s
      | Some q \<Rightarrow> flush_word w @ fields_go (length q - 1) [] s)"

definition Fields :: "string \<Rightarrow> string list" where
  "Fields s = fields_go 0 [] s"

text \<open>Decimal rendering, as \<open>fmt\<close>'s verb \<open>%d\<close>.\<close>

function show_nonneg :: "int \<Rightarrow> string" where
  "show_nonneg n =
     (if n < 10 then [char_of (48 + n)] else show_nonneg (n div 10) @ [char_of (48 + n mod 10)])"
  by pat_completeness auto
termination by (relation "measure nat") auto

declare show_nonneg.simps [simp del]

definition show_int :: "int \<Rightarrow> string" where
  "show_int n = (if n < 0 then CHR ''-'' # show_nonneg (- n) else show_nonneg n)"

text \<open>
  \<open>strings.Count\<close>, \<open>ReplaceAll\<close> and \<open>Replace\<close> with limit one, for a non-empty substring.
  Occurrences are found from the left and do not overlap: after a match the counter says how many
  bytes of the match are still to be skipped.
\<close>

fun count_go :: "string \<Rightarrow> nat \<Rightarrow> string \<Rightarrow> nat" where
  "count_go sub k [] = 0"
| "count_go sub (Suc k) (c # s) = count_go sub k s"
| "count_go sub 0 (c # s) =
     (if prefix sub (c # s) then Suc (count_go sub (length sub - 1) s) else count_go sub 0 s)"

definition Count :: "string \<Rightarrow> string \<Rightarrow> nat" where
  "Count s sub = count_go sub 0 s"

fun replace_go :: "string \<Rightarrow> string \<Rightarrow> nat \<Rightarrow> string \<Rightarrow> string" where
  "replace_go sub new k [] = []"
| "replace_go sub new (Suc k) (c # s) = replace_go sub new k s"
| "replace_go sub new 0 (c # s) =
     (if prefix sub (c # s) then new @ replace_go sub new (length sub - 1) s
      else c # replace_go sub new 0 s)"

definition ReplaceAll :: "string \<Rightarrow> string \<Rightarrow> string \<Rightarrow> string" where
  "ReplaceAll s old new = replace_go old new 0 s"

fun replace_first :: "string \<Rightarrow> string \<Rightarrow> string \<Rightarrow> string" where
  "replace_first old new [] = []"
| "replace_first old new (c # s) =
     (if prefix old (c # s) then new @ drop (length old) (c # s) else c # replace_first old new s)"

definition Replace1 :: "string \<Rightarrow> string \<Rightarrow> string \<Rightarrow> string" where
  "Replace1 s old new = replace_first old new s"

lemma count_go_skip: "count_go sub k s = count_go sub 0 (drop k s)"
  by (induction sub k s rule: count_go.induct) auto

lemma replace_go_skip: "replace_go sub new k s = replace_go sub new 0 (drop k s)"
  by (induction sub new k s rule: replace_go.induct) auto

lemma count_match:
  assumes "sub \<noteq> []" "prefix sub s"
  shows "count_go sub 0 s = Suc (count_go sub 0 (drop (length sub) s))"
  using assms by (cases s; cases sub) (auto simp: count_go_skip[of _ "length _"])

lemma replace_go_match:
  assumes "sub \<noteq> []" "prefix sub s"
  shows "replace_go sub new 0 s = new @ replace_go sub new 0 (drop (length sub) s)"
  using assms by (cases s; cases sub) (auto simp: replace_go_skip[of _ _ "length _"])

lemma replace_go_none: "count_go sub 0 s = 0 \<Longrightarrow> replace_go sub new 0 s = s"
  by (induction s) (auto split: if_splits)

lemma Count_zero_iff: "sub \<noteq> [] \<Longrightarrow> Count s sub = 0 \<longleftrightarrow> \<not> sublist sub s"
  unfolding Count_def by (induction s) (auto simp: sublist_Cons_right)

text \<open>With exactly one occurrence, replacing the first and replacing all agree.\<close>

lemma Replace1_eq_ReplaceAll:
  assumes "old \<noteq> []" "Count s old = 1"
  shows "Replace1 s old new = ReplaceAll s old new"
  using assms(2) unfolding Count_def Replace1_def ReplaceAll_def
proof (induction s)
  case (Cons c s)
  show ?case
  proof (cases "prefix old (c # s)")
    case True
    with assms(1) Cons.prems have "count_go old 0 (drop (length old) (c # s)) = 0"
      using count_match[OF assms(1) True] by simp
    with assms(1) True replace_go_match[OF assms(1) True] show ?thesis
      by (simp del: replace_go.simps add: replace_go_none)
  qed (use Cons in auto)
qed simp

text \<open>A replaced occurrence sits between an untouched prefix and an untouched suffix.\<close>

lemma Replace1_split:
  "0 < Count s old \<Longrightarrow> old \<noteq> [] \<Longrightarrow>
     \<exists>pre post. s = pre @ old @ post \<and> Replace1 s old new = pre @ new @ post"
  unfolding Count_def Replace1_def
proof (induction s)
  case (Cons c s)
  show ?case
  proof (cases "prefix old (c # s)")
    case True
    then have "c # s = [] @ old @ drop (length old) (c # s)"
      by (metis append_Nil append_take_drop_id prefix_def append_eq_conv_conj)
    with True show ?thesis by (metis append_Nil replace_first.simps(2))
  next
    case False
    with Cons obtain pre post where
      "s = pre @ old @ post" "replace_first old new s = pre @ new @ post" by auto
    with False have "c # s = (c # pre) @ old @ post"
      "replace_first old new (c # s) = (c # pre) @ new @ post" by auto
    then show ?thesis by blast
  qed
qed simp

lemma strip_seqs_length: "length (strip_seqs qs n s) \<le> length s"
proof (induction n arbitrary: s)
  case (Suc n)
  show ?case
    using Suc.IH[of "drop (length (the (find (\<lambda>q. prefix q s) qs))) s"]
    by (auto split: option.splits)
qed simp

lemma strip_seqs_stable:
  assumes "\<And>q. q \<in> set qs \<Longrightarrow> q \<noteq> []" and "length s \<le> n"
  shows "find (\<lambda>q. prefix q (strip_seqs qs n s)) qs = None"
  using assms(2)
proof (induction n arbitrary: s)
  case 0
  with assms(1) show ?case by (auto simp: find_None_iff)
next
  case (Suc n)
  show ?case
  proof (cases "find (\<lambda>q. prefix q s) qs")
    case None
    then show ?thesis by simp
  next
    case (Some q)
    then have "q \<in> set qs" and "prefix q s"
      by (auto simp: find_Some_iff)
    with assms(1) have "1 \<le> length q" "length q \<le> length s"
      by (auto dest: prefix_length_le simp: Suc_le_eq)
    with Suc.prems have "length (drop (length q) s) \<le> n"
      unfolding length_drop by linarith
    with Some Suc.IH show ?thesis by simp
  qed
qed

lemma strip_seqs_fixed: "find (\<lambda>q. prefix q s) qs = None \<Longrightarrow> strip_seqs qs n s = s"
  by (cases n) auto

lemma space_seqs_nonempty: "q \<in> set space_seqs \<Longrightarrow> q \<noteq> []"
  by (auto simp: space_seqs_def)

lemma TrimSpace_length: "length (TrimSpace s) \<le> length s"
proof -
  have "length (TrimRight t) \<le> length t" for t
    unfolding TrimRight_def using strip_seqs_length[of "map rev space_seqs" "length t" "rev t"] by simp
  moreover have "length (TrimLeft s) \<le> length s"
    unfolding TrimLeft_def by (rule strip_seqs_length)
  ultimately show ?thesis
    unfolding TrimSpace_def by (meson order_trans)
qed

lemma TrimSpace_Nil [simp]: "TrimSpace [] = []"
  using TrimSpace_length[of "[]"] by simp

section \<open>Stable sorting\<close>

text \<open>
  \<open>sort.SliceStable\<close> with a comparison of integer keys is the library's \<open>sort_key\<close>:
  elements with equal keys keep their relative order.
\<close>

lemma sort_key_append_sorted:
  assumes "sorted (map f xs)" and "sorted (map f ys)"
    and "\<And>x y. x \<in> set xs \<Longrightarrow> y \<in> set ys \<Longrightarrow> f x \<le> f y"
  shows "sort_key f (xs @ ys) = xs @ ys"
proof -
  have "sorted (map f (xs @ ys))"
    using assms by (auto simp: sorted_append)
  then show ?thesis by (rule sort_key_id_if_sorted)
qed

lemma sort_key_idem: "sort_key f (sort_key f xs) = sort_key f xs"
  by (rule sort_key_id_if_sorted) simp

section \<open>Lists\<close>

fun index_of :: "('a \<Rightarrow> bool) \<Rightarrow> 'a list \<Rightarrow> nat option" where
  "index_of P [] = None"
| "index_of P (x # xs) = (if P x then Some 0 else map_option Suc (index_of P xs))"

lemma index_of_Some:
  "index_of P xs = Some i \<Longrightarrow> i < length xs \<and> P (xs ! i) \<and> (\<forall>j<i. \<not> P (xs ! j))"
proof (induction xs arbitrary: i)
  case (Cons x xs)
  show ?case
  proof (cases "P x")
    case False
    with Cons.prems obtain k where k: "index_of P xs = Some k" "i = Suc k" by auto
    with Cons.IH[OF k(1)] False show ?thesis
      by (auto simp: less_Suc_eq_0_disj)
  qed (use Cons.prems in auto)
qed simp

lemma index_of_None: "index_of P xs = None \<longleftrightarrow> (\<forall>x\<in>set xs. \<not> P x)"
  by (induction xs) auto

end
