(* ===== verification/Json.thy ===== *)
theory Json
  imports Prelude
begin

text \<open>
  The parts of \<open>unicode/utf8\<close> and \<open>encoding/json\<close> the sources use: UTF-8 validity of a byte
  string, decoding of a JSON text, decoding into \<open>map[string]any\<close> (numbers become
  \<open>float64\<close>, so an out-of-range number fails the whole call; a repeated key keeps its last value),
  and decoding of string fields of a struct, which match keys without regard to case.
  The decoder is a lexer and a stack machine, both structurally recursive over their input.
\<close>

section \<open>UTF-8\<close>

definition byte :: "char \<Rightarrow> int" where
  "byte c = of_char c"

definition cont :: "int \<Rightarrow> int \<Rightarrow> char \<Rightarrow> bool" where
  "cont lo hi c \<longleftrightarrow> lo \<le> byte c \<and> byte c \<le> hi"

text \<open>The length of the valid encoding a string starts with, \<open>0\<close> if there is none.\<close>

fun rune_len :: "string \<Rightarrow> nat" where
  "rune_len [] = 0"
| "rune_len (c # s) =
     (let b = byte c in
      if b < 0x80 then 1
      else if 0xC2 \<le> b \<and> b \<le> 0xDF then
        (case s of c1 # _ \<Rightarrow> if cont 0x80 0xBF c1 then 2 else 0 | _ \<Rightarrow> 0)
      else if 0xE0 \<le> b \<and> b \<le> 0xEF then
        (case s of c1 # c2 # _ \<Rightarrow>
           if cont (if b = 0xE0 then 0xA0 else 0x80) (if b = 0xED then 0x9F else 0xBF) c1 \<and>
              cont 0x80 0xBF c2 then 3 else 0 | _ \<Rightarrow> 0)
      else if 0xF0 \<le> b \<and> b \<le> 0xF4 then
        (case s of c1 # c2 # c3 # _ \<Rightarrow>
           if cont (if b = 0xF0 then 0x90 else 0x80) (if b = 0xF4 then 0x8F else 0xBF) c1 \<and>
              cont 0x80 0xBF c2 \<and> cont 0x80 0xBF c3 then 4 else 0 | _ \<Rightarrow> 0)
      else 0)"

definition RuneError :: string where
  "RuneError = [CHR 0xEF, CHR 0xBF, CHR 0xBD]"

text \<open>
  Replace every byte that does not start a valid encoding by the replacement character.  The
  counter is the number of bytes of the current rune still to be copied.
\<close>

fun sanitize_go :: "nat \<Rightarrow> string \<Rightarrow> string" where
  "sanitize_go n [] = []"
| "sanitize_go (Suc n) (c # s) = c # sanitize_go n s"
| "sanitize_go 0 (c # s) =
     (case rune_len (c # s) of
        0 \<Rightarrow> RuneError @ sanitize_go 0 s
      | Suc k \<Rightarrow> c # sanitize_go k s)"

definition to_valid_utf8 :: "string \<Rightarrow> string" where
  "to_valid_utf8 s = sanitize_go 0 s"

fun valid_go :: "nat \<Rightarrow> string \<Rightarrow> bool" where
  "valid_go n [] \<longleftrightarrow> True"
| "valid_go (Suc n) (c # s) \<longleftrightarrow> valid_go n s"
| "valid_go 0 (c # s) \<longleftrightarrow> (case rune_len (c # s) of 0 \<Rightarrow> False | Suc k \<Rightarrow> valid_go k s)"

definition ValidString :: "string \<Rightarrow> bool" where
  "ValidString s = valid_go 0 s"

definition RuneStart :: "char \<Rightarrow> bool" where
  "RuneStart c \<longleftrightarrow> \<not> (0x80 \<le> byte c \<and> byte c < 0xC0)"

text \<open>Move backwards from a position to the start of a rune, but not below \<open>lo\<close>.\<close>

fun rune_back :: "string \<Rightarrow> nat \<Rightarrow> nat \<Rightarrow> nat" where
  "rune_back s lo 0 = 0"
| "rune_back s lo (Suc j) =
     (if Suc j < length s \<and> lo < Suc j \<and> \<not> RuneStart (s ! Suc j) then rune_back s lo j else Suc j)"

lemma sanitize_go_valid: "valid_go n s \<Longrightarrow> sanitize_go n s = s"
  by (induction n s rule: sanitize_go.induct) (auto split: nat.splits)

lemma to_valid_utf8_id: "ValidString s \<Longrightarrow> to_valid_utf8 s = s"
  by (simp add: ValidString_def to_valid_utf8_def sanitize_go_valid)

definition enc_rune :: "int \<Rightarrow> string" where
  "enc_rune r =
     (if r < 0x80 then [char_of r]
      else if r < 0x800 then [char_of (0xC0 + r div 64), char_of (0x80 + r mod 64)]
      else if (0xD800 \<le> r \<and> r \<le> 0xDFFF) \<or> 0x10FFFF < r then RuneError
      else if r < 0x10000 then
        [char_of (0xE0 + r div 4096), char_of (0x80 + r div 64 mod 64), char_of (0x80 + r mod 64)]
      else [char_of (0xF0 + r div 262144), char_of (0x80 + r div 4096 mod 64),
            char_of (0x80 + r div 64 mod 64), char_of (0x80 + r mod 64)])"

section \<open>JSON texts\<close>

datatype json =
  JNull | JBool bool | JNum string | JStr string | JArr "json list" | JObj "(string \<times> json) list"

datatype token =
  TLBrace | TRBrace | TLBrack | TRBrack | TColon | TComma
| TStr string | TNum string | TTrue | TFalse | TNull

text \<open>The contents of a string literal: raw bytes and \<open>\u\<close> escapes, before they are combined.\<close>

datatype lit = LByte char | LUnit int

fun lit_bytes :: "lit list \<Rightarrow> string" where
  "lit_bytes (LByte c # ls) = c # lit_bytes ls"
| "lit_bytes _ = []"

fun unquote :: "nat \<Rightarrow> lit list \<Rightarrow> string" where
  "unquote n [] = []"
| "unquote (Suc n) (LByte c # ls) = c # unquote n ls"
| "unquote 0 (LByte c # ls) =
     (case rune_len (c # lit_bytes ls) of
        0 \<Rightarrow> RuneError @ unquote 0 ls
      | Suc k \<Rightarrow> c # unquote k ls)"
| "unquote n (LUnit u # LUnit v # ls) =
     (if 0xD800 \<le> u \<and> u < 0xDC00 \<and> 0xDC00 \<le> v \<and> v < 0xE000
      then enc_rune (0x10000 + (u - 0xD800) * 0x400 + (v - 0xDC00)) @ unquote 0 ls
      else enc_rune u @ unquote 0 (LUnit v # ls))"
| "unquote n (LUnit u # ls) = enc_rune u @ unquote 0 ls"

definition hex_val :: "char \<Rightarrow> int option" where
  "hex_val c =
     (let b = byte c in
      if 0x30 \<le> b \<and> b \<le> 0x39 then Some (b - 0x30)
      else if 0x61 \<le> b \<and> b \<le> 0x66 then Some (b - 0x61 + 10)
      else if 0x41 \<le> b \<and> b \<le> 0x46 then Some (b - 0x41 + 10)
      else None)"

definition is_digit :: "char \<Rightarrow> bool" where
  "is_digit c \<longleftrightarrow> 0x30 \<le> byte c \<and> byte c \<le> 0x39"

text \<open>Number literals: \<open>-?(0|[1-9][0-9]*)(\.[0-9]+)?([eE][+-]?[0-9]+)?\<close>.\<close>

definition digits1 :: "string \<Rightarrow> bool" where
  "digits1 s \<longleftrightarrow> s \<noteq> [] \<and> list_all is_digit s"

definition split_at :: "(char \<Rightarrow> bool) \<Rightarrow> string \<Rightarrow> string \<times> string option" where
  "split_at P s =
     (takeWhile (\<lambda>c. \<not> P c) s,
      case dropWhile (\<lambda>c. \<not> P c) s of [] \<Rightarrow> None | _ # t \<Rightarrow> Some t)"

definition number_parts :: "string \<Rightarrow> bool \<times> string \<times> string option \<times> string option" where
  "number_parts s =
     (let neg = (prefix ''-'' s);
          body = (if neg then tl s else s);
          (mant, ex) = split_at (\<lambda>c. c = CHR ''e'' \<or> c = CHR ''E'') body;
          (ip, fp) = split_at (\<lambda>c. c = CHR ''.'') mant
      in (neg, ip, fp, ex))"

definition exp_digits :: "string \<Rightarrow> string" where
  "exp_digits e = (case e of c # t \<Rightarrow> if c = CHR ''+'' \<or> c = CHR ''-'' then t else e | [] \<Rightarrow> [])"

definition valid_number :: "string \<Rightarrow> bool" where
  "valid_number s =
     (let (neg, ip, fp, ex) = number_parts s in
      digits1 ip \<and> (length ip = 1 \<or> hd ip \<noteq> CHR ''0'') \<and>
      (case fp of None \<Rightarrow> True | Some f \<Rightarrow> digits1 f) \<and>
      (case ex of None \<Rightarrow> True | Some e \<Rightarrow> digits1 (exp_digits e)))"

definition dec_val :: "string \<Rightarrow> int" where
  "dec_val s = foldl (\<lambda>a c. 10 * a + (byte c - 0x30)) 0 s"

text \<open>
  \<open>strconv.ParseFloat\<close> reports a range error exactly when the magnitude rounds past the largest
  finite \<open>float64\<close>, that is from \<open>2^1024 - 2^970\<close> on.
\<close>

definition float64_in_range :: "string \<Rightarrow> bool" where
  "float64_in_range s =
     (let (neg, ip, fp, ex) = number_parts s;
          f = (case fp of None \<Rightarrow> [] | Some f \<Rightarrow> f);
          m = dec_val (ip @ f);
          e = (case ex of None \<Rightarrow> 0
               | Some e \<Rightarrow> (if prefix ''-'' e then - dec_val (exp_digits e)
                            else dec_val (exp_digits e)));
          k = e - int (length f);
          lim = (2 ^ 1024 - 2 ^ 970 :: int)
      in m = 0 \<or> (if 0 \<le> k then m * 10 ^ nat k < lim else m < lim * 10 ^ nat (- k)))"

definition is_num_char :: "char \<Rightarrow> bool" where
  "is_num_char c \<longleftrightarrow> is_digit c \<or> c \<in> set ''+-.eE''"

definition is_json_space :: "char \<Rightarrow> bool" where
  "is_json_space c \<longleftrightarrow> c \<in> {CHR 0x20, CHR 0x09, CHR 0x0D, CHR 0x0A}"

definition punct :: "char \<Rightarrow> token option" where
  "punct c =
     (if c = CHR ''{'' then Some TLBrace else if c = CHR ''}'' then Some TRBrace
      else if c = CHR ''['' then Some TLBrack else if c = CHR '']'' then Some TRBrack
      else if c = CHR '':'' then Some TColon else if c = CHR '','' then Some TComma else None)"

definition escape :: "char \<Rightarrow> char option" where
  "escape c =
     (if c = CHR 0x22 \<or> c = CHR 0x5C \<or> c = CHR 0x2F then Some c
      else if c = CHR ''b'' then Some (CHR 0x08) else if c = CHR ''f'' then Some (CHR 0x0C)
      else if c = CHR ''n'' then Some (CHR 0x0A) else if c = CHR ''r'' then Some (CHR 0x0D)
      else if c = CHR ''t'' then Some (CHR 0x09) else None)"

datatype lexer =
  LStart | LStr "lit list" | LEsc "lit list" | LHex "lit list" nat int | LNum string | LWord string

definition word_token :: "string \<Rightarrow> token option" where
  "word_token w =
     (if w = ''true'' then Some TTrue else if w = ''false'' then Some TFalse
      else if w = ''null'' then Some TNull else None)"

text \<open>
  One character: the tokens it completes and the next lexer state, or \<open>None\<close> for a syntax error.
  Literal contents and numbers are collected in reverse.
\<close>

definition lex_fresh :: "char \<Rightarrow> (token list \<times> lexer) option" where
  "lex_fresh c =
     (if is_json_space c then Some ([], LStart)
      else case punct c of
        Some t \<Rightarrow> Some ([t], LStart)
      | None \<Rightarrow>
          if c = CHR 0x22 then Some ([], LStr [])
          else if is_digit c \<or> c = CHR ''-'' then Some ([], LNum [c])
          else if c \<in> set ''tfn'' then Some ([], LWord [c])
          else None)"

definition num_token :: "string \<Rightarrow> token option" where
  "num_token w = (if valid_number w then Some (TNum w) else None)"

fun lex_char :: "lexer \<Rightarrow> char \<Rightarrow> (token list \<times> lexer) option" where
  "lex_char LStart c = lex_fresh c"
| "lex_char (LStr ls) c =
     (if c = CHR 0x22 then Some ([TStr (unquote 0 (rev ls))], LStart)
      else if c = CHR 0x5C then Some ([], LEsc ls)
      else if byte c < 0x20 then None
      else Some ([], LStr (LByte c # ls)))"
| "lex_char (LEsc ls) c =
     (if c = CHR ''u'' then Some ([], LHex ls 4 0)
      else case escape c of Some d \<Rightarrow> Some ([], LStr (LByte d # ls)) | None \<Rightarrow> None)"
| "lex_char (LHex ls n acc) c =
     (case hex_val c of
        None \<Rightarrow> None
      | Some d \<Rightarrow>
          if n = 1 then Some ([], LStr (LUnit (16 * acc + d) # ls))
          else Some ([], LHex ls (n - 1) (16 * acc + d)))"
| "lex_char (LNum w) c =
     (if is_num_char c then Some ([], LNum (c # w))
      else case num_token (rev w) of
        None \<Rightarrow> None
      | Some t \<Rightarrow> map_option (\<lambda>(ts, st). (t # ts, st)) (lex_fresh c))"
| "lex_char (LWord w) c =
     (if c \<in> set ''abcdefghijklmnopqrstuvwxyz'' then Some ([], LWord (c # w))
      else case word_token (rev w) of
        None \<Rightarrow> None
      | Some t \<Rightarrow> map_option (\<lambda>(ts, st). (t # ts, st)) (lex_fresh c))"

fun lex_end :: "lexer \<Rightarrow> token list option" where
  "lex_end LStart = Some []"
| "lex_end (LNum w) = map_option (\<lambda>t. [t]) (num_token (rev w))"
| "lex_end (LWord w) = map_option (\<lambda>t. [t]) (word_token (rev w))"
| "lex_end _ = None"

fun lex_go :: "lexer \<Rightarrow> string \<Rightarrow> token list option" where
  "lex_go st [] = lex_end st"
| "lex_go st (c # s) =
     (case lex_char st c of
        None \<Rightarrow> None
      | Some (ts, st') \<Rightarrow> map_option (\<lambda>r. ts @ r) (lex_go st' s))"

text \<open>The stack machine: open containers, and what may come next.\<close>

datatype frame = FArr "json list" | FObj "(string \<times> json) list" string

datatype expect = EValue | EFirstElem | EFirstKey | EKey | EColon | EAfter | EDone json

definition emit :: "json \<Rightarrow> frame list \<Rightarrow> frame list \<times> expect" where
  "emit v st =
     (case st of
        [] \<Rightarrow> ([], EDone v)
      | FArr vs # rest \<Rightarrow> (FArr (v # vs) # rest, EAfter)
      | FObj ps k # rest \<Rightarrow> (FObj ((k, v) # ps) k # rest, EAfter))"

definition open_frame :: "frame \<Rightarrow> expect \<Rightarrow> frame list \<Rightarrow> (frame list \<times> expect) option" where
  "open_frame f e st = (if length st < 10000 then Some (f # st, e) else None)"

fun begin_value :: "token \<Rightarrow> frame list \<Rightarrow> (frame list \<times> expect) option" where
  "begin_value TLBrace st = open_frame (FObj [] []) EFirstKey st"
| "begin_value TLBrack st = open_frame (FArr []) EFirstElem st"
| "begin_value (TStr s) st = Some (emit (JStr s) st)"
| "begin_value (TNum w) st = Some (emit (JNum w) st)"
| "begin_value TTrue st = Some (emit (JBool True) st)"
| "begin_value TFalse st = Some (emit (JBool False) st)"
| "begin_value TNull st = Some (emit JNull st)"
| "begin_value _ st = None"

definition parse_step :: "expect \<Rightarrow> token \<Rightarrow> frame list \<Rightarrow> (frame list \<times> expect) option" where
  "parse_step e t st =
     (case e of
        EValue \<Rightarrow> begin_value t st
      | EFirstElem \<Rightarrow> (if t = TRBrack then Some (emit (JArr []) (tl st)) else begin_value t st)
      | EFirstKey \<Rightarrow>
          (case st of
             FObj ps k # rest \<Rightarrow>
               (case t of
                  TRBrace \<Rightarrow> Some (emit (JObj []) rest)
                | TStr s \<Rightarrow> Some (FObj ps s # rest, EColon)
                | _ \<Rightarrow> None)
           | _ \<Rightarrow> None)
      | EKey \<Rightarrow>
          (case st of
             FObj ps k # rest \<Rightarrow> (case t of TStr s \<Rightarrow> Some (FObj ps s # rest, EColon) | _ \<Rightarrow> None)
           | _ \<Rightarrow> None)
      | EColon \<Rightarrow> (if t = TColon then Some (st, EValue) else None)
      | EAfter \<Rightarrow>
          (case st of
             FArr vs # rest \<Rightarrow>
               (if t = TComma then Some (st, EValue)
                else if t = TRBrack then Some (emit (JArr (rev vs)) rest) else None)
           | FObj ps k # rest \<Rightarrow>
               (if t = TComma then Some (st, EKey)
                else if t = TRBrace then Some (emit (JObj (rev ps)) rest) else None)
           | [] \<Rightarrow> None)
      | EDone v \<Rightarrow> None)"

fun parse_go :: "frame list \<Rightarrow> expect \<Rightarrow> token list \<Rightarrow> json option" where
  "parse_go st e [] = (case e of EDone v \<Rightarrow> Some v | _ \<Rightarrow> None)"
| "parse_go st e (t # ts) =
     (case parse_step e t st of None \<Rightarrow> None | Some (st', e') \<Rightarrow> parse_go st' e' ts)"

definition json_parse :: "string \<Rightarrow> json option" where
  "json_parse s =
     (case lex_go LStart s of None \<Rightarrow> None | Some ts \<Rightarrow> parse_go [] EValue ts)"

section \<open>Unmarshal\<close>

fun numbers_ok :: "json \<Rightarrow> bool" where
  "numbers_ok (JNum w) = float64_in_range w"
| "numbers_ok (JArr vs) = list_all numbers_ok vs"
| "numbers_ok (JObj ps) = list_all (\<lambda>p. numbers_ok (snd p)) ps"
| "numbers_ok _ = True"

text \<open>\<open>json.Unmarshal\<close> into a \<open>map[string]any\<close>; \<open>None\<close> is an error.\<close>

definition unmarshal_map :: "string \<Rightarrow> (string \<rightharpoonup> json) option" where
  "unmarshal_map s =
     (case json_parse s of
        Some (JObj ps) \<Rightarrow> if numbers_ok (JObj ps) then Some (map_of (rev ps)) else None
      | Some JNull \<Rightarrow> Some Map.empty
      | _ \<Rightarrow> None)"

text \<open>
  Struct fields match a key exactly or after simple case folding; the Kelvin sign folds to \<open>k\<close>
  and the long s to \<open>s\<close>.
\<close>

fun fold_key :: "string \<Rightarrow> string" where
  "fold_key [] = []"
| "fold_key (c # s) =
     (if c = CHR 0xE2 \<and> prefix [CHR 0x84, CHR 0xAA] s then CHR ''k'' # fold_key (drop 2 s)
      else if c = CHR 0xC5 \<and> prefix [CHR 0xBF] s then CHR ''s'' # fold_key (drop 1 s)
      else (if 0x41 \<le> byte c \<and> byte c \<le> 0x5A then char_of (byte c + 32) else c) # fold_key s)"

text \<open>
  The value of one string field: every matching key stores in turn, \<open>null\<close> stores nothing, and a
  value of another type is an error.
\<close>

fun store_string_field :: "string \<Rightarrow> (string \<times> json) list \<Rightarrow> string \<Rightarrow> string option" where
  "store_string_field name [] cur = Some cur"
| "store_string_field name ((k, v) # ps) cur =
     (if fold_key k = fold_key name
      then (case v of
              JStr s \<Rightarrow> store_string_field name ps s
            | JNull \<Rightarrow> store_string_field name ps cur
            | _ \<Rightarrow> None)
      else store_string_field name ps cur)"

fun store_bool_field :: "string \<Rightarrow> (string \<times> json) list \<Rightarrow> bool \<Rightarrow> bool option" where
  "store_bool_field name [] cur = Some cur"
| "store_bool_field name ((k, v) # ps) cur =
     (if fold_key k = fold_key name
      then (case v of
              JBool b \<Rightarrow> store_bool_field name ps b
            | JNull \<Rightarrow> store_bool_field name ps cur
            | _ \<Rightarrow> None)
      else store_bool_field name ps cur)"

text \<open>\<open>strconv.ParseInt\<close> on a number literal: digits only, within 64 bits.\<close>

definition parse_int64 :: "string \<Rightarrow> int option" where
  "parse_int64 w =
     (let neg = prefix ''-'' w; ds = (if neg then tl w else w);
          v = (if neg then - dec_val ds else dec_val ds)
      in if digits1 ds \<and> - (2 ^ 63) \<le> v \<and> v < 2 ^ 63 then Some v else None)"

text \<open>An integer field holds a value; a pointer field starts nil and \<open>null\<close> resets it.\<close>

fun store_int_field :: "string \<Rightarrow> (string \<times> json) list \<Rightarrow> int \<Rightarrow> int option" where
  "store_int_field name [] cur = Some cur"
| "store_int_field name ((k, v) # ps) cur =
     (if fold_key k = fold_key name
      then (case v of
              JNum w \<Rightarrow> (case parse_int64 w of None \<Rightarrow> None | Some n \<Rightarrow> store_int_field name ps n)
            | JNull \<Rightarrow> store_int_field name ps cur
            | _ \<Rightarrow> None)
      else store_int_field name ps cur)"

fun store_int_ptr :: "string \<Rightarrow> (string \<times> json) list \<Rightarrow> int option \<Rightarrow> int option option" where
  "store_int_ptr name [] cur = Some cur"
| "store_int_ptr name ((k, v) # ps) cur =
     (if fold_key k = fold_key name
      then (case v of
              JNum w \<Rightarrow> (case parse_int64 w of None \<Rightarrow> None | Some n \<Rightarrow> store_int_ptr name ps (Some n))
            | JNull \<Rightarrow> store_int_ptr name ps None
            | _ \<Rightarrow> None)
      else store_int_ptr name ps cur)"

text \<open>The object a struct is decoded from; \<open>null\<close> leaves every field at its zero value.\<close>

definition unmarshal_object :: "string \<Rightarrow> (string \<times> json) list option" where
  "unmarshal_object s =
     (case json_parse s of Some (JObj ps) \<Rightarrow> Some ps | Some JNull \<Rightarrow> Some [] | _ \<Rightarrow> None)"

section \<open>Marshal\<close>

text \<open>
  String literals as \<open>json.Marshal\<close> writes them: short escapes, control characters and the
  HTML-sensitive characters as \<open>\u00XX\<close>, invalid bytes as the escaped replacement character, and
  the two line separators escaped.
\<close>

definition hex_digit :: "int \<Rightarrow> char" where
  "hex_digit d = (if d < 10 then char_of (0x30 + d) else char_of (0x61 + d - 10))"

definition quote_ascii :: "char \<Rightarrow> string" where
  "quote_ascii c =
     (let b = byte c in
      if b = 0x22 \<or> b = 0x5C then [CHR 0x5C, c]
      else if b = 0x08 then [CHR 0x5C] @ ''b'' else if b = 0x0C then [CHR 0x5C] @ ''f''
      else if b = 0x0A then [CHR 0x5C] @ ''n'' else if b = 0x0D then [CHR 0x5C] @ ''r''
      else if b = 0x09 then [CHR 0x5C] @ ''t''
      else if b < 0x20 \<or> b = 0x3C \<or> b = 0x3E \<or> b = 0x26
      then [CHR 0x5C] @ ''u00'' @ [hex_digit (b div 16), hex_digit (b mod 16)]
      else [c])"

fun quote_go :: "nat \<Rightarrow> string \<Rightarrow> string" where
  "quote_go n [] = []"
| "quote_go (Suc n) (c # s) = c # quote_go n s"
| "quote_go 0 (c # s) =
     (if byte c < 0x80 then quote_ascii c @ quote_go 0 s
      else if prefix [CHR 0xE2, CHR 0x80, CHR 0xA8] (c # s)
      then [CHR 0x5C] @ ''u2028'' @ quote_go 0 (drop 2 s)
      else if prefix [CHR 0xE2, CHR 0x80, CHR 0xA9] (c # s)
      then [CHR 0x5C] @ ''u2029'' @ quote_go 0 (drop 2 s)
      else case rune_len (c # s) of
             0 \<Rightarrow> [CHR 0x5C] @ ''ufffd'' @ quote_go 0 s
           | Suc k \<Rightarrow> c # quote_go k s)"

definition json_quote :: "string \<Rightarrow> string" where
  "json_quote s = [CHR 0x22] @ quote_go 0 s @ [CHR 0x22]"

text \<open>A struct with string-valued members, in order; a member with \<open>omitempty\<close> is dropped by its user.\<close>

definition json_object :: "(string \<times> string) list \<Rightarrow> string" where
  "json_object members =
     ''{'' @ Join (map (\<lambda>(k, v). json_quote k @ '':'' @ v) members) '','' @ ''}''"

definition omitempty :: "string \<Rightarrow> string \<Rightarrow> (string \<times> string) list" where
  "omitempty k v = (if v = '''' then [] else [(k, json_quote v)])"

end
