(* ===== verification/Conversation.thy ===== *)
theory Conversation
  imports Protocol
begin

text \<open>
  The model-visible conversation of an agent (\<open>core/agent/conversation_state.go\<close>): a history,
  the cursor describing which contextual messages it contains, and an optional recorder that
  must make every change durable before memory advances.

  A recorder is a state of type \<open>'r\<close> and an operation that consumes a mutation and returns the
  next recorder state together with the error it reported, if any; a failing recorder may change
  its own state.  The locale \<open>durable_recorder\<close> is the contract the conversation relies on, and
  \<open>Runtime_WAL\<close> interprets it on the write-ahead log of the daemon's worker.
  Deep copies (\<open>cloneMessages\<close>, \<open>Clone\<close>) are the identity on values.
\<close>

section \<open>State\<close>

record UserContextState =
  uc_Version :: int
  uc_Sections :: "string \<rightharpoonup> string"

record HistoryMutation =
  hm_Replace :: bool
  hm_Messages :: "Message list"
  hm_UserContextState :: "UserContextState option"
  hm_HasUserContextState :: bool

record 'r conversationState =
  history :: "Message list"
  userContextState :: "UserContextState option"
  recorder :: "'r option"

type_synonym 'r record_fn = "'r \<Rightarrow> HistoryMutation \<Rightarrow> 'r \<times> string option"

definition newConversationState :: "'r conversationState" where
  "newConversationState = \<lparr>history = [], userContextState = None, recorder = None\<rparr>"

section \<open>Operations\<close>

text \<open>
  The two in-memory assignments of \<open>apply\<close>, which also describe what replaying a recorded
  mutation does.
\<close>

definition apply_mutation :: "Message list \<times> UserContextState option \<Rightarrow> HistoryMutation
    \<Rightarrow> Message list \<times> UserContextState option" where
  "apply_mutation s m =
     (if hm_Replace m then hm_Messages m else fst s @ hm_Messages m,
      if hm_HasUserContextState m then hm_UserContextState m else snd s)"

datatype conversation_error = ErrHistoryRecord string

definition conversation_apply :: "'r record_fn \<Rightarrow> 'r conversationState \<Rightarrow> HistoryMutation
    \<Rightarrow> 'r conversationState \<times> conversation_error option" where
  "conversation_apply rec s mutation =
     (let (s', err) =
        (case recorder s of
           None \<Rightarrow> (s, None)
         | Some r \<Rightarrow> (let (r', e) = rec r mutation in (s\<lparr>recorder := Some r'\<rparr>, e)))
      in case err of
           Some e \<Rightarrow> (s', Some (ErrHistoryRecord e))
         | None \<Rightarrow>
             (let (h, u) = apply_mutation (history s', userContextState s') mutation
              in (s'\<lparr>history := h, userContextState := u\<rparr>, None)))"

definition conversation_append :: "'r record_fn \<Rightarrow> 'r conversationState \<Rightarrow> Message list
    \<Rightarrow> UserContextState option \<Rightarrow> bool \<Rightarrow> 'r conversationState \<times> conversation_error option" where
  "conversation_append rec s messages ucs hasUcs =
     conversation_apply rec s
       \<lparr>hm_Replace = False, hm_Messages = messages, hm_UserContextState = ucs,
        hm_HasUserContextState = hasUcs\<rparr>"

definition appendMessages :: "'r record_fn \<Rightarrow> 'r conversationState \<Rightarrow> Message list
    \<Rightarrow> 'r conversationState \<times> conversation_error option" where
  "appendMessages rec s messages =
     (if messages = [] then (s, None) else conversation_append rec s messages None False)"

definition conversation_replace :: "'r record_fn \<Rightarrow> 'r conversationState \<Rightarrow> Message list
    \<Rightarrow> UserContextState option \<Rightarrow> 'r conversationState \<times> conversation_error option" where
  "conversation_replace rec s messages ucs =
     conversation_apply rec s
       \<lparr>hm_Replace = True, hm_Messages = messages, hm_UserContextState = ucs,
        hm_HasUserContextState = True\<rparr>"

definition conversation_restore :: "'r conversationState \<Rightarrow> Message list
    \<Rightarrow> UserContextState option \<Rightarrow> 'r conversationState" where
  "conversation_restore s messages ucs = s\<lparr>history := messages, userContextState := ucs\<rparr>"

definition conversation_snapshot :: "'r conversationState
    \<Rightarrow> Message list \<times> UserContextState option" where
  "conversation_snapshot s = (history s, userContextState s)"

lemmas conversation_defs = conversation_append_def appendMessages_def conversation_replace_def

lemma conversation_apply_ok:
  "conversation_apply rec s m = (s', None) \<longleftrightarrow>
     (\<exists>ro. (case recorder s of None \<Rightarrow> ro = None
                       | Some r \<Rightarrow> \<exists>r'. rec r m = (r', None) \<and> ro = Some r') \<and>
       s' = s\<lparr>recorder := ro, history := fst (apply_mutation (conversation_snapshot s) m),
              userContextState := snd (apply_mutation (conversation_snapshot s) m)\<rparr>)"
  by (auto simp: conversation_apply_def conversation_snapshot_def Let_def
      split: option.splits prod.splits)

lemma conversation_apply_err:
  "conversation_apply rec s m = (s', Some e) \<Longrightarrow>
     conversation_snapshot s' = conversation_snapshot s \<and>
     (\<exists>r r' msg. recorder s = Some r \<and> rec r m = (r', Some msg) \<and> recorder s' = Some r' \<and>
        e = ErrHistoryRecord msg)"
  by (auto simp: conversation_apply_def conversation_snapshot_def Let_def
      split: option.splits prod.splits)

lemma conversation_apply_recorder:
  "recorder (fst (conversation_apply rec s m)) = map_option (\<lambda>r. fst (rec r m)) (recorder s)"
  by (auto simp: conversation_apply_def Let_def split: option.splits prod.splits)

section \<open>Sequences of operations\<close>

text \<open>The journaled operations a host can perform, and their effect in order.\<close>

datatype conversation_op =
  OpAppend "Message list" "UserContextState option" bool
| OpAppendMessages "Message list"
| OpReplace "Message list" "UserContextState option"

fun conversation_do :: "'r record_fn \<Rightarrow> 'r conversationState \<Rightarrow> conversation_op
    \<Rightarrow> 'r conversationState \<times> conversation_error option" where
  "conversation_do rec s (OpAppend ms u b) = conversation_append rec s ms u b"
| "conversation_do rec s (OpAppendMessages ms) = appendMessages rec s ms"
| "conversation_do rec s (OpReplace ms u) = conversation_replace rec s ms u"

fun conversation_run :: "'r record_fn \<Rightarrow> 'r conversationState \<Rightarrow> conversation_op list
    \<Rightarrow> 'r conversationState" where
  "conversation_run rec s [] = s"
| "conversation_run rec s (x # xs) = conversation_run rec (fst (conversation_do rec s x)) xs"

definition replay :: "Message list \<times> UserContextState option \<Rightarrow> HistoryMutation list
    \<Rightarrow> Message list \<times> UserContextState option" where
  "replay base ms = foldl apply_mutation base ms"

lemma replay_Nil [simp]: "replay base [] = base"
  by (simp add: replay_def)

lemma replay_snoc: "replay base (ms @ [m]) = apply_mutation (replay base ms) m"
  by (simp add: replay_def)

section \<open>The recorder contract\<close>

text \<open>
  What the conversation relies on: a successful record extends the durable journal by exactly the
  mutation, a failed one leaves it as it was, and recorders keep their invariant.
\<close>

locale durable_recorder =
  fixes rec :: "'r \<Rightarrow> HistoryMutation \<Rightarrow> 'r \<times> string option"
    and journal :: "'r \<Rightarrow> HistoryMutation list"
    and ok :: "'r \<Rightarrow> bool"
  assumes rec_ok: "ok r \<Longrightarrow> rec r m = (r', None) \<Longrightarrow> journal r' = journal r @ [m]"
    and rec_err: "ok r \<Longrightarrow> rec r m = (r', Some e) \<Longrightarrow> journal r' = journal r"
    and rec_inv: "ok r \<Longrightarrow> ok (fst (rec r m))"
begin

text \<open>Memory and journal agree: what is in memory is the base replayed over the journal.\<close>

definition synced :: "Message list \<times> UserContextState option \<Rightarrow> 'r conversationState \<Rightarrow> bool" where
  "synced base s \<longleftrightarrow>
     (\<exists>r. recorder s = Some r \<and> ok r \<and> conversation_snapshot s = replay base (journal r))"

lemma apply_synced:
  assumes "synced base s"
  shows "synced base (fst (conversation_apply rec s m))"
proof -
  from assms obtain r where r: "recorder s = Some r" "ok r"
      "conversation_snapshot s = replay base (journal r)"
    by (auto simp: synced_def)
  obtain r' e where re: "rec r m = (r', e)" by fastforce
  with rec_inv[OF r(2), of m] have ok': "ok r'" by simp
  show ?thesis
  proof (cases e)
    case None
    with r(1) re have "conversation_apply rec s m =
        (s\<lparr>recorder := Some r', history := fst (apply_mutation (conversation_snapshot s) m),
           userContextState := snd (apply_mutation (conversation_snapshot s) m)\<rparr>, None)"
      by (simp add: conversation_apply_ok)
    moreover have "journal r' = journal r @ [m]"
      using rec_ok[OF r(2)] re None by simp
    ultimately show ?thesis
      using r(3) ok' by (simp add: synced_def replay_snoc conversation_snapshot_def)
  next
    case (Some msg)
    with r(1) re have "fst (conversation_apply rec s m) = s\<lparr>recorder := Some r'\<rparr>"
      by (simp add: conversation_apply_def)
    moreover have "journal r' = journal r"
      using rec_err[OF r(2)] re Some by simp
    ultimately show ?thesis
      using r(3) ok' by (simp add: synced_def conversation_snapshot_def)
  qed
qed

lemma do_synced: "synced base s \<Longrightarrow> synced base (fst (conversation_do rec s x))"
  by (cases x) (auto simp: conversation_defs intro: apply_synced)

lemma run_synced: "synced base s \<Longrightarrow> synced base (conversation_run rec s xs)"
  by (induction xs arbitrary: s) (auto intro: do_synced)

end

end
