(* ===== verification/Paths.thy ===== *)
theory Paths
  imports Prelude
begin

text \<open>
  Package \<open>path/filepath\<close> on Unix, as far as the tools use it: \<open>Clean\<close>, \<open>Join\<close>, \<open>IsAbs\<close> and
  \<open>Base\<close>.  A path is split at slashes; empty and dot segments disappear and a dot-dot segment
  removes the segment before it.  The lemmas relate textual prefixes of cleaned absolute paths
  to prefixes of their segment lists, which is what containment in a directory means.
\<close>

abbreviation slash :: char where "slash \<equiv> CHR ''/''"

definition IsAbs :: "string \<Rightarrow> bool" where
  "IsAbs p = prefix [slash] p"

definition raw_segs :: "string \<Rightarrow> string list" where
  "raw_segs p = filter (\<lambda>x. x \<noteq> [] \<and> x \<noteq> ''.'') (Split slash p)"

text \<open>The segments kept so far, innermost first.\<close>

definition clean_step :: "bool \<Rightarrow> string list \<Rightarrow> string \<Rightarrow> string list" where
  "clean_step rooted stack x =
     (if x \<noteq> ''..'' then x # stack
      else case stack of
        [] \<Rightarrow> if rooted then [] else [x]
      | y # ys \<Rightarrow> if y = ''..'' then x # stack else ys)"

definition clean_segs :: "string \<Rightarrow> string list" where
  "clean_segs p = rev (foldl (clean_step (IsAbs p)) [] (raw_segs p))"

definition render :: "bool \<Rightarrow> string list \<Rightarrow> string" where
  "render rooted xs = (if rooted then [slash] else []) @ Join xs [slash]"

definition Clean :: "string \<Rightarrow> string" where
  "Clean p =
     (let out = render (IsAbs p) (clean_segs p) in if out = [] then ''.'' else out)"

definition path_join :: "string \<Rightarrow> string \<Rightarrow> string" where
  "path_join a b =
     (if a \<noteq> [] then Clean (a @ [slash] @ b) else if b \<noteq> [] then Clean b else [])"

definition Base :: "string \<Rightarrow> string" where
  "Base p =
     (if p = [] then ''.''
      else let q = rev (dropWhile (\<lambda>c. c = slash) (rev p)) in
        if q = [] then [slash] else last (Split slash q))"

section \<open>Segments without a separator\<close>

definition good_seg :: "string \<Rightarrow> bool" where
  "good_seg x \<longleftrightarrow> slash \<notin> set x \<and> x \<noteq> []"

lemma Split_no_sep: "c \<notin> set s \<Longrightarrow> Split c s = [s]"
  by (induction s) auto

lemma Split_append_sep: "Split c (s @ c # t) = Split c s @ Split c t"
proof (induction s)
  case (Cons x s)
  then show ?case
    by (cases "Split c s") (auto split: list.splits)
qed simp

lemma Split_mem: "x \<in> set (Split c s) \<Longrightarrow> c \<notin> set x"
proof (induction s arbitrary: x)
  case (Cons y s)
  then show ?case
    by (cases "Split c s") (auto split: if_splits)
qed simp

lemma Split_Join: "xs \<noteq> [] \<Longrightarrow> \<forall>x\<in>set xs. c \<notin> set x \<Longrightarrow> Split c (Join xs [c]) = xs"
proof (induction xs "[c]" rule: Join.induct)
  case (3 x y xs)
  then have "Split c (x @ c # Join (y # xs) [c]) = x # y # xs"
    by (simp add: Split_append_sep Split_no_sep)
  then show ?case by simp
qed (auto simp: Split_no_sep)

lemma Join_append:
  "xs \<noteq> [] \<Longrightarrow> ys \<noteq> [] \<Longrightarrow> Join (xs @ ys) [c] = Join xs [c] @ c # Join ys [c]"
proof (induction xs "[c]" rule: Join.induct)
  case (2 x)
  then show ?case by (cases ys) auto
qed auto

lemma render_Split:
  assumes "xs \<noteq> []" "\<forall>x\<in>set xs. good_seg x"
  shows "Split slash (render True xs) = [] # xs"
  using assms Split_Join[of xs slash] by (simp add: render_def good_seg_def)

text \<open>A directory other than the root contains a path textually iff its segments are a prefix.\<close>

lemma render_prefix_iff:
  assumes ys: "ys \<noteq> []" "\<forall>y\<in>set ys. good_seg y" and xs: "\<forall>x\<in>set xs. good_seg x"
  shows "(render True xs = render True ys \<or> prefix (render True ys @ [slash]) (render True xs))
         \<longleftrightarrow> prefix ys xs" (is "?L \<longleftrightarrow> ?R")
proof
  assume ?L
  have xs0: "xs \<noteq> []"
  proof
    assume "xs = []"
    with \<open>?L\<close> have "length (Join ys [slash]) = 0"
      by (auto simp: render_def prefix_def)
    moreover have "Join ys [slash] \<noteq> []"
      using ys by (cases ys; cases "tl ys") (auto simp: good_seg_def)
    ultimately show False by simp
  qed
  from \<open>?L\<close> show ?R
  proof
    assume "render True xs = render True ys"
    then have "[] # xs = [] # ys"
      using render_Split[OF xs0 xs] render_Split[OF ys] by metis
    then show ?thesis by simp
  next
    assume "prefix (render True ys @ [slash]) (render True xs)"
    then obtain r where "render True xs = render True ys @ slash # r"
      by (auto simp: prefix_def)
    then have "[] # xs = ([] # ys) @ Split slash r"
      using render_Split[OF xs0 xs] render_Split[OF ys] Split_append_sep by metis
    then show ?thesis by simp
  qed
next
  assume ?R
  then obtain zs where zs: "xs = ys @ zs" by (auto simp: prefix_def)
  show ?L
  proof (cases "zs = []")
    case False
    with zs ys(1) have "render True xs = render True ys @ slash # Join zs [slash]"
      by (simp add: render_def Join_append)
    then show ?thesis by (simp add: prefix_def)
  qed (simp add: zs)
qed

section \<open>Cleaned paths\<close>

lemma raw_segs_good: "x \<in> set (raw_segs p) \<Longrightarrow> good_seg x \<and> x \<noteq> ''.''"
  by (auto simp: raw_segs_def good_seg_def dest: Split_mem)

definition clean_stack :: "bool \<Rightarrow> string list \<Rightarrow> bool" where
  "clean_stack rooted st \<longleftrightarrow>
     (\<forall>x\<in>set st. good_seg x \<and> x \<noteq> ''.'') \<and> (rooted \<longrightarrow> ''..'' \<notin> set st)"

lemma clean_step_stack:
  assumes "clean_stack rooted st" "good_seg x" "x \<noteq> ''.''"
  shows "clean_stack rooted (clean_step rooted st x)"
proof (cases st)
  case Nil
  with assms show ?thesis by (auto simp: clean_stack_def clean_step_def)
next
  case (Cons y ys)
  with assms show ?thesis by (auto simp: clean_stack_def clean_step_def)
qed

lemma foldl_clean_stack:
  "clean_stack rooted st \<Longrightarrow> \<forall>x\<in>set xs. good_seg x \<and> x \<noteq> ''.'' \<Longrightarrow>
     clean_stack rooted (foldl (clean_step rooted) st xs)"
  by (induction xs arbitrary: st) (auto intro: clean_step_stack)

lemma clean_segs_stack: "clean_stack (IsAbs p) (rev (clean_segs p))"
  unfolding clean_segs_def rev_rev_ident
  by (rule foldl_clean_stack) (auto simp: clean_stack_def dest: raw_segs_good)

lemma clean_segs_good: "x \<in> set (clean_segs p) \<Longrightarrow> good_seg x \<and> x \<noteq> ''.''"
  using clean_segs_stack[of p] by (auto simp: clean_stack_def)

lemma clean_segs_no_dotdot: "IsAbs p \<Longrightarrow> ''..'' \<notin> set (clean_segs p)"
  using clean_segs_stack[of p] by (auto simp: clean_stack_def)

lemma Clean_abs: "IsAbs p \<Longrightarrow> Clean p = render True (clean_segs p)"
  by (simp add: Clean_def render_def)

lemma IsAbs_render [simp]: "IsAbs (render True xs)"
  by (simp add: IsAbs_def render_def)

lemma IsAbs_Clean [simp]: "IsAbs p \<Longrightarrow> IsAbs (Clean p)"
  by (simp add: Clean_abs)

lemma foldl_clean_step_plain:
  "''..'' \<notin> set xs \<Longrightarrow> foldl (clean_step r) st xs = rev xs @ st"
  by (induction xs arbitrary: st) (auto simp: clean_step_def)

lemma clean_segs_render:
  assumes "\<forall>x\<in>set xs. good_seg x \<and> x \<noteq> ''.''" "''..'' \<notin> set xs"
  shows "clean_segs (render True xs) = xs"
proof (cases "xs = []")
  case True
  then show ?thesis by (simp add: clean_segs_def raw_segs_def render_def)
next
  case False
  with assms(1) have "Split slash (render True xs) = [] # xs"
    by (intro render_Split) auto
  with assms(1) have "raw_segs (render True xs) = xs"
    by (simp add: raw_segs_def good_seg_def filter_id_conv)
  with assms(2) show ?thesis
    by (simp add: clean_segs_def foldl_clean_step_plain)
qed

lemma clean_segs_Clean: "IsAbs p \<Longrightarrow> clean_segs (Clean p) = clean_segs p"
  by (simp add: Clean_abs clean_segs_render clean_segs_good clean_segs_no_dotdot)

lemma Clean_idem_abs: "IsAbs p \<Longrightarrow> Clean (Clean p) = Clean p"
  by (simp add: Clean_abs clean_segs_render clean_segs_good clean_segs_no_dotdot)

end
