(* ===== verification/Tool_Safety.thy ===== *)
theory Tool_Safety
  imports Paths Json
begin

text \<open>
  Safety levels of tool calls (\<open>core/tools/interface.go\<close>) and the path scopes shared by the
  file tools (\<open>core/tools/scope.go\<close>): which arguments name paths, whether they resolve under the
  working directory or the safe directories, and which paths are sensitive.
\<close>

section \<open>Levels\<close>

type_synonym SafetyLevel = int

abbreviation (input) LevelSafe :: SafetyLevel where "LevelSafe \<equiv> 0"
abbreviation (input) LevelLow :: SafetyLevel where "LevelLow \<equiv> 1"
abbreviation (input) LevelMedium :: SafetyLevel where "LevelMedium \<equiv> 2"
abbreviation (input) LevelHigh :: SafetyLevel where "LevelHigh \<equiv> 3"
abbreviation (input) LevelBlocked :: SafetyLevel where "LevelBlocked \<equiv> 4"

definition level_String :: "SafetyLevel \<Rightarrow> string" where
  "level_String l =
     (if l = LevelSafe then ''safe'' else if l = LevelLow then ''low''
      else if l = LevelMedium then ''medium'' else if l = LevelHigh then ''high''
      else if l = LevelBlocked then ''blocked'' else ''unknown'')"

definition ParseSafetyLevel :: "string \<Rightarrow> SafetyLevel" where
  "ParseSafetyLevel s =
     (if s = ''safe'' then LevelSafe else if s = ''low'' then LevelLow
      else if s = ''medium'' \<or> s = '''' then LevelMedium
      else if s = ''high'' then LevelHigh
      else if s = ''off'' \<or> s = ''none'' then LevelBlocked + 1
      else LevelMedium)"

record SafetyCall =
  sc_Arguments :: string
  sc_WorkDir :: string
  sc_SafeDirs :: "string list"

record SafetyDecision =
  sd_Level :: SafetyLevel
  sd_Reason :: string
  sd_RequiresSnapshot :: bool
  sd_RequiresApproval :: bool

definition decision_of :: "SafetyLevel \<Rightarrow> string \<Rightarrow> SafetyDecision" where
  "decision_of l r =
     \<lparr>sd_Level = l, sd_Reason = r, sd_RequiresSnapshot = False, sd_RequiresApproval = False\<rparr>"

lemma decision_of_sel [simp]:
  "sd_Level (decision_of l r) = l" "sd_Reason (decision_of l r) = r"
  "sd_RequiresSnapshot (decision_of l r) = False" "sd_RequiresApproval (decision_of l r) = False"
  by (simp_all add: decision_of_def)

lemma ParseSafetyLevel_String:
  "l \<in> {LevelSafe, LevelLow, LevelMedium, LevelHigh} \<Longrightarrow> ParseSafetyLevel (level_String l) = l"
  by (auto simp: ParseSafetyLevel_def level_String_def)

section \<open>Path arguments\<close>

definition path_value :: "(string \<rightharpoonup> json) \<Rightarrow> string \<Rightarrow> string list" where
  "path_value args key =
     (case args key of Some (JStr s) \<Rightarrow> if s = [] then [] else [s] | _ \<Rightarrow> [])"

definition extractPaths :: "string \<Rightarrow> string list \<Rightarrow> string list" where
  "extractPaths argsJSON pathKeys =
     (case unmarshal_map argsJSON of
        None \<Rightarrow> []
      | Some args \<Rightarrow> concat (map (path_value args) pathKeys))"

definition StringArg :: "string \<Rightarrow> string \<Rightarrow> string" where
  "StringArg argsJSON key =
     (case unmarshal_map argsJSON of
        None \<Rightarrow> ''''
      | Some args \<Rightarrow> (case args key of Some (JStr s) \<Rightarrow> s | _ \<Rightarrow> ''''))"

definition resolve :: "string \<Rightarrow> string \<Rightarrow> string" where
  "resolve p workDir = Clean (if IsAbs p then p else path_join workDir p)"

definition hasPrefix :: "string \<Rightarrow> string \<Rightarrow> bool" where
  "hasPrefix abspath dir \<longleftrightarrow> abspath = dir \<or> HasPrefix abspath (dir @ [slash])"

definition IsInWorkDir :: "SafetyCall \<Rightarrow> string list \<Rightarrow> bool" where
  "IsInWorkDir call pathKeys =
     (let paths = extractPaths (sc_Arguments call) pathKeys;
          workDir = Clean (sc_WorkDir call)
      in paths = [] \<or> list_all (\<lambda>p. hasPrefix (resolve p workDir) workDir) paths)"

definition IsInSafeScope :: "SafetyCall \<Rightarrow> string list \<Rightarrow> bool" where
  "IsInSafeScope call pathKeys =
     (let paths = extractPaths (sc_Arguments call) pathKeys;
          dirs = (if sc_SafeDirs call = [] then [sc_WorkDir call] else sc_SafeDirs call);
          cleaned = map Clean dirs;
          workDir = Clean (sc_WorkDir call)
      in paths = [] \<or>
         list_all (\<lambda>p. list_ex (\<lambda>d. hasPrefix (resolve p workDir) d) cleaned) paths)"

text \<open>
  \<open>strings.ToLower\<close>, exact on every character whose lower case is ASCII; the remaining characters
  keep their bytes, which no comparison below can observe.
\<close>

fun ToLower :: "string \<Rightarrow> string" where
  "ToLower [] = []"
| "ToLower (c # s) =
     (if c = CHR 0xE2 \<and> prefix [CHR 0x84, CHR 0xAA] s then CHR ''k'' # ToLower (drop 2 s)
      else if c = CHR 0xC4 \<and> prefix [CHR 0xB0] s then CHR ''i'' # ToLower (drop 1 s)
      else (if 0x41 \<le> byte c \<and> byte c \<le> 0x5A then char_of (byte c + 32) else c) # ToLower s)"

definition sensitive_bases :: "string list" where
  "sensitive_bases =
     [''.bashrc'', ''.bash_profile'', ''.bash_login'', ''.bash_logout'',
      ''.zshrc'', ''.zshenv'', ''.zprofile'', ''.zlogin'', ''.zlogout'',
      ''.profile'', ''.cshrc'', ''.tcshrc'', ''.fish'',
      ''.gitconfig'', ''.gitignore_global'',
      ''.netrc'', ''.pgpass'', ''.my.cnf'',
      ''.npmrc'', ''.pypirc'',
      ''.env'', ''.env.local'', ''.env.production'', ''.env.development'',
      ''credentials'', ''credentials.json'',
      ''id_rsa'', ''id_dsa'', ''id_ecdsa'', ''id_ed25519'']"

definition sensitive_segments :: "string list" where
  "sensitive_segments =
     [''.git'', ''.svn'', ''.hg'', ''.ssh'', ''.gnupg'', ''.aws'', ''.kube'', ''.docker'']"

definition isSensitive :: "string \<Rightarrow> bool" where
  "isSensitive path =
     (let norm = ToLower path in
      Base norm \<in> set sensitive_bases \<or>
      list_ex (\<lambda>seg. seg \<in> set sensitive_segments) (Split slash norm))"

definition IsSensitivePath :: "SafetyCall \<Rightarrow> string list \<Rightarrow> bool" where
  "IsSensitivePath call pathKeys = list_ex isSensitive (extractPaths (sc_Arguments call) pathKeys)"

definition ReadOnlyScope :: "string list \<Rightarrow> SafetyCall \<Rightarrow> SafetyDecision" where
  "ReadOnlyScope pathKeys call =
     (if IsInSafeScope call pathKeys \<and> \<not> IsSensitivePath call pathKeys
      then decision_of LevelSafe ''read in safe scope''
      else decision_of LevelMedium ''read outside safe scope or on sensitive path'')"

definition MutatorScope :: "string list \<Rightarrow> SafetyCall \<Rightarrow> SafetyDecision" where
  "MutatorScope pathKeys call =
     (let (level, reason) =
        (if \<not> IsInWorkDir call pathKeys
         then (LevelMedium, ''mutation targets path outside working directory'')
         else if IsSensitivePath call pathKeys
         then (LevelMedium, ''mutation targets sensitive path'')
         else (LevelLow, ''mutation in working directory''))
      in (decision_of level reason)\<lparr>sd_RequiresSnapshot := True\<rparr>)"

section \<open>Containment\<close>

lemma resolve_IsAbs: "IsAbs w \<Longrightarrow> IsAbs (resolve p w)"
proof -
  assume w: "IsAbs w"
  then have "w \<noteq> []" and "IsAbs (w @ [slash] @ p)" by (auto simp: IsAbs_def)
  with w show ?thesis by (simp add: resolve_def path_join_def)
qed

lemma resolve_render: "IsAbs w \<Longrightarrow> resolve p w = render True (clean_segs (resolve p w))"
proof -
  assume w: "IsAbs w"
  define q where "q = (if IsAbs p then p else path_join w p)"
  have "IsAbs q" using w by (auto simp: q_def path_join_def IsAbs_def intro!: IsAbs_Clean[unfolded IsAbs_def])
  then have "resolve p w = render True (clean_segs q)"
    by (simp add: resolve_def q_def Clean_abs)
  moreover have "clean_segs (resolve p w) = clean_segs q"
    using \<open>IsAbs q\<close> by (simp add: resolve_def q_def[symmetric] clean_segs_Clean)
  ultimately show ?thesis by simp
qed

text \<open>
  The directory a path is contained in: its segments are a prefix of the path's, and the path has
  no dot-dot segment left through which it could leave the directory.
\<close>

definition inside :: "string \<Rightarrow> string \<Rightarrow> bool" where
  "inside dir path \<longleftrightarrow>
     prefix (clean_segs dir) (clean_segs path) \<and> ''..'' \<notin> set (clean_segs path)"

lemma hasPrefix_resolve_iff:
  assumes w: "IsAbs w" and d: "IsAbs d" "clean_segs d \<noteq> []"
  shows "hasPrefix (resolve p w) (Clean d) \<longleftrightarrow> inside d (resolve p w)"
proof -
  have "hasPrefix (resolve p w) (Clean d) \<longleftrightarrow>
      (render True (clean_segs (resolve p w)) = render True (clean_segs d) \<or>
       prefix (render True (clean_segs d) @ [slash]) (render True (clean_segs (resolve p w))))"
    using resolve_render[OF w, of p] Clean_abs[OF d(1)] by (simp add: hasPrefix_def HasPrefix_def)
  also have "\<dots> \<longleftrightarrow> prefix (clean_segs d) (clean_segs (resolve p w))"
    using d(2) by (intro render_prefix_iff) (auto dest: clean_segs_good)
  finally show ?thesis
    using clean_segs_no_dotdot[OF resolve_IsAbs[OF w, of p]] by (simp add: inside_def)
qed

lemma extractPaths_nonempty: "p \<in> set (extractPaths a ks) \<Longrightarrow> p \<noteq> []"
  by (auto simp: extractPaths_def path_value_def split: option.splits json.splits if_splits)

lemma raw_segs_append_slash: "raw_segs (a @ slash # b) = raw_segs a @ raw_segs b"
  by (simp add: raw_segs_def Split_append_sep)

lemma IsAbs_append: "IsAbs a \<Longrightarrow> IsAbs (a @ b)"
  by (auto simp: IsAbs_def prefix_def)

lemma clean_segs_append_slash:
  "IsAbs a \<Longrightarrow> clean_segs (a @ slash # b) =
     rev (foldl (clean_step True) (rev (clean_segs a)) (raw_segs b))"
  by (simp add: clean_segs_def raw_segs_append_slash IsAbs_append)

lemma Clean_path_join_Clean: "IsAbs w \<Longrightarrow> path_join (Clean w) p = path_join w p"
proof -
  assume w: "IsAbs w"
  then have "w \<noteq> []" "Clean w \<noteq> []"
    using IsAbs_Clean[OF w] by (auto simp: IsAbs_def)
  with w show ?thesis
    by (simp add: path_join_def Clean_abs IsAbs_append clean_segs_append_slash
        clean_segs_Clean[OF w, unfolded Clean_abs[OF w]])
qed

text \<open>
  Under an absolute working directory other than the root, \<open>IsInWorkDir\<close> holds exactly when
  every path argument, resolved the way the executor resolves it, lies inside that directory: the
  directory's segments are a prefix of the path's and no dot-dot segment is left.
\<close>

theorem IsInWorkDir_confined:
  assumes "IsAbs (sc_WorkDir call)" and "clean_segs (sc_WorkDir call) \<noteq> []"
  shows "IsInWorkDir call keys \<longleftrightarrow>
     (\<forall>p\<in>set (extractPaths (sc_Arguments call) keys).
        inside (sc_WorkDir call) (Clean (if IsAbs p then p else path_join (sc_WorkDir call) p)))"
proof -
  have "hasPrefix (resolve p (Clean (sc_WorkDir call))) (Clean (sc_WorkDir call)) \<longleftrightarrow>
      inside (sc_WorkDir call) (Clean (if IsAbs p then p else path_join (sc_WorkDir call) p))" for p
    using hasPrefix_resolve_iff[OF IsAbs_Clean[OF assms(1)] assms, of p]
      Clean_path_join_Clean[OF assms(1), of p]
    by (simp add: resolve_def)
  then show ?thesis
    by (auto simp: IsInWorkDir_def Let_def list_all_iff)
qed

definition confined_call :: SafetyCall where
  "confined_call = \<lparr>sc_Arguments = [CHR 0x7B, CHR 0x22] @ ''path'' @ [CHR 0x22, CHR 0x3A, CHR 0x22]
     @ ''../x'' @ [CHR 0x22, CHR 0x7D], sc_WorkDir = ''/w'', sc_SafeDirs = []\<rparr>"

theorem IsInWorkDir_confined_witness:
  "IsAbs (sc_WorkDir confined_call) \<and> clean_segs (sc_WorkDir confined_call) \<noteq> [] \<and>
   \<not> IsInWorkDir confined_call [''path'']"
proof -
  have "IsAbs (sc_WorkDir confined_call)" "clean_segs (sc_WorkDir confined_call) \<noteq> []"
    by code_simp+
  moreover have "\<exists>p\<in>set (extractPaths (sc_Arguments confined_call) [''path'']).
      \<not> inside (sc_WorkDir confined_call)
        (Clean (if IsAbs p then p else path_join (sc_WorkDir confined_call) p))"
    by code_simp
  ultimately show ?thesis
    using IsInWorkDir_confined[of confined_call "[''path'']"] by blast
qed

end
