(* ===== verification/File_Tools.thy ===== *)
theory File_Tools
  imports Tool_Safety
begin

text \<open>
  The file tools of \<open>core/tools/builtin\<close>: \<open>read_file\<close> and \<open>write_file\<close> (\<open>filesystem.go\<close>) and
  \<open>edit\<close> (\<open>edit.go\<close>), over the local executor (\<open>core/executor/local.go\<close>).

  The file system is a map from cleaned absolute paths to contents, with the error text of a
  failed read and the failures of a write as parts of its state; symbolic links are not
  represented.  A tool returns the next file system and either its error text or its output.
  Text that \<open>encoding/json\<close> and the operating system put into error messages after the tool's own
  prefix is an argument or a part of the state.
\<close>

section \<open>The executor\<close>

record filesystem =
  fs_workDir :: string
  fs_files :: "string \<rightharpoonup> string"
  fs_read_error :: "string \<Rightarrow> string"
  fs_write_error :: "string \<Rightarrow> string option"

definition resolvePath :: "filesystem \<Rightarrow> string \<Rightarrow> string" where
  "resolvePath fs path = (if IsAbs path then path else path_join (fs_workDir fs) path)"

definition ReadFile :: "filesystem \<Rightarrow> string \<Rightarrow> string + string" where
  "ReadFile fs path =
     (let p = Clean (resolvePath fs path) in
      case fs_files fs p of None \<Rightarrow> Inl (fs_read_error fs p) | Some c \<Rightarrow> Inr c)"

definition WriteFile :: "filesystem \<Rightarrow> string \<Rightarrow> string \<Rightarrow> filesystem \<times> string option" where
  "WriteFile fs path content =
     (let p = Clean (resolvePath fs path) in
      case fs_write_error fs p of
        Some e \<Rightarrow> (fs, Some e)
      | None \<Rightarrow> (fs\<lparr>fs_files := (fs_files fs)(p \<mapsto> content)\<rparr>, None))"

section \<open>read_file\<close>

definition defaultReadLimit :: int where
  "defaultReadLimit = 2000"

record read_args =
  ra_Path :: string
  ra_Offset :: int
  ra_Limit :: int
  ra_ByteOffset :: "int option"

definition decode_read_args :: "string \<Rightarrow> read_args option" where
  "decode_read_args argsJSON =
     (case unmarshal_object argsJSON of
        None \<Rightarrow> None
      | Some ps \<Rightarrow>
          (case (store_string_field ''path'' ps '''', store_int_field ''offset'' ps 0,
                 store_int_field ''limit'' ps 0, store_int_ptr ''byte_offset'' ps None) of
             (Some p, Some off, Some l, Some b) \<Rightarrow>
               Some \<lparr>ra_Path = p, ra_Offset = off, ra_Limit = l, ra_ByteOffset = b\<rparr>
           | _ \<Rightarrow> None))"

text \<open>Move forwards to the start of a rune.\<close>

fun rune_forward :: "string \<Rightarrow> nat" where
  "rune_forward [] = 0"
| "rune_forward (c # s) = (if RuneStart c then 0 else Suc (rune_forward s))"

definition byte_window :: "string \<Rightarrow> nat \<Rightarrow> nat \<times> nat" where
  "byte_window content offset =
     (let start0 = min offset (length content);
          start = start0 + rune_forward (drop start0 content);
          end0 = start + min 4096 (length content - start)
      in (start, rune_back content start end0))"

definition sliceFileBytes :: "string \<Rightarrow> nat \<Rightarrow> string" where
  "sliceFileBytes content offset =
     (let (start, stop) = byte_window content offset;
          status = (if stop < length content
            then ''Continue with read_file byte_offset='' @ show_int (int stop) @
                 '' (next_byte_offset='' @ show_int (int stop) @ '').''
            else ''End of file.'')
      in ''<system-reminder>Bytes '' @ show_int (int start) @ ''-'' @ show_int (int stop) @
         '' of '' @ show_int (int (length content)) @ '' (end exclusive). '' @ status @
         ''</system-reminder>'' @ [CHR 0x0A] @ take (stop - start) (drop start content))"

definition file_lines :: "string \<Rightarrow> string list" where
  "file_lines content =
     (let ls = Split (CHR 0x0A) content in if last ls = [] then butlast ls else ls)"

text \<open>The window of lines shown: \<open>None\<close> when the offset is past the end.\<close>

definition line_window :: "nat \<Rightarrow> int \<Rightarrow> int \<Rightarrow> (nat \<times> nat) option" where
  "line_window ntotal offset limit =
     (let start = (if offset - 1 < 0 then 0 else nat (offset - 1)) in
      if ntotal \<le> start then None
      else Some (start,
        if 0 < limit \<and> int start + limit < int ntotal then start + nat limit else ntotal))"

definition sliceLines :: "string \<Rightarrow> int \<Rightarrow> int \<Rightarrow> string" where
  "sliceLines content offset limit =
     (let lines = file_lines content; ntotal = length lines in
      case line_window ntotal offset limit of
        None \<Rightarrow>
          ''<system-reminder>File has '' @ show_int (int ntotal) @ '' lines; offset '' @
          show_int offset @ '' is past the end.</system-reminder>''
      | Some (start, stop) \<Rightarrow>
          (let notes =
             (if 0 < start
              then [''Skipped '' @ show_int (int start) @ '' lines before offset '' @
                    show_int offset @ ''.''] else []) @
             (if stop < ntotal
              then [''File has more lines: showing '' @ show_int (int start + 1) @ ''-'' @
                    show_int (int stop) @ '' of '' @ show_int (int ntotal) @
                    ''. Call read_file again with offset='' @ show_int (int stop + 1) @
                    '' to continue.''] else []);
             body = Join (take (stop - start) (drop start lines)) [CHR 0x0A]
           in if notes = [] then body
              else body @ [CHR 0x0A, CHR 0x0A] @ ''<system-reminder>'' @ Join notes '' '' @
                   ''</system-reminder>''))"

definition read_file_Classify :: "SafetyCall \<Rightarrow> SafetyDecision" where
  "read_file_Classify = ReadOnlyScope [''path'']"

definition read_file_Execute :: "filesystem \<Rightarrow> string \<Rightarrow> string \<Rightarrow> string + string" where
  "read_file_Execute fs json_error argsJSON =
     (case decode_read_args argsJSON of
        None \<Rightarrow> Inl (''invalid arguments: '' @ json_error)
      | Some args \<Rightarrow>
          (case ra_ByteOffset args of
             Some b \<Rightarrow>
               if b < 0 \<or> ra_Offset args \<noteq> 0 \<or> ra_Limit args \<noteq> 0
               then Inl ''byte_offset must be nonnegative and cannot be combined with offset/limit''
               else (case ReadFile fs (ra_Path args) of
                       Inl e \<Rightarrow> Inl (''failed to read file: '' @ e)
                     | Inr content \<Rightarrow> Inr (sliceFileBytes content (nat b)))
           | None \<Rightarrow>
               (case ReadFile fs (ra_Path args) of
                  Inl e \<Rightarrow> Inl (''failed to read file: '' @ e)
                | Inr content \<Rightarrow>
                    Inr (sliceLines content (ra_Offset args)
                           (if ra_Limit args \<le> 0 then defaultReadLimit else ra_Limit args)))))"

section \<open>write_file\<close>

definition write_file_Classify :: "SafetyCall \<Rightarrow> SafetyDecision" where
  "write_file_Classify = MutatorScope [''path'']"

definition decode_write_args :: "string \<Rightarrow> (string \<times> string) option" where
  "decode_write_args argsJSON =
     (case unmarshal_object argsJSON of
        None \<Rightarrow> None
      | Some ps \<Rightarrow>
          (case (store_string_field ''path'' ps '''', store_string_field ''content'' ps '''') of
             (Some p, Some c) \<Rightarrow> Some (p, c)
           | _ \<Rightarrow> None))"

definition write_file_Execute :: "filesystem \<Rightarrow> string \<Rightarrow> string \<Rightarrow> filesystem \<times> (string + string)" where
  "write_file_Execute fs json_error argsJSON =
     (case decode_write_args argsJSON of
        None \<Rightarrow> (fs, Inl (''invalid arguments: '' @ json_error))
      | Some (path, content) \<Rightarrow>
          if path = '''' then (fs, Inl ''path is required'')
          else (case WriteFile fs path content of
                  (fs', Some e) \<Rightarrow> (fs', Inl (''failed to write file: '' @ e))
                | (fs', None) \<Rightarrow> (fs', Inr (''Successfully wrote to '' @ path))))"

section \<open>edit\<close>

record edit_args =
  ea_Path :: string
  ea_OldString :: string
  ea_NewString :: string
  ea_ReplaceAll :: bool

definition decode_edit_args :: "string \<Rightarrow> edit_args option" where
  "decode_edit_args argsJSON =
     (case unmarshal_object argsJSON of
        None \<Rightarrow> None
      | Some ps \<Rightarrow>
          (case (store_string_field ''path'' ps '''', store_string_field ''old_string'' ps '''',
                 store_string_field ''new_string'' ps '''',
                 store_bool_field ''replace_all'' ps False) of
             (Some p, Some x, Some y, Some b) \<Rightarrow>
               Some \<lparr>ea_Path = p, ea_OldString = x, ea_NewString = y, ea_ReplaceAll = b\<rparr>
           | _ \<Rightarrow> None))"

definition edit_Classify :: "SafetyCall \<Rightarrow> SafetyDecision" where
  "edit_Classify = MutatorScope [''path'']"

definition truncate :: "string \<Rightarrow> nat \<Rightarrow> string" where
  "truncate s n = (if length s \<le> n then s else take n s @ ''...'')"

definition edit_Execute :: "filesystem \<Rightarrow> string \<Rightarrow> string \<Rightarrow> filesystem \<times> (string + string)" where
  "edit_Execute fs json_error argsJSON =
     (case decode_edit_args argsJSON of
        None \<Rightarrow> (fs, Inl (''invalid arguments: '' @ json_error))
      | Some args \<Rightarrow>
          if ea_Path args = '''' then (fs, Inl ''path is required'')
          else if ea_OldString args = '''' then (fs, Inl ''old_string is required'')
          else if ea_OldString args = ea_NewString args
          then (fs, Inl ''old_string and new_string are identical - no change needed'')
          else case ReadFile fs (ea_Path args) of
            Inl e \<Rightarrow> (fs, Inl (''failed to read file: '' @ e))
          | Inr original \<Rightarrow>
              (let count = Count original (ea_OldString args) in
               if count = 0 then
                 (fs, Inl (''old_string not found in file. Make sure you're matching the exact '' @
                           ''content including whitespace and indentation. First 100 chars of file: '' @
                           truncate original 100))
               else if \<not> ea_ReplaceAll args \<and> 1 < count then
                 (fs, Inl (''old_string appears '' @ show_int (int count) @
                           '' times in the file. Either provide more context to make it unique, '' @
                           ''or set replace_all=true to replace all occurrences''))
               else
                 (let new = (if ea_ReplaceAll args
                             then ReplaceAll original (ea_OldString args) (ea_NewString args)
                             else Replace1 original (ea_OldString args) (ea_NewString args))
                  in case WriteFile fs (ea_Path args) new of
                       (fs', Some e) \<Rightarrow> (fs', Inl (''failed to write file: '' @ e))
                     | (fs', None) \<Rightarrow>
                         (fs', Inr (if ea_ReplaceAll args \<and> 1 < count
                            then ''Successfully replaced '' @ show_int (int count) @
                                 '' occurrences in '' @ ea_Path args
                            else ''Successfully edited '' @ ea_Path args)))))"

section \<open>Scope of a safe read\<close>

lemma fold_key_path: "fold_key ''path'' = ''path''"
  by code_simp

text \<open>
  When the only key that a struct field \<open>path\<close> can match is \<open>path\<close> itself, occurring at most
  once, the value the tool decodes is the value the classifier looked at.
\<close>

lemma store_string_field_unmatched:
  "\<forall>kv\<in>set ps. fold_key (fst kv) \<noteq> fold_key name \<Longrightarrow> store_string_field name ps cur = Some cur"
  by (induction ps arbitrary: cur) auto

lemma store_string_field_unique:
  assumes "distinct (map fst ps)" and "\<forall>kv\<in>set ps. fold_key (fst kv) = fold_key name \<longrightarrow> fst kv = name"
    and "store_string_field name ps cur = Some s" and "s \<noteq> cur"
  shows "map_of ps name = Some (JStr s)"
  using assms
proof (induction ps)
  case (Cons kv ps)
  obtain k v where kv: "kv = (k, v)" by fastforce
  show ?case
  proof (cases "k = name")
    case True
    with Cons.prems kv have "\<forall>x\<in>set ps. fold_key (fst x) \<noteq> fold_key name" by (force simp: image_iff)
    with True kv Cons.prems show ?thesis
      by (auto simp: store_string_field_unmatched split: json.splits)
  next
    case False
    with Cons.prems kv have "fold_key k \<noteq> fold_key name" by auto
    with False kv Cons show ?thesis by auto
  qed
qed simp

definition plain_path_args :: "string \<Rightarrow> bool" where
  "plain_path_args a \<longleftrightarrow>
     (case unmarshal_object a of
        None \<Rightarrow> False
      | Some ps \<Rightarrow> distinct (map fst ps) \<and> numbers_ok (JObj ps) \<and>
          list_all (\<lambda>kv. fold_key (fst kv) = ''path'' \<longrightarrow> fst kv = ''path'') ps)"

lemma plain_path_extract:
  assumes "plain_path_args a" and ps: "unmarshal_object a = Some ps"
    "store_string_field ''path'' ps '''' = Some path" and ne: "path \<noteq> ''''"
  shows "extractPaths a [''path''] = [path]"
proof -
  from assms(1) ps have d: "distinct (map fst ps)" "numbers_ok (JObj ps)"
      and k: "\<forall>kv\<in>set ps. fold_key (fst kv) = fold_key ''path'' \<longrightarrow> fst kv = ''path''"
    unfolding fold_key_path plain_path_args_def by (simp_all add: list_all_iff del: fold_key.simps)
  have mp: "map_of ps ''path'' = Some (JStr path)"
    by (rule store_string_field_unique[OF d(1) k ps(2) ne])
  then have m: "map_of (rev ps) ''path'' = Some (JStr path)"
    using d(1) by (metis distinct_rev map_of_eq_Some_iff rev_map set_rev)
  have "ps \<noteq> []" using mp by auto
  with ps(1) have "json_parse a = Some (JObj ps)"
    by (auto simp: unmarshal_object_def split: option.splits json.splits)
  with d(2) have "unmarshal_map a = Some (map_of (rev ps))"
    by (simp add: unmarshal_map_def)
  with m ne show ?thesis
    by (simp add: extractPaths_def path_value_def)
qed

lemma resolve_resolvePath:
  "IsAbs (fs_workDir fs) \<Longrightarrow> resolve p (Clean (fs_workDir fs)) = Clean (resolvePath fs p)"
  by (simp add: resolve_def resolvePath_def Clean_path_join_Clean)

lemma resolvePath_empty:
  "IsAbs (fs_workDir fs) \<Longrightarrow> Clean (resolvePath fs '''') = Clean (fs_workDir fs)"
proof -
  assume w: "IsAbs (fs_workDir fs)"
  then have "fs_workDir fs \<noteq> []" by (auto simp: IsAbs_def)
  moreover have "\<not> IsAbs ''''" by (simp add: IsAbs_def)
  moreover have "clean_segs (fs_workDir fs @ [slash]) = clean_segs (fs_workDir fs)"
    using clean_segs_append_slash[OF w, of "[]"] by (simp add: raw_segs_def)
  ultimately show ?thesis
    using w by (simp add: resolvePath_def path_join_def Clean_abs IsAbs_append
        clean_segs_Clean[OF w, unfolded Clean_abs[OF w]] IsAbs_Clean[OF w, unfolded Clean_abs[OF w]])
qed

lemma read_safe_inside:
  assumes "IsAbs (sc_WorkDir call)" and "\<forall>d\<in>set (sc_SafeDirs call). IsAbs d \<and> clean_segs d \<noteq> []"
    and "sc_SafeDirs call \<noteq> []" and "fs_workDir fs = sc_WorkDir call"
    and "sd_Level (read_file_Classify call) = LevelSafe"
    and "extractPaths (sc_Arguments call) [''path''] = [path]"
  shows "\<exists>d\<in>set (sc_SafeDirs call). inside d (Clean (resolvePath fs path))"
proof -
  have "IsInSafeScope call [''path'']"
    using assms(5) by (auto simp: read_file_Classify_def ReadOnlyScope_def split: if_splits)
  then obtain d where "d \<in> set (sc_SafeDirs call)"
      "hasPrefix (resolve path (Clean (sc_WorkDir call))) (Clean d)"
    using assms(3,6) by (auto simp: IsInSafeScope_def list_ex_iff)
  with assms(1,2,4) show ?thesis
    using hasPrefix_resolve_iff[OF IsAbs_Clean[OF assms(1)], of d path]
    by (metis resolve_resolvePath)
qed

definition readable :: "SafetyCall \<Rightarrow> string \<Rightarrow> bool" where
  "readable call p \<longleftrightarrow> p = Clean (sc_WorkDir call) \<or> list_ex (\<lambda>d. inside d p) (sc_SafeDirs call)"

lemma read_file_confined:
  assumes "IsAbs (sc_WorkDir call)" and "list_all (\<lambda>d. IsAbs d \<and> clean_segs d \<noteq> []) (sc_SafeDirs call)"
    and "sc_SafeDirs call \<noteq> []"
    and "fs_workDir fs = sc_WorkDir call" and "fs_workDir fs' = sc_WorkDir call"
    and "\<forall>p. readable call p \<longrightarrow>
           fs_files fs p = fs_files fs' p \<and> fs_read_error fs p = fs_read_error fs' p"
    and "plain_path_args (sc_Arguments call)"
    and "sd_Level (read_file_Classify call) = LevelSafe"
  shows "read_file_Execute fs je (sc_Arguments call) = read_file_Execute fs' je (sc_Arguments call)"
proof (cases "decode_read_args (sc_Arguments call)")
  case (Some args)
  then obtain ps where ps: "unmarshal_object (sc_Arguments call) = Some ps"
      "store_string_field ''path'' ps '''' = Some (ra_Path args)"
    by (auto simp: decode_read_args_def split: option.splits)
  have "readable call (Clean (resolvePath fs (ra_Path args)))"
  proof (cases "ra_Path args = ''''")
    case True
    then show ?thesis
      using resolvePath_empty[of fs] assms(1,4) by (simp add: readable_def)
  next
    case False
    show ?thesis
      using read_safe_inside[OF assms(1) _ assms(3,4,8) plain_path_extract[OF assms(7) ps False]]
        assms(2) by (auto simp: readable_def list_ex_iff list_all_iff)
  qed
  moreover have "resolvePath fs' (ra_Path args) = resolvePath fs (ra_Path args)"
    using assms(4,5) by (simp add: resolvePath_def)
  ultimately have "ReadFile fs (ra_Path args) = ReadFile fs' (ra_Path args)"
    using assms(6) by (simp add: ReadFile_def Let_def split: option.split)
  with Some show ?thesis by (simp add: read_file_Execute_def split: option.split)
qed (simp add: read_file_Execute_def)


text \<open>A one-field JSON object with a string value.\<close>

definition json_pair :: "string \<Rightarrow> string \<Rightarrow> string" where
  "json_pair k v = [CHR 0x22] @ k @ [CHR 0x22, CHR 0x3A, CHR 0x22] @ v @ [CHR 0x22]"

definition read_call :: "string \<Rightarrow> SafetyCall" where
  "read_call a = \<lparr>sc_Arguments = a, sc_WorkDir = ''/w'', sc_SafeDirs = [''/w'', ''/skills'']\<rparr>"

definition two_files :: "string \<Rightarrow> filesystem" where
  "two_files secret = \<lparr>fs_workDir = ''/w'',
     fs_files = [''/w/a.txt'' \<mapsto> ''hello'', ''/etc/passwd'' \<mapsto> secret],
     fs_read_error = (\<lambda>p. ''no such file''), fs_write_error = (\<lambda>p. None)\<rparr>"

definition args_a :: string where
  "args_a = ''{'' @ json_pair ''path'' ''a.txt'' @ ''}''"

lemma inside_simps:
  "\<not> inside ''/w'' ''/etc/passwd''" "\<not> inside ''/skills'' ''/etc/passwd''"
  "''/etc/passwd'' \<noteq> Clean ''/w''"
  by code_simp+


definition bypass_args :: "string list" where
  "bypass_args =
     [''{'' @ json_pair ''Path'' ''/etc/passwd'' @ ''}'',
      ''{'' @ json_pair ''path'' ''/etc/passwd'' @ '','' @ [CHR 0x22] @ ''path'' @ [CHR 0x22] @ '':null}'',
      ''{'' @ json_pair ''path'' ''/etc/passwd'' @ '','' @ [CHR 0x22] @ ''x'' @ [CHR 0x22] @ '':1e999}'']"

lemma pow10_999: "\<not> 10 ^ 999 < (2::int) ^ 1024 - 2 ^ 970"
proof -
  have "(2::int) ^ 1024 \<le> 2 ^ (3 * 999)" by (rule power_increasing) simp_all
  also have "\<dots> = (2 ^ 3) ^ 999" by (rule power_mult)
  also have "\<dots> \<le> 10 ^ 999" by (rule power_mono) simp_all
  finally have "(2::int) ^ 1024 \<le> 10 ^ 999" .
  moreover have "x \<le> y \<Longrightarrow> 0 \<le> z \<Longrightarrow> \<not> y < x - z" for x y z :: int by linarith
  ultimately show ?thesis using zero_le_power[OF zero_le_numeral] by blast
qed

lemma float64_1e999: "\<not> float64_in_range ''1e999''"
proof -
  have p: "number_parts ''1e999'' = (False, ''1'', None, Some ''999'')"
    and v: "dec_val ''1'' = 1" "dec_val (exp_digits ''999'') = 999" "prefix ''-'' ''999'' = False"
      "((1::int) = 0) = False" "999 - int (length []) = 999" "nat 999 = 999" "((0::int) \<le> 999) = True"
    by (code_simp | simp)+
  show ?thesis
    by (simp only: float64_in_range_def p Let_def prod.case option.case append_Nil2 v if_False if_True
        mult_1 pow10_999 simp_thms)
qed

lemma no_paths_safe: "extractPaths a [''path''] = [] \<Longrightarrow> sd_Level (read_file_Classify (read_call a)) = LevelSafe"
  by (simp add: read_file_Classify_def ReadOnlyScope_def IsInSafeScope_def IsSensitivePath_def read_call_def)

lemma bypass_no_paths: "\<forall>a\<in>set bypass_args. extractPaths a [''path''] = []"
proof -
  have 1: "extractPaths (bypass_args ! 0) [''path''] = []"
    and 2: "extractPaths (bypass_args ! 1) [''path''] = []"
    by code_simp+
  have "json_parse (bypass_args ! 2) = Some (JObj [(''path'', JStr ''/etc/passwd''), (''x'', JNum ''1e999'')])"
    by code_simp
  then have "extractPaths (bypass_args ! 2) [''path''] = []"
    using float64_1e999 by (simp add: extractPaths_def unmarshal_map_def)
  with 1 2 show ?thesis by (simp add: bypass_args_def)
qed

text \<open>
  C37. Without that premise the classifier and the tool disagree: a differently cased key, a
  repeated key whose last value is \<open>null\<close>, and a number no \<open>float64\<close> holds each make
  \<open>read_file\<close> report the level of a safe read, and the tool then returns a file outside the safe
  directories.
\<close>

theorem read_file_scope_bypass:
  "list_all (\<lambda>a. sd_Level (read_file_Classify (read_call a)) = LevelSafe \<and>
       read_file_Execute (two_files ''root'') '''' a = Inr ''root'' \<and>
       \<not> readable (read_call a) ''/etc/passwd'') bypass_args"
proof -
  have "list_all (\<lambda>a. read_file_Execute (two_files ''root'') '''' a = Inr ''root'') bypass_args"
    by code_simp
  then show ?thesis
    using bypass_no_paths inside_simps
    by (auto simp: list_all_iff no_paths_safe) (simp_all add: readable_def read_call_def)
qed

section \<open>Mutating tools\<close>

lemma WriteFile_cases:
  "(\<exists>e. WriteFile fs path content = (fs, Some e)) \<or>
   WriteFile fs path content =
     (fs\<lparr>fs_files := (fs_files fs)(Clean (resolvePath fs path) \<mapsto> content)\<rparr>, None)"
  by (simp add: WriteFile_def Let_def split: option.split)

lemma write_case_error:
  "snd (case WriteFile fs path content of (fs', None) \<Rightarrow> (fs', Inr x) | (fs', Some e) \<Rightarrow> (fs', Inl (f e))) = Inl y
     \<Longrightarrow> fst (WriteFile fs path content) = fs"
  by (auto simp: WriteFile_def Let_def split: option.splits)

lemma WriteFile_frame:
  "p \<noteq> Clean (resolvePath fs path) \<Longrightarrow> fs_files (fst (WriteFile fs path content)) p = fs_files fs p"
  by (simp add: WriteFile_def Let_def split: option.split)

lemma fst_write_case:
  "fst (case r of (fs', None) \<Rightarrow> (fs', x) | (fs', Some e) \<Rightarrow> (fs', f e)) = fst r"
  by (simp split: prod.split option.split)

lemma write_file_Execute_fs:
  "fst (write_file_Execute fs je a) = fs \<or>
   (\<exists>path content ps. unmarshal_object a = Some ps \<and> store_string_field ''path'' ps '''' = Some path \<and>
      path \<noteq> '''' \<and> fst (write_file_Execute fs je a) = fst (WriteFile fs path content))"
  by (auto simp: write_file_Execute_def decode_write_args_def fst_write_case split: option.splits)

lemma edit_Execute_fs:
  "fst (edit_Execute fs je a) = fs \<or>
   (\<exists>path content ps. unmarshal_object a = Some ps \<and> store_string_field ''path'' ps '''' = Some path \<and>
      path \<noteq> '''' \<and> fst (edit_Execute fs je a) = fst (WriteFile fs path content))"
proof (cases "decode_edit_args a")
  case (Some args)
  then obtain ps where "unmarshal_object a = Some ps"
      "store_string_field ''path'' ps '''' = Some (ea_Path args)"
    by (auto simp: decode_edit_args_def split: option.splits)
  moreover have "fst (edit_Execute fs je a) = fs \<or> (ea_Path args \<noteq> '''' \<and>
      (\<exists>content. fst (edit_Execute fs je a) = fst (WriteFile fs (ea_Path args) content)))"
    using Some by (auto simp: edit_Execute_def Let_def fst_write_case split: sum.split)
  ultimately show ?thesis by blast
qed (simp add: edit_Execute_def)

lemma low_mutation_inside:
  assumes "IsAbs (sc_WorkDir call)" and "clean_segs (sc_WorkDir call) \<noteq> []"
    and "fs_workDir fs = sc_WorkDir call"
    and "sd_Level (MutatorScope [''path''] call) = LevelLow"
    and "extractPaths (sc_Arguments call) [''path''] = [path]"
  shows "inside (sc_WorkDir call) (Clean (resolvePath fs path))"
proof -
  have "IsInWorkDir call [''path'']"
    using assms(4) by (auto simp: MutatorScope_def Let_def split: if_splits)
  then have "hasPrefix (resolve path (Clean (sc_WorkDir call))) (Clean (sc_WorkDir call))"
    using assms(5) by (simp add: IsInWorkDir_def Let_def)
  with assms(1-3) show ?thesis
    using hasPrefix_resolve_iff[OF IsAbs_Clean[OF assms(1)] assms(1,2)] by (metis resolve_resolvePath)
qed


definition args_write :: string where
  "args_write = ''{'' @ json_pair ''path'' ''sub/../a.txt'' @ '','' @ json_pair ''content'' ''new'' @ ''}''"


lemma edit_Execute_success:
  assumes d: "decode_edit_args a = Some args" and s: "snd (edit_Execute fs je a) = Inr msg"
  obtains original where "ReadFile fs (ea_Path args) = Inr original"
    and "ea_OldString args \<noteq> ''''" and "0 < Count original (ea_OldString args)"
    and "\<not> ea_ReplaceAll args \<Longrightarrow> Count original (ea_OldString args) = 1"
    and "fst (edit_Execute fs je a) = fs\<lparr>fs_files := (fs_files fs)(Clean (resolvePath fs (ea_Path args)) \<mapsto>
           (if ea_ReplaceAll args then ReplaceAll original (ea_OldString args) (ea_NewString args)
            else Replace1 original (ea_OldString args) (ea_NewString args)))\<rparr>"
proof -
  obtain original where r: "ReadFile fs (ea_Path args) = Inr original"
    using s d by (cases "ReadFile fs (ea_Path args)") (auto simp: edit_Execute_def split: if_splits)
  let ?new = "if ea_ReplaceAll args then ReplaceAll original (ea_OldString args) (ea_NewString args)
              else Replace1 original (ea_OldString args) (ea_NewString args)"
  have w: "WriteFile fs (ea_Path args) ?new =
      (fs\<lparr>fs_files := (fs_files fs)(Clean (resolvePath fs (ea_Path args)) \<mapsto> ?new)\<rparr>, None)"
    using s d r WriteFile_cases[of fs "ea_Path args" ?new]
    by (auto simp: edit_Execute_def Let_def split: if_splits)
  show ?thesis
  proof (rule that[OF r])
    show "ea_OldString args \<noteq> ''''" using s d by (auto simp: edit_Execute_def split: if_splits)
    show "0 < Count original (ea_OldString args)"
      using s d r by (auto simp: edit_Execute_def Let_def split: if_splits)
    then show "Count original (ea_OldString args) = 1" if "\<not> ea_ReplaceAll args"
      using s d r that by (auto simp: edit_Execute_def Let_def split: if_splits)
    show "fst (edit_Execute fs je a) = fs\<lparr>fs_files := (fs_files fs)(Clean (resolvePath fs (ea_Path args)) \<mapsto> ?new)\<rparr>"
      using s d r w by (auto simp: edit_Execute_def Let_def split: if_splits)
  qed
qed

lemma edit_Execute_failure: "snd (edit_Execute fs je a) = Inl e \<Longrightarrow> fst (edit_Execute fs je a) = fs"
  by (cases "decode_edit_args a"; cases "ReadFile fs (ea_Path (the (decode_edit_args a)))")
    (auto simp: edit_Execute_def Let_def fst_write_case dest: write_case_error split: if_splits)

text \<open>
  An \<open>edit\<close> that reports an error leaves every file as it was.  One that succeeds without
  \<open>replace_all\<close> found the old string exactly once, and rewrote the file at that place and nowhere
  else, touching no other file.
\<close>

theorem edit_Execute_exact:
  assumes "decode_edit_args a = Some args"
  shows "case snd (edit_Execute fs je a) of
      Inl e \<Rightarrow> fst (edit_Execute fs je a) = fs
    | Inr msg \<Rightarrow> ea_ReplaceAll args \<or>
        (\<exists>pre post. ReadFile fs (ea_Path args) = Inr (pre @ ea_OldString args @ post) \<and>
           Count (pre @ ea_OldString args @ post) (ea_OldString args) = 1 \<and>
           fst (edit_Execute fs je a) = fs\<lparr>fs_files := (fs_files fs)
             (Clean (resolvePath fs (ea_Path args)) \<mapsto> pre @ ea_NewString args @ post)\<rparr>)"
proof (cases "snd (edit_Execute fs je a)")
  case (Inl e)
  then show ?thesis using edit_Execute_failure by simp
next
  case (Inr msg)
  show ?thesis
  proof (cases "ea_ReplaceAll args")
    case False
    from edit_Execute_success[OF assms Inr] obtain original where
      o: "ReadFile fs (ea_Path args) = Inr original" "ea_OldString args \<noteq> ''''"
         "0 < Count original (ea_OldString args)" "Count original (ea_OldString args) = 1"
         "fst (edit_Execute fs je a) = fs\<lparr>fs_files := (fs_files fs)(Clean (resolvePath fs (ea_Path args)) \<mapsto>
            Replace1 original (ea_OldString args) (ea_NewString args))\<rparr>"
      using False by auto
    obtain pre post where "original = pre @ ea_OldString args @ post"
        "Replace1 original (ea_OldString args) (ea_NewString args) = pre @ ea_NewString args @ post"
      using Replace1_split[OF o(3,2)] by blast
    with o(1,4,5) have "\<exists>pre post. ReadFile fs (ea_Path args) = Inr (pre @ ea_OldString args @ post) \<and>
        Count (pre @ ea_OldString args @ post) (ea_OldString args) = 1 \<and>
        fst (edit_Execute fs je a) = fs\<lparr>fs_files := (fs_files fs)
          (Clean (resolvePath fs (ea_Path args)) \<mapsto> pre @ ea_NewString args @ post)\<rparr>"
      by (intro exI[of _ pre] exI[of _ post]) simp
    with Inr show ?thesis by simp
  qed (simp add: Inr)
qed

definition args_edit :: string where
  "args_edit = ''{'' @ json_pair ''path'' ''a.txt'' @ '','' @ json_pair ''old_string'' ''ell'' @ '','' @
     json_pair ''new_string'' ''ipp'' @ ''}''"

definition edit_of_hello :: edit_args where
  "edit_of_hello = \<lparr>ea_Path = ''a.txt'', ea_OldString = ''ell'', ea_NewString = ''ipp'', ea_ReplaceAll = False\<rparr>"

theorem edit_Execute_exact_witness:
  "decode_edit_args args_edit = Some edit_of_hello \<and>
   fs_files (fst (edit_Execute (two_files ''root'') '''' args_edit)) ''/w/a.txt'' = Some ''hippo'' \<and>
   (case snd (edit_Execute (two_files ''root'') '''' args_edit) of Inl e \<Rightarrow> False
    | Inr msg \<Rightarrow> \<exists>pre post. ReadFile (two_files ''root'') ''a.txt'' = Inr (pre @ ''ell'' @ post))"
proof -
  have "decode_edit_args args_edit = Some edit_of_hello"
    and "fs_files (fst (edit_Execute (two_files ''root'') '''' args_edit)) ''/w/a.txt'' = Some ''hippo''"
    and "snd (edit_Execute (two_files ''root'') '''' args_edit) = Inr ''Successfully edited a.txt''"
    by code_simp+
  with edit_Execute_exact[of args_edit edit_of_hello "two_files ''root''" "[]"] show ?thesis
    by (auto simp: edit_of_hello_def)
qed

end
