(* ===== verification/Loop_Detector.thy ===== *)
theory Loop_Detector
  imports Prelude
begin

text \<open>
  The loop detector (\<open>core/services/loop_detector.go\<close>): a sliding window of call signatures, the
  consecutive-repeat check made on every call, and the multi-call pattern check.

  The truncated SHA-256 digest that identifies a call is an argument \<open>sum8\<close> of the definitions; the
  theorems hold for every such function.
\<close>

section \<open>Model\<close>

record callSignature =
  cs_hash :: string
  cs_toolName :: string
  cs_argsHash :: string

record LoopDetector =
  ld_maxRepeats :: int
  ld_windowSize :: int
  ld_recentCalls :: "callSignature list"

record LoopDetectorConfig =
  ldc_MaxRepeats :: int
  ldc_WindowSize :: int

record LoopStatus =
  ls_IsLooping :: bool
  ls_RepeatCount :: int
  ls_Pattern :: string
  ls_Suggestion :: string

definition DefaultLoopDetectorConfig :: LoopDetectorConfig where
  "DefaultLoopDetectorConfig = \<lparr>ldc_MaxRepeats = 7, ldc_WindowSize = 15\<rparr>"

definition NewLoopDetector :: "LoopDetectorConfig \<Rightarrow> LoopDetector" where
  "NewLoopDetector cfg =
     \<lparr>ld_maxRepeats = (if ldc_MaxRepeats cfg \<le> 0 then 7 else ldc_MaxRepeats cfg),
      ld_windowSize = (if ldc_WindowSize cfg \<le> 0 then 15 else ldc_WindowSize cfg),
      ld_recentCalls = []\<rparr>"

definition createSignature :: "(string \<Rightarrow> string) \<Rightarrow> string \<Rightarrow> string \<Rightarrow> callSignature" where
  "createSignature sum8 toolName args =
     \<lparr>cs_hash = sum8 (toolName @ '':'' @ args), cs_toolName = toolName, cs_argsHash = sum8 args\<rparr>"

definition getSuggestion :: "string \<Rightarrow> int \<Rightarrow> string" where
  "getSuggestion toolName n =
     (if toolName = ''read_file'' then
        ''The agent is repeatedly reading the same file. This might indicate it's not processing the content correctly or needs different information.''
      else if toolName = ''shell'' \<or> toolName = ''bash'' then
        ''The agent is repeatedly running the same command. Check if the command is failing or if different parameters are needed.''
      else if toolName = ''grep'' \<or> toolName = ''search'' then
        ''The agent is repeating search operations. Consider if the search terms need adjustment or if the information sought doesn't exist.''
      else if toolName = ''write_file'' \<or> toolName = ''edit'' then
        ''The agent is repeatedly modifying files. This might indicate conflicts or issues with the changes being made.''
      else ''Tool '' @ [CHR 0x27] @ toolName @ [CHR 0x27] @ '' has been called '' @ show_int n @
           '' times with identical parameters. Consider a different approach.'')"

text \<open>The loop from \<open>len - 2\<close> down, over the reversed prefix of the window.\<close>

fun count_matching :: "string \<Rightarrow> callSignature list \<Rightarrow> int" where
  "count_matching h [] = 0"
| "count_matching h (c # cs) = (if cs_hash c \<noteq> h then 0 else 1 + count_matching h cs)"

definition not_looping :: "int \<Rightarrow> LoopStatus" where
  "not_looping n = \<lparr>ls_IsLooping = False, ls_RepeatCount = n, ls_Pattern = '''', ls_Suggestion = ''''\<rparr>"

definition RecordCall :: "(string \<Rightarrow> string) \<Rightarrow> LoopDetector \<Rightarrow> string \<Rightarrow> string \<Rightarrow> LoopDetector \<times> LoopStatus" where
  "RecordCall sum8 d toolName args =
     (let sig = createSignature sum8 toolName args;
          calls = ld_recentCalls d @ [sig];
          calls = (if ld_windowSize d < int (length calls) then tl calls else calls);
          consec = 1 + count_matching (cs_hash sig) (rev (butlast calls))
      in (d\<lparr>ld_recentCalls := calls\<rparr>,
          if ld_maxRepeats d \<le> consec
          then \<lparr>ls_IsLooping = True, ls_RepeatCount = consec,
                ls_Pattern = toolName @ '' (called '' @ show_int consec @ '' times in a row)'',
                ls_Suggestion = getSuggestion toolName consec\<rparr>
          else not_looping consec))"

definition patternsMatch :: "callSignature list \<Rightarrow> callSignature list \<Rightarrow> bool" where
  "patternsMatch p1 p2 \<longleftrightarrow> map cs_hash p1 = map cs_hash p2"

definition slice :: "'a list \<Rightarrow> int \<Rightarrow> int \<Rightarrow> 'a list" where
  "slice xs i j = take (nat (j - i)) (drop (nat i) xs)"

function count_pattern :: "callSignature list \<Rightarrow> int \<Rightarrow> callSignature list \<Rightarrow> int \<Rightarrow> int" where
  "count_pattern calls sz pat i =
     (if i < 0 \<or> sz \<le> 0 then 0
      else if patternsMatch (slice calls i (i + sz)) pat
      then 1 + count_pattern calls sz pat (i - sz) else 0)"
  by auto
termination by (relation "measure (\<lambda>(calls, sz, pat, i). nat (i + 1))") auto

declare count_pattern.simps [simp del]

definition check_size :: "LoopDetector \<Rightarrow> int \<Rightarrow> LoopStatus option" where
  "check_size d sz =
     (let calls = ld_recentCalls d; n = int (length calls);
          pattern1 = slice calls (n - sz * 2) (n - sz);
          pattern2 = slice calls (n - sz) n
      in if patternsMatch pattern1 pattern2 then
           (let repeatCount = 2 + count_pattern calls sz pattern1 (n - sz * 3) in
            if ld_maxRepeats d \<le> repeatCount
            then Some \<lparr>ls_IsLooping = True, ls_RepeatCount = repeatCount,
                   ls_Pattern = ''Pattern of '' @ show_int sz @ '' calls repeated '' @
                     show_int repeatCount @ '' times'',
                   ls_Suggestion = ''The agent is repeating a sequence of tool calls. Consider changing approach or asking for clarification.''\<rparr>
            else None)
         else None)"

fun check_sizes :: "LoopDetector \<Rightarrow> int list \<Rightarrow> LoopStatus" where
  "check_sizes d [] = not_looping 0"
| "check_sizes d (sz # sizes) =
     (if sz * 2 \<le> int (length (ld_recentCalls d))
      then (case check_size d sz of Some st \<Rightarrow> st | None \<Rightarrow> check_sizes d sizes)
      else not_looping 0)"

definition CheckPatternLoop :: "LoopDetector \<Rightarrow> int \<Rightarrow> LoopStatus" where
  "CheckPatternLoop d patternSize =
     (if int (length (ld_recentCalls d)) < patternSize * 2 then not_looping 0
      else check_sizes d [2..patternSize])"

definition LoopDetector_Reset :: "LoopDetector \<Rightarrow> LoopDetector" where
  "LoopDetector_Reset d = d\<lparr>ld_recentCalls := []\<rparr>"

definition LoopDetector_Stats :: "LoopDetector \<Rightarrow> (string \<rightharpoonup> nat)" where
  "LoopDetector_Stats d h =
     (let n = length (filter (\<lambda>c. cs_hash c = h) (ld_recentCalls d)) in if n = 0 then None else Some n)"

section \<open>The window\<close>

definition record_all :: "(string \<Rightarrow> string) \<Rightarrow> LoopDetector \<Rightarrow> (string \<times> string) list \<Rightarrow> LoopDetector" where
  "record_all sum8 d calls = foldl (\<lambda>d (t, a). fst (RecordCall sum8 d t a)) d calls"

abbreviation sig_of :: "(string \<Rightarrow> string) \<Rightarrow> string \<times> string \<Rightarrow> callSignature" where
  "sig_of sum8 c \<equiv> createSignature sum8 (fst c) (snd c)"

abbreviation call_hash :: "(string \<Rightarrow> string) \<Rightarrow> string \<times> string \<Rightarrow> string" where
  "call_hash sum8 c \<equiv> sum8 (fst c @ '':'' @ snd c)"

text \<open>How many of the last calls in a row have the given hash: the specification.\<close>

definition trailing_run :: "string list \<Rightarrow> string \<Rightarrow> nat" where
  "trailing_run hs h = length (takeWhile ((=) h) (rev hs))"

definition window :: "int \<Rightarrow> 'a list \<Rightarrow> 'a list" where
  "window w xs = drop (length xs - nat w) xs"

lemma window_snoc:
  assumes "0 < w"
  shows "(let ys = window w xs @ [x] in if w < int (length ys) then tl ys else ys) = window w (xs @ [x])"
proof (cases "nat w \<le> length xs")
  case True
  then have "window w (xs @ [x]) = tl (window w xs) @ [x]" "length (window w xs) = nat w"
    using assms by (simp_all add: window_def Suc_diff_le drop_Suc tl_drop)
  moreover have "window w xs \<noteq> []" using True assms by (auto simp: window_def)
  ultimately show ?thesis using assms by (simp add: Let_def)
next
  case False
  then have "int (length xs) < w" by simp
  then show ?thesis by (simp add: window_def Let_def)
qed

lemma RecordCall_config [simp]:
  "ld_maxRepeats (fst (RecordCall s d t a)) = ld_maxRepeats d"
  "ld_windowSize (fst (RecordCall s d t a)) = ld_windowSize d"
  by (simp_all add: RecordCall_def Let_def)

lemma record_all_config [simp]:
  "ld_maxRepeats (record_all s d cs) = ld_maxRepeats d"
  "ld_windowSize (record_all s d cs) = ld_windowSize d"
  by (induction cs rule: rev_induct) (auto simp: record_all_def split: prod.splits)

lemma record_all_window:
  assumes "0 < ld_windowSize d" "ld_recentCalls d = []"
  shows "ld_recentCalls (record_all s d cs) =
    window (ld_windowSize d) (map (sig_of s) cs)"
proof (induction cs rule: rev_induct)
  case Nil
  then show ?case by (simp add: record_all_def assms(2) window_def)
next
  case (snoc c cs)
  have "record_all s d (cs @ [c]) = fst (RecordCall s (record_all s d cs) (fst c) (snd c))"
    by (simp add: record_all_def split_beta)
  then show ?case
    using window_snoc[OF assms(1), of "map (sig_of s) cs"
        "sig_of s c"] snoc
    by (simp add: RecordCall_def Let_def split_beta)
qed

lemma takeWhile_take: "takeWhile P (take n xs) = take n (takeWhile P xs)"
  by (induction xs arbitrary: n) (auto simp: take_Cons')

lemma count_matching_takeWhile: "count_matching h cs = int (length (takeWhile ((=) h) (map cs_hash cs)))"
  by (induction cs) auto

lemma rev_butlast_window:
  "0 < w \<Longrightarrow> rev (butlast (window w (xs @ [x]))) = take (nat w - 1) (rev xs)"
proof -
  assume w: "0 < w"
  have "window w (xs @ [x]) = drop (length xs - (nat w - 1)) xs @ [x]"
    using w by (simp add: window_def)
  then show ?thesis by (simp add: take_rev)
qed

lemma RecordCall_window:
  assumes d: "ld_recentCalls d = window (ld_windowSize d) (map (sig_of s) cs)" "0 < ld_windowSize d"
  shows "ls_RepeatCount (snd (RecordCall s d t a)) =
      min (ld_windowSize d) (int (trailing_run (map (call_hash s) (cs @ [(t, a)])) (call_hash s (t, a))))"
proof -
  let ?h = "call_hash s (t, a)" and ?w = "ld_windowSize d" and ?sig = "createSignature s t a"
  let ?calls = "let ys = ld_recentCalls d @ [?sig] in if ?w < int (length ys) then tl ys else ys"
  have h: "cs_hash (createSignature s t' a') = call_hash s (t', a')" for t' a'
    by (simp add: createSignature_def)
  have "?calls = window ?w (map (sig_of s) cs @ [?sig])"
    unfolding d(1) by (rule window_snoc[OF d(2)])
  then have "rev (butlast ?calls) = take (nat ?w - 1) (rev (map (sig_of s) cs))"
    by (simp only: rev_butlast_window[OF d(2)])
  then have "count_matching ?h (rev (butlast ?calls)) =
      int (min (nat ?w - 1) (length (takeWhile ((=) ?h) (rev (map (call_hash s) cs)))))"
    by (simp add: count_matching_takeWhile take_map[symmetric] rev_map takeWhile_take h comp_def)
  then show ?thesis
    using d(2) by (simp add: RecordCall_def Let_def h trailing_run_def not_looping_def)
qed

lemma NewLoopDetector_pos:
  "0 < ld_windowSize (NewLoopDetector cfg)" "0 < ld_maxRepeats (NewLoopDetector cfg)"
  "ld_recentCalls (NewLoopDetector cfg) = []"
  by (auto simp: NewLoopDetector_def)

lemma IsLooping_RepeatCount:
  "ls_IsLooping (snd (RecordCall s d t a)) \<longleftrightarrow> ld_maxRepeats d \<le> ls_RepeatCount (snd (RecordCall s d t a))"
  by (simp add: RecordCall_def Let_def not_looping_def)

text \<open>
  C35. The sliding window loses nothing that matters: with a window at least as long as the repeat
  limit, a call is reported as looping exactly when the last \<open>maxRepeats\<close> calls of the whole run,
  this one included, have the same signature, and the reported count is the length of that run,
  cut at the window size.
\<close>

theorem RecordCall_detects_runs:
  assumes "ld_maxRepeats (NewLoopDetector cfg) \<le> ld_windowSize (NewLoopDetector cfg)"
  shows "let d = record_all sum8 (NewLoopDetector cfg) cs;
             run = int (trailing_run (map (call_hash sum8) (cs @ [(t, a)])) (call_hash sum8 (t, a)));
             st = snd (RecordCall sum8 d t a)
         in (ls_IsLooping st \<longleftrightarrow> ld_maxRepeats (NewLoopDetector cfg) \<le> run) \<and>
            ls_RepeatCount st = min (ld_windowSize (NewLoopDetector cfg)) run"
  using assms RecordCall_window[of "record_all sum8 (NewLoopDetector cfg) cs" sum8 cs t a]
    record_all_window[OF NewLoopDetector_pos(1,3)] NewLoopDetector_pos(1)
  by (simp add: IsLooping_RepeatCount Let_def)

text \<open>Identity in place of the digest, for evaluation on concrete calls.\<close>

theorem RecordCall_detects_runs_witness:
  "ls_IsLooping (snd (RecordCall (\<lambda>x. x)
     (record_all (\<lambda>x. x) (NewLoopDetector DefaultLoopDetectorConfig)
        ((''edit'', ''x'') # replicate 6 (''shell'', ''ls''))) ''shell'' ''ls''))"
proof -
  have "ld_maxRepeats (NewLoopDetector DefaultLoopDetectorConfig) = 7"
    "ld_windowSize (NewLoopDetector DefaultLoopDetectorConfig) = 15"
    "int (trailing_run (map (call_hash (\<lambda>x. x)) (((''edit'', ''x'') # replicate 6 (''shell'', ''ls'')) @
       [(''shell'', ''ls'')])) (call_hash (\<lambda>x. x) (''shell'', ''ls''))) = 7"
    by code_simp+
  then show ?thesis
    using RecordCall_detects_runs[of DefaultLoopDetectorConfig "\<lambda>x. x"
        "(''edit'', ''x'') # replicate 6 (''shell'', ''ls'')" "''shell''" "''ls''"]
    by (simp only: Let_def)
qed

section \<open>Patterns of several calls\<close>

lemma count_pattern_bound: "0 < sz \<Longrightarrow> -sz \<le> i \<Longrightarrow> count_pattern calls sz pat i * sz \<le> i + sz"
proof (induction calls sz pat i rule: count_pattern.induct)
  case (1 calls sz pat i)
  then show ?case
    by (subst count_pattern.simps) (auto simp: algebra_simps)
qed

lemma check_size_bound:
  assumes "check_size d sz = Some st" "0 < sz" "2 * sz \<le> int (length (ld_recentCalls d))"
  shows "ls_RepeatCount st * sz \<le> int (length (ld_recentCalls d)) \<and> ld_maxRepeats d \<le> ls_RepeatCount st \<and>
    ls_Pattern st = ''Pattern of '' @ show_int sz @ '' calls repeated '' @ show_int (ls_RepeatCount st) @ '' times''"
proof -
  let ?n = "int (length (ld_recentCalls d))"
  let ?c = "count_pattern (ld_recentCalls d) sz (slice (ld_recentCalls d) (?n - sz * 2) (?n - sz)) (?n - sz * 3)"
  have "ld_maxRepeats d \<le> 2 + ?c \<and> ls_RepeatCount st = 2 + ?c \<and> ls_Pattern st =
      ''Pattern of '' @ show_int sz @ '' calls repeated '' @ show_int (ls_RepeatCount st) @ '' times''"
    using assms(1) by (auto simp: check_size_def Let_def split: if_splits)
  moreover have "(2 + ?c) * sz \<le> ?n"
    using count_pattern_bound[of sz "?n - sz * 3"] assms(2,3) by (simp add: algebra_simps)
  ultimately show ?thesis by simp
qed

lemma check_sizes_found:
  assumes "ls_IsLooping (check_sizes d sizes)"
  shows "\<exists>sz\<in>set sizes. check_size d sz = Some (check_sizes d sizes) \<and> 2 * sz \<le> int (length (ld_recentCalls d))"
  using assms by (induction sizes) (auto simp: not_looping_def split: if_splits option.splits)

lemma record_all_length:
  "int (length (ld_recentCalls (record_all s (NewLoopDetector cfg) cs))) \<le> ld_windowSize (NewLoopDetector cfg)"
proof -
  have "length cs - (length cs - nat w) \<le> nat w" for w :: int by linarith
  then show ?thesis
    using NewLoopDetector_pos(1)[of cfg] record_all_window[OF NewLoopDetector_pos(1,3)]
    by (simp add: window_def nat_le_iff)
qed

text \<open>
  With the default configuration (seven repeats, a window of fifteen calls) the pattern check
  can only ever report one thing: a pattern of two calls repeated seven times.  Longer patterns,
  which callers ask for by pattern size, never have seven repetitions inside the window.
\<close>

theorem CheckPatternLoop_default_window:
  assumes "ls_IsLooping (CheckPatternLoop
     (record_all sum8 (NewLoopDetector DefaultLoopDetectorConfig) cs) patternSize)"
  shows "ls_Pattern (CheckPatternLoop
     (record_all sum8 (NewLoopDetector DefaultLoopDetectorConfig) cs) patternSize) =
       ''Pattern of 2 calls repeated 7 times''"
proof -
  let ?d = "record_all sum8 (NewLoopDetector DefaultLoopDetectorConfig) cs"
  let ?st = "CheckPatternLoop ?d patternSize"
  have eq: "?st = check_sizes ?d [2..patternSize]"
    using assms by (auto simp: CheckPatternLoop_def not_looping_def split: if_splits)
  have cfg: "ld_maxRepeats (NewLoopDetector DefaultLoopDetectorConfig) = 7"
    "ld_windowSize (NewLoopDetector DefaultLoopDetectorConfig) = 15"
    by code_simp+
  obtain sz where sz: "2 \<le> sz" "check_size ?d sz = Some ?st" "2 * sz \<le> int (length (ld_recentCalls ?d))"
    using check_sizes_found[of ?d "[2..patternSize]"] assms by (auto simp: eq)
  note b = check_size_bound[OF sz(2) _ sz(3)]
  have "7 \<le> ls_RepeatCount ?st" "ls_RepeatCount ?st * sz \<le> 15"
    using b sz(1) record_all_length[of sum8 DefaultLoopDetectorConfig cs] cfg by auto
  moreover have "7 * sz \<le> ls_RepeatCount ?st * sz" "ls_RepeatCount ?st * 2 \<le> ls_RepeatCount ?st * sz"
    using calculation sz(1) by simp_all
  ultimately have "sz = 2 \<and> ls_RepeatCount ?st = 7" using sz(1) by (intro conjI; linarith)
  moreover have "''Pattern of '' @ show_int 2 @ '' calls repeated '' @ show_int 7 @ '' times'' =
      ''Pattern of 2 calls repeated 7 times''"
    by code_simp
  ultimately show ?thesis using b by simp
qed

definition alternating_calls :: "(string \<times> string) list" where
  "alternating_calls = concat (replicate 7 [(''shell'', ''make''), (''edit'', ''f'')])"

theorem CheckPatternLoop_default_window_witness:
  "ls_Pattern (CheckPatternLoop (record_all (\<lambda>x. x) (NewLoopDetector DefaultLoopDetectorConfig)
     alternating_calls) 4) = ''Pattern of 2 calls repeated 7 times''"
proof -
  have "ls_IsLooping (CheckPatternLoop (record_all (\<lambda>x. x) (NewLoopDetector DefaultLoopDetectorConfig)
     alternating_calls) 4)"
    by code_simp
  then show ?thesis by (rule CheckPatternLoop_default_window)
qed

end
