(* ===== verification/Agent_Types.thy ===== *)
theory Agent_Types
  imports Conversation Tool_Safety Loop_Detector
begin

text \<open>
  The data of the agent (\<open>core/agent/types.go\<close>, \<open>safety.go\<close>, the \<open>Agent\<close> struct of
  \<open>agent.go\<close>): states, approval policies, pending actions, safety decisions, turn audits.

  An open string enumeration is a datatype with one constructor per constant of the source and one
  for any other string.  Fields that hold services, observers and synchronisation are not part of
  the record; the loop detector, the conversation and the classifier are.
\<close>

section \<open>Enumerations\<close>

datatype State = StateIdle | StateRunning | StatePaused | StateDurabilityFailed | StateOther string

datatype ApprovalPolicy =
  ApprovalPolicyAuto | ApprovalPolicyManual | ApprovalPolicyBypass | ApprovalPolicyOther string

datatype ExecutionDecision =
  ExecutionDecisionAutoExecute | ExecutionDecisionRequireApproval | ExecutionDecisionBlock
| ExecutionDecisionOther string

datatype SafetyDecisionSource =
  SafetyDecisionSourceHardRule | SafetyDecisionSourceClassifier
| SafetyDecisionSourceUserApproval | SafetyDecisionSourceBypass | SafetyDecisionSourceOther string

datatype SafetyClassifierDecision =
  SafetyClassifierDecisionAllow | SafetyClassifierDecisionDeny | SafetyClassifierDecisionAskUser
| SafetyClassifierDecisionOther string

datatype SnapshotStatus =
  SnapshotStatusNotNeeded | SnapshotStatusCreated | SnapshotStatusFailed
| SnapshotStatusMissingGitRepo | SnapshotStatusNotInstalled | SnapshotStatusOther string

section \<open>Decisions and pending actions\<close>

record ActionDecision =
  ad_Decision :: ExecutionDecision
  ad_Source :: SafetyDecisionSource
  ad_Reason :: string
  ad_RiskLevel :: string
  ad_RequiresSnapshot :: bool
  ad_RawContext :: string

record PendingAction =
  pa_ToolCallID :: string
  pa_Name :: string
  pa_Arguments :: string
  pa_Decision :: ActionDecision
  pa_Order :: int
  pa_ToolCall :: "ToolCall option"

section \<open>Classifier\<close>

record RecentAction =
  rca_ToolName :: string
  rca_Result :: string
  rca_IsError :: bool

record SafetyClassifierRequest =
  cr_UserPrompt :: string
  cr_RequestContext :: "RequestContext option"
  cr_ToolName :: string
  cr_ToolArguments :: string
  cr_RiskLevel :: string
  cr_IsGitRepo :: bool
  cr_HasSnapshot :: bool
  cr_RecentActions :: "RecentAction list"

record SafetyClassifierResponse =
  csr_Decision :: SafetyClassifierDecision
  csr_Reason :: string
  csr_RequiresSnapshot :: bool

type_synonym SafetyClassifier = "SafetyClassifierRequest \<Rightarrow> string + SafetyClassifierResponse"

record SafetyClassifierConfig =
  cc_Enabled :: "bool option"
  cc_ReviewThreshold :: string
  cc_Profile :: string
  cc_TimeoutMs :: int
  cc_MaxRecentActions :: int
  cc_CaptureRawAuditContext :: bool
  cc_MaxAuditContextChars :: int

definition IsEnabled :: "SafetyClassifierConfig \<Rightarrow> bool" where
  "IsEnabled c = (case cc_Enabled c of None \<Rightarrow> False | Some b \<Rightarrow> b)"

section \<open>Turns\<close>

record TurnSafetyState =
  ts_TurnID :: string
  ts_SnapshotCreated :: bool
  ts_SnapshotID :: string
  ts_SnapshotAttempted :: bool
  ts_SnapshotFailed :: bool
  ts_CurrentUserPrompt :: string
  ts_RequestContext :: "RequestContext option"
  ts_LastDecisionContext :: "ToolCall option"

record AuditContextSummary =
  ac_UserPrompt :: string
  ac_RecentActions :: "string list"
  ac_Trigger :: string
  ac_RequestContext :: "RequestContext option"

record AuditEvent =
  ae_Timestamp :: time
  ae_TurnID :: string
  ae_ToolCallID :: string
  ae_ToolName :: string
  ae_ToolArgsSummary :: string
  ae_DecisionSource :: SafetyDecisionSource
  ae_Decision :: SafetyClassifierDecision
  ae_Reason :: string
  ae_RiskLevel :: string
  ae_SnapshotStatus :: SnapshotStatus
  ae_SnapshotID :: string
  ae_ClassifierProvider :: string
  ae_ClassifierModel :: string
  ae_ContextSummary :: AuditContextSummary
  ae_RawContext :: string

record TurnAudit =
  ta_ID :: string
  ta_CreatedAt :: time
  ta_UpdatedAt :: time
  ta_UserPromptSummary :: string
  ta_SafetyEvents :: "AuditEvent list"
  ta_SnapshotStatus :: SnapshotStatus
  ta_SnapshotID :: string

section \<open>Executor and tools\<close>

record ExecResult =
  er_ExitCode :: int
  er_Stdout :: string
  er_Stderr :: string

text \<open>Outcome of \<open>Exec\<close>: an error with the result it may still carry, or a result.\<close>

type_synonym exec_outcome = "(string \<times> ExecResult option) + ExecResult"

record Executor =
  ex_WorkDir :: string
  ex_Exec :: "string \<Rightarrow> exec_outcome"

definition exec_Success :: "ExecResult \<Rightarrow> bool" where
  "exec_Success r \<longleftrightarrow> er_ExitCode r = 0"

type_synonym Tool = "SafetyCall \<Rightarrow> SafetyDecision"

section \<open>The agent\<close>

record 'r Agent =
  ag_classifierCfg :: SafetyClassifierConfig
  ag_executor :: Executor
  ag_tools :: "string \<rightharpoonup> Tool"
  ag_policy :: ApprovalPolicy
  ag_requestedPolicy :: ApprovalPolicy
  ag_profileForcesManual :: bool
  ag_loopDetector :: LoopDetector
  ag_classifier :: "SafetyClassifier option"
  ag_classifierUnavailableReason :: string
  ag_reviewAllTools :: bool
  ag_extraSafeDirs :: "string list"
  ag_turnSafety :: TurnSafetyState
  ag_state :: State
  ag_conversation :: "'r conversationState"
  ag_cumulativeUsage :: Usage
  ag_pendingTurnUser :: "Message list"
  ag_pendingActions :: "PendingAction list"
  ag_deferredActions :: "PendingAction list"
  ag_turns :: "TurnAudit list"

abbreviation ag_history :: "'r Agent \<Rightarrow> Message list" where
  "ag_history a \<equiv> history (ag_conversation a)"

record Snapshot =
  sn_State :: State
  sn_History :: "Message list"
  sn_CumulativeUsage :: Usage
  sn_PendingActions :: "PendingAction list"
  sn_DeferredActions :: "PendingAction list"
  sn_TurnSafety :: TurnSafetyState
  sn_Turns :: "TurnAudit list"
  sn_UserContextState :: "UserContextState option"
  sn_CreatedAt :: time

section \<open>Policies\<close>

definition refreshApprovalPolicy :: "'r Agent \<Rightarrow> 'r Agent" where
  "refreshApprovalPolicy a =
     a\<lparr>ag_policy :=
        (if ag_profileForcesManual a \<and> ag_requestedPolicy a \<noteq> ApprovalPolicyBypass
         then ApprovalPolicyManual else ag_requestedPolicy a)\<rparr>"

definition SetApprovalPolicy :: "'r Agent \<Rightarrow> ApprovalPolicy \<Rightarrow> 'r Agent" where
  "SetApprovalPolicy a p = refreshApprovalPolicy (a\<lparr>ag_requestedPolicy := p\<rparr>)"

definition SetProfileApprovalFallback :: "'r Agent \<Rightarrow> bool \<Rightarrow> 'r Agent" where
  "SetProfileApprovalFallback a forceManual =
     refreshApprovalPolicy (a\<lparr>ag_profileForcesManual := forceManual\<rparr>)"

definition summarizeText :: "string \<Rightarrow> nat \<Rightarrow> string" where
  "summarizeText s limit =
     (let s = TrimSpace s in if length s \<le> limit then s else take limit s @ ''...'')"

definition mapExecutionDecision :: "ExecutionDecision \<Rightarrow> SafetyClassifierDecision" where
  "mapExecutionDecision d =
     (if d = ExecutionDecisionAutoExecute then SafetyClassifierDecisionAllow
      else if d = ExecutionDecisionBlock then SafetyClassifierDecisionDeny
      else SafetyClassifierDecisionAskUser)"

definition safeDirs :: "'r Agent \<Rightarrow> string list" where
  "safeDirs a = ex_WorkDir (ag_executor a) # ag_extraSafeDirs a"

lemma summarizeText_length: "length (summarizeText s n) \<le> n + 3"
  by (simp add: summarizeText_def Let_def)

end
