(* ===== verification/Agent_Decision.thy ===== *)
theory Agent_Decision
  imports Agent_Types
begin

text \<open>
  Deciding what happens to a tool call (\<open>classifyToolCall\<close>, \<open>classifyWithSafetyClassifier\<close> and
  their helpers in \<open>core/agent/agent.go\<close>).

  The external classifier is part of the agent: a function from requests to an error or a
  response.  The theorems say which policy lets which calls run without a human.
\<close>

section \<open>The classifier request\<close>

definition isGitRepository :: "Executor \<Rightarrow> bool" where
  "isGitRepository exec =
     (case ex_Exec exec ''git rev-parse --is-inside-work-tree'' of
        Inl _ \<Rightarrow> False
      | Inr r \<Rightarrow> exec_Success r \<and> TrimSpace (er_Stdout r) = ''true'')"

definition message_actions :: "Message \<Rightarrow> RecentAction list" where
  "message_actions m =
     List.map_filter (\<lambda>cp.
        if cp_Type cp = ContentTypeToolResult
        then map_option (\<lambda>tr. \<lparr>rca_ToolName = tr_ToolName tr,
               rca_Result = summarizeText (tr_Text tr) 160, rca_IsError = tr_IsError tr\<rparr>)
               (cp_ToolResult cp)
        else None) (msg_Content m)"

text \<open>The loop from the newest message backwards, until six actions are collected.\<close>

fun recent_actions_go :: "RecentAction list \<Rightarrow> Message list \<Rightarrow> RecentAction list" where
  "recent_actions_go acc [] = acc"
| "recent_actions_go acc (m # ms) =
     (if length acc < 6 then recent_actions_go (acc @ message_actions m) ms else acc)"

definition recentActionsForClassifier :: "'r Agent \<Rightarrow> RecentAction list" where
  "recentActionsForClassifier a = recent_actions_go [] (rev (ag_history a))"

definition show_bool :: "bool \<Rightarrow> string" where
  "show_bool b = (if b then ''true'' else ''false'')"

definition line :: "string \<Rightarrow> string \<Rightarrow> string" where
  "line label v = label @ v @ [CHR 0x0A]"

definition summarizeClassifierRequest :: "SafetyClassifierRequest \<Rightarrow> nat \<Rightarrow> string" where
  "summarizeClassifierRequest req limit =
     summarizeText
       (line ''user_prompt: '' (summarizeText (cr_UserPrompt req) 400) @
        (case cr_RequestContext req of
           None \<Rightarrow> []
         | Some c \<Rightarrow> line ''request_context: '' (summarizeText (PromptText (Some c)) 400)) @
        line ''tool: '' (cr_ToolName req) @
        line ''args: '' (summarizeText (cr_ToolArguments req) 400) @
        line ''risk_level: '' (cr_RiskLevel req) @
        line ''is_git_repo: '' (show_bool (cr_IsGitRepo req)) @
        line ''has_snapshot: '' (show_bool (cr_HasSnapshot req)) @
        (if cr_RecentActions req = [] then []
         else line ''recent_actions:'' [] @
              concat (map (\<lambda>a. line ''- [''
                ((if rca_IsError a then ''error'' else ''ok'') @ ''] '' @ rca_ToolName a @ '': '' @
                 summarizeText (rca_Result a) 120)) (cr_RecentActions req))))
       limit"

definition classifier_request :: "'r Agent \<Rightarrow> ToolCall \<Rightarrow> string \<Rightarrow> SafetyClassifierRequest" where
  "classifier_request a tc riskLevel =
     \<lparr>cr_UserPrompt = ts_CurrentUserPrompt (ag_turnSafety a),
      cr_RequestContext = ts_RequestContext (ag_turnSafety a),
      cr_ToolName = tc_Name tc, cr_ToolArguments = tc_Arguments tc, cr_RiskLevel = riskLevel,
      cr_IsGitRepo = isGitRepository (ag_executor a),
      cr_HasSnapshot = ts_SnapshotCreated (ag_turnSafety a),
      cr_RecentActions = recentActionsForClassifier a\<rparr>"

section \<open>Decisions\<close>

definition action_decision :: "ExecutionDecision \<Rightarrow> SafetyDecisionSource \<Rightarrow> string \<Rightarrow> string \<Rightarrow> bool
    \<Rightarrow> string \<Rightarrow> ActionDecision" where
  "action_decision d src reason risk snap raw =
     \<lparr>ad_Decision = d, ad_Source = src, ad_Reason = reason, ad_RiskLevel = risk,
      ad_RequiresSnapshot = snap, ad_RawContext = raw\<rparr>"

lemma action_decision_sel [simp]:
  "ad_Decision (action_decision d src reason risk snap raw) = d"
  "ad_Source (action_decision d src reason risk snap raw) = src"
  "ad_Reason (action_decision d src reason risk snap raw) = reason"
  "ad_RiskLevel (action_decision d src reason risk snap raw) = risk"
  "ad_RequiresSnapshot (action_decision d src reason risk snap raw) = snap"
  by (simp_all add: action_decision_def)

definition classifyWithSafetyClassifier :: "'r Agent \<Rightarrow> ToolCall \<Rightarrow> string \<Rightarrow> ActionDecision option" where
  "classifyWithSafetyClassifier a tc riskLevel =
     (if \<not> IsEnabled (ag_classifierCfg a) then None
      else case ag_classifier a of
        None \<Rightarrow>
          Some (action_decision ExecutionDecisionRequireApproval SafetyDecisionSourceClassifier
            (if ag_classifierUnavailableReason a = ''''
             then ''classifier enabled but no classifier implementation configured; falling back to user approval''
             else ag_classifierUnavailableReason a) riskLevel False '''')
      | Some classify \<Rightarrow>
          (let req = classifier_request a tc riskLevel;
               limit = cc_MaxAuditContextChars (ag_classifierCfg a);
               rawCtx = (if cc_CaptureRawAuditContext (ag_classifierCfg a)
                 then summarizeClassifierRequest req (if limit \<le> 0 then 1200 else nat limit) else '''')
           in case classify req of
                Inl err \<Rightarrow>
                  Some (action_decision ExecutionDecisionRequireApproval SafetyDecisionSourceClassifier
                    (''classifier error: '' @ err @ ''; falling back to user approval'')
                    riskLevel False rawCtx)
              | Inr resp \<Rightarrow>
                  (case csr_Decision resp of
                     SafetyClassifierDecisionAllow \<Rightarrow>
                       Some (action_decision ExecutionDecisionAutoExecute SafetyDecisionSourceClassifier
                         (csr_Reason resp) riskLevel (csr_RequiresSnapshot resp) rawCtx)
                   | SafetyClassifierDecisionDeny \<Rightarrow>
                       Some (action_decision ExecutionDecisionBlock SafetyDecisionSourceClassifier
                         (csr_Reason resp) riskLevel False rawCtx)
                   | SafetyClassifierDecisionAskUser \<Rightarrow>
                       Some (action_decision ExecutionDecisionRequireApproval SafetyDecisionSourceClassifier
                         (csr_Reason resp) riskLevel (csr_RequiresSnapshot resp) rawCtx)
                   | SafetyClassifierDecisionOther _ \<Rightarrow> None)))"

definition tool_call_decision :: "'r Agent \<Rightarrow> Tool \<Rightarrow> ToolCall \<Rightarrow> SafetyDecision" where
  "tool_call_decision a tool tc =
     tool \<lparr>sc_Arguments = tc_Arguments tc, sc_WorkDir = ex_WorkDir (ag_executor a),
           sc_SafeDirs = safeDirs a\<rparr>"

definition classifyToolCall :: "'r Agent \<Rightarrow> ToolCall \<Rightarrow> ActionDecision" where
  "classifyToolCall a tc =
     (case ag_tools a (tc_Name tc) of
        None \<Rightarrow> action_decision ExecutionDecisionBlock SafetyDecisionSourceHardRule
                  ''tool not found'' (level_String LevelBlocked) False ''''
      | Some tool \<Rightarrow>
          if ag_policy a = ApprovalPolicyBypass
          then action_decision ExecutionDecisionAutoExecute SafetyDecisionSourceBypass
                 ''permission checks bypassed'' '''' False ''''
          else
            (let decision = tool_call_decision a tool tc;
                 level = sd_Level decision;
                 riskLabel = level_String level;
                 hard = (\<lambda>d. action_decision d SafetyDecisionSourceHardRule (sd_Reason decision)
                   riskLabel (sd_RequiresSnapshot decision) '''')
             in if LevelBlocked \<le> level
                then action_decision ExecutionDecisionBlock SafetyDecisionSourceHardRule
                       (sd_Reason decision) riskLabel False ''''
                else if sd_RequiresApproval decision then hard ExecutionDecisionRequireApproval
                else if level \<le> LevelSafe then
                  (if ag_reviewAllTools a then
                     (case classifyWithSafetyClassifier a tc riskLabel of
                        Some resp \<Rightarrow> resp
                      | None \<Rightarrow> hard ExecutionDecisionRequireApproval)
                   else hard ExecutionDecisionAutoExecute)
                else if ag_policy a \<noteq> ApprovalPolicyAuto then hard ExecutionDecisionRequireApproval
                else
                  (let threshold0 = (if ag_reviewAllTools a then LevelSafe
                         else ParseSafetyLevel (cc_ReviewThreshold (ag_classifierCfg a)));
                       classifierDisabled = LevelHigh < threshold0;
                       threshold = (if classifierDisabled then LevelHigh else threshold0)
                   in if level < threshold then hard ExecutionDecisionAutoExecute
                      else if \<not> classifierDisabled then
                        (case classifyWithSafetyClassifier a tc riskLabel of
                           Some resp \<Rightarrow> resp
                         | None \<Rightarrow> hard ExecutionDecisionRequireApproval)
                      else hard ExecutionDecisionRequireApproval)))"

lemma ParseSafetyLevel_range: "LevelSafe \<le> ParseSafetyLevel s \<and> ParseSafetyLevel s \<le> LevelBlocked + 1"
  by (simp add: ParseSafetyLevel_def)

lemma classifier_auto_execute:
  "classifyWithSafetyClassifier a tc risk = Some d \<Longrightarrow> ad_Decision d = ExecutionDecisionAutoExecute \<Longrightarrow>
     ad_Source d = SafetyDecisionSourceClassifier \<and> IsEnabled (ag_classifierCfg a) \<and>
     (\<exists>c resp. ag_classifier a = Some c \<and> c (classifier_request a tc risk) = Inr resp \<and>
        csr_Decision resp = SafetyClassifierDecisionAllow)"
  by (auto simp: classifyWithSafetyClassifier_def Let_def
      split: if_splits option.splits sum.splits SafetyClassifierDecision.splits)

lemma classifier_source:
  "classifyWithSafetyClassifier a tc risk = Some d \<Longrightarrow> ad_Source d = SafetyDecisionSourceClassifier"
  by (auto simp: classifyWithSafetyClassifier_def Let_def
      split: if_splits option.splits sum.splits SafetyClassifierDecision.splits)

lemma classifier_risk:
  "classifyWithSafetyClassifier a tc risk = Some d \<Longrightarrow> ad_RiskLevel d = risk"
  by (auto simp: classifyWithSafetyClassifier_def Let_def
      split: if_splits option.splits sum.splits SafetyClassifierDecision.splits)

section \<open>Which calls run without a human\<close>

definition review_threshold :: "'r Agent \<Rightarrow> SafetyLevel" where
  "review_threshold a =
     (if ag_reviewAllTools a then LevelSafe else ParseSafetyLevel (cc_ReviewThreshold (ag_classifierCfg a)))"

definition classifier_allows :: "'r Agent \<Rightarrow> ToolCall \<Rightarrow> string \<Rightarrow> bool" where
  "classifier_allows a tc risk \<longleftrightarrow>
     IsEnabled (ag_classifierCfg a) \<and>
     (case ag_classifier a of
        None \<Rightarrow> False
      | Some c \<Rightarrow> (case c (classifier_request a tc risk) of
                    Inl _ \<Rightarrow> False
                  | Inr resp \<Rightarrow> csr_Decision resp = SafetyClassifierDecisionAllow))"

lemma classifier_allows_iff:
  "(case classifyWithSafetyClassifier a tc risk of Some d \<Rightarrow> ad_Decision d = ExecutionDecisionAutoExecute
    | None \<Rightarrow> False) \<longleftrightarrow> classifier_allows a tc risk"
  by (auto simp: classifyWithSafetyClassifier_def classifier_allows_def Let_def
      split: option.splits sum.splits SafetyClassifierDecision.splits)

lemma classifier_fallback:
  "ad_Decision (case classifyWithSafetyClassifier a tc risk of Some resp \<Rightarrow> resp
      | None \<Rightarrow> action_decision ExecutionDecisionRequireApproval src reason r snap raw) =
      ExecutionDecisionAutoExecute \<longleftrightarrow> classifier_allows a tc risk"
  using classifier_allows_iff[of a tc risk] by (auto split: option.splits)

text \<open>
  The table of the comment on \<open>classifyToolCall\<close> as a predicate: the tool rates the call below
  blocked and without a mandatory approval, and either it is safe and not reviewed, or automatic
  mode puts it under the threshold, or the classifier is consulted and allows it.
\<close>

definition auto_allowed :: "'r Agent \<Rightarrow> SafetyDecision \<Rightarrow> ToolCall \<Rightarrow> bool" where
  "auto_allowed a dec tc \<longleftrightarrow>
     sd_Level dec < LevelBlocked \<and> \<not> sd_RequiresApproval dec \<and>
     (if sd_Level dec \<le> LevelSafe
      then ag_reviewAllTools a \<longrightarrow> classifier_allows a tc (level_String (sd_Level dec))
      else ag_policy a = ApprovalPolicyAuto \<and>
           (sd_Level dec < min (review_threshold a) LevelHigh \<or>
            review_threshold a \<le> LevelHigh \<and> classifier_allows a tc (level_String (sd_Level dec))))"

lemma auto_execute_iff:
  "ad_Decision (classifyToolCall a tc) = ExecutionDecisionAutoExecute \<longleftrightarrow>
     (\<exists>tool. ag_tools a (tc_Name tc) = Some tool \<and>
        (ag_policy a = ApprovalPolicyBypass \<or> auto_allowed a (tool_call_decision a tool tc) tc))"
proof (cases "ag_tools a (tc_Name tc)")
  case (Some tool)
  define dec where "dec = tool_call_decision a tool tc"
  define thr where "thr = review_threshold a"
  have d: "dec = tool_call_decision a tool tc" "thr = (if ag_reviewAllTools a then LevelSafe
      else ParseSafetyLevel (cc_ReviewThreshold (ag_classifierCfg a)))"
    by (simp_all add: dec_def thr_def review_threshold_def)
  show ?thesis
    unfolding classifyToolCall_def Some option.case Let_def d(1)[symmetric] d(2)[symmetric]
    using Some
    by (auto simp: auto_allowed_def classifier_fallback thr_def[symmetric] d(1)[symmetric])
qed (simp add: classifyToolCall_def)

text \<open>
  C8. A tool call runs without a human exactly when its tool is registered and either permission
  checks are bypassed or the policy table allows it: the tool rates it below blocked and without
  mandatory approval, and it is unreviewed and safe, or under the threshold in automatic mode
  (never at high level), or the classifier was enabled, present, answered without error and
  allowed it.
\<close>

theorem classifyToolCall_auto_iff:
  "ad_Decision (classifyToolCall a tc) = ExecutionDecisionAutoExecute \<longleftrightarrow>
     (\<exists>tool. ag_tools a (tc_Name tc) = Some tool \<and>
        (ag_policy a = ApprovalPolicyBypass \<or> auto_allowed a (tool_call_decision a tool tc) tc))"
  by (rule auto_execute_iff)

lemma policy_independent:
  "tool_call_decision (a\<lparr>ag_profileForcesManual := b, ag_policy := p\<rparr>) = tool_call_decision a"
  "classifier_allows (a\<lparr>ag_profileForcesManual := b, ag_policy := p\<rparr>) = classifier_allows a"
  "review_threshold (a\<lparr>ag_profileForcesManual := b, ag_policy := p\<rparr>) = review_threshold a"
proof -
  have r: "classifier_request (a\<lparr>ag_profileForcesManual := b, ag_policy := p\<rparr>) = classifier_request a"
    by (simp add: fun_eq_iff classifier_request_def recentActionsForClassifier_def)
  show "classifier_allows (a\<lparr>ag_profileForcesManual := b, ag_policy := p\<rparr>) = classifier_allows a"
    by (simp add: fun_eq_iff classifier_allows_def r split: option.split)
qed (simp_all add: fun_eq_iff tool_call_decision_def safeDirs_def review_threshold_def)

lemma blocked_iff:
  assumes "ag_tools a (tc_Name tc) = Some tool" "ag_policy a \<noteq> ApprovalPolicyBypass"
    and "LevelBlocked \<le> sd_Level (tool_call_decision a tool tc)"
  shows "ad_Decision (classifyToolCall a tc) = ExecutionDecisionBlock"
  using assms by (simp add: classifyToolCall_def Let_def)

text \<open>
  A profile that forces manual approval never lets a call run that the requested policy would
  not have run, and it never overrides an explicit bypass.
\<close>

theorem profile_fallback_stricter:
  assumes "ad_Decision (classifyToolCall (SetProfileApprovalFallback a True) tc) = ExecutionDecisionAutoExecute"
  shows "ad_Decision (classifyToolCall (SetProfileApprovalFallback a False) tc) = ExecutionDecisionAutoExecute \<and>
    (ag_requestedPolicy a = ApprovalPolicyBypass \<longleftrightarrow>
     ag_policy (SetProfileApprovalFallback a True) = ApprovalPolicyBypass)"
  using assms
  by (auto simp: auto_execute_iff SetProfileApprovalFallback_def refreshApprovalPolicy_def
      policy_independent auto_allowed_def split: if_splits)

text \<open>An agent in manual mode with a single read-only tool, for evaluation.\<close>

definition sample_agent :: "unit Agent" where
  "sample_agent =
     \<lparr>ag_classifierCfg = \<lparr>cc_Enabled = Some True, cc_ReviewThreshold = '''', cc_Profile = '''',
        cc_TimeoutMs = 0, cc_MaxRecentActions = 0, cc_CaptureRawAuditContext = False,
        cc_MaxAuditContextChars = 0\<rparr>,
      ag_executor = \<lparr>ex_WorkDir = ''/w'', ex_Exec = (\<lambda>_. Inl (''exec failed'', None))\<rparr>,
      ag_tools = [''read'' \<mapsto> (\<lambda>_. decision_of LevelSafe ''read only''),
                  ''deploy'' \<mapsto> (\<lambda>_. decision_of LevelHigh ''leaves the machine'')],
      ag_policy = ApprovalPolicyManual, ag_requestedPolicy = ApprovalPolicyManual,
      ag_profileForcesManual = False,
      ag_loopDetector = NewLoopDetector DefaultLoopDetectorConfig,
      ag_classifier = Some (\<lambda>_. Inr \<lparr>csr_Decision = SafetyClassifierDecisionAllow,
        csr_Reason = ''fine'', csr_RequiresSnapshot = False\<rparr>),
      ag_classifierUnavailableReason = '''', ag_reviewAllTools = False, ag_extraSafeDirs = [],
      ag_turnSafety = \<lparr>ts_TurnID = '''', ts_SnapshotCreated = False, ts_SnapshotID = '''',
        ts_SnapshotAttempted = False, ts_SnapshotFailed = False, ts_CurrentUserPrompt = '''',
        ts_RequestContext = None, ts_LastDecisionContext = None\<rparr>,
      ag_state = StateRunning, ag_conversation = newConversationState,
      ag_cumulativeUsage = zero_Usage, ag_pendingTurnUser = [], ag_pendingActions = [],
      ag_deferredActions = [], ag_turns = []\<rparr>"

definition sample_call :: "string \<Rightarrow> ToolCall" where
  "sample_call name = \<lparr>tc_Index = 0, tc_ID = ''c1'', tc_Name = name, tc_Arguments = ''{}''\<rparr>"

theorem profile_fallback_stricter_witness:
  "ad_Decision (classifyToolCall (SetProfileApprovalFallback sample_agent False) (sample_call ''read'')) =
     ExecutionDecisionAutoExecute"
proof -
  have "ad_Decision (classifyToolCall (SetProfileApprovalFallback sample_agent True) (sample_call ''read'')) =
     ExecutionDecisionAutoExecute"
    by code_simp
  then show ?thesis using profile_fallback_stricter by blast
qed

text \<open>
  Manual mode does consult the classifier when every tool is reviewed: a safe call is then run
  on the classifier's word alone, while a mutation still waits for the user.
\<close>

theorem manual_review_consults_classifier:
  "ag_policy sample_agent = ApprovalPolicyManual \<and>
   classifyToolCall (sample_agent\<lparr>ag_reviewAllTools := True\<rparr>) (sample_call ''read'') =
     action_decision ExecutionDecisionAutoExecute SafetyDecisionSourceClassifier ''fine'' ''safe'' False '''' \<and>
   ad_Decision (classifyToolCall (sample_agent\<lparr>ag_reviewAllTools := True\<rparr>) (sample_call ''deploy'')) =
     ExecutionDecisionRequireApproval"
  by code_simp

end
