(* ===== verification/Provider_Classifier.thy ===== *)
theory Provider_Classifier
  imports Agent_Decision
begin

text \<open>
  The classifier backed by a model provider (\<open>core/agent/provider_classifier.go\<close>): the prompt it
  sends, one attempt over a provider stream, the parsing of the answer, and the retry loop.

  The provider is an environment that answers every attempt, given its number and whether the tool
  choice was forced: with an error that kept the stream from opening, or with the events of the
  stream and the state of the attempt's context afterwards.  The text of JSON errors and of
  quoted strings inside error messages are functions of that environment.  Logging and
  observability spans are left out.
\<close>

section \<open>Construction and prompt\<close>

record ProviderSafetyClassifier =
  pc_timeout :: int
  pc_maxRecent :: int
  pc_maxChars :: int
  pc_instructions :: string
  pc_forcedToolChoiceRejected :: bool

definition NewProviderSafetyClassifier :: "SafetyClassifierConfig \<Rightarrow> string \<Rightarrow> ProviderSafetyClassifier" where
  "NewProviderSafetyClassifier cfg instructions =
     \<lparr>pc_timeout = (if cc_TimeoutMs cfg * 1000000 \<le> 0 then 20000000000 else cc_TimeoutMs cfg * 1000000),
      pc_maxRecent = (if cc_MaxRecentActions cfg \<le> 0 then 6 else cc_MaxRecentActions cfg),
      pc_maxChars = (if cc_MaxAuditContextChars cfg \<le> 0 then 1200 else cc_MaxAuditContextChars cfg),
      pc_instructions = TrimSpace instructions, pc_forcedToolChoiceRejected = False\<rparr>"

definition truncate_trimmed :: "string \<Rightarrow> int \<Rightarrow> string" where
  "truncate_trimmed s limit =
     (let s = TrimSpace s in
      if limit \<le> 0 \<or> int (length s) \<le> limit then s else take (nat limit) s @ ''...'')"

definition prompt_recent :: "ProviderSafetyClassifier \<Rightarrow> RecentAction list \<Rightarrow> RecentAction list" where
  "prompt_recent c recent =
     (if pc_maxRecent c < int (length recent)
      then drop (nat (int (length recent) - pc_maxRecent c)) recent else recent)"

definition buildUserPrompt :: "ProviderSafetyClassifier \<Rightarrow> SafetyClassifierRequest \<Rightarrow> string" where
  "buildUserPrompt c req =
     line ''Pending tool call:'' [] @
     line ''- tool: '' (cr_ToolName req) @
     line ''- risk_level: '' (cr_RiskLevel req) @
     line ''- is_git_repo: '' (show_bool (cr_IsGitRepo req)) @
     line ''- has_snapshot: '' (show_bool (cr_HasSnapshot req)) @
     line (line ''- arguments: '' (truncate_trimmed (cr_ToolArguments req) (pc_maxChars c))) [] @
     (case cr_RequestContext req of
        None \<Rightarrow> []
      | Some ctx \<Rightarrow>
          line ''Trusted request context (attributed by the host, not supplied by the user prompt):'' [] @
          line ''- actor_id: '' (truncate_trimmed (ra_ID (rc_Actor ctx)) 256) @
          line ''- actor_role: '' (ra_Role (rc_Actor ctx)) @
          line (line ''- metadata: '' (truncate_trimmed (marshal_RequestContext ctx) (pc_maxChars c))) []) @
     line ''User prompt (what the user asked for):'' [] @
     line (line '''' (truncate_trimmed (cr_UserPrompt req) (pc_maxChars c))) [] @
     (let recent = prompt_recent c (cr_RecentActions req) in
      if recent = [] then []
      else line ''Recent actions:'' [] @
           concat (map (\<lambda>a. line ''- [''
             ((if rca_IsError a then ''error'' else ''ok'') @ ''] '' @ rca_ToolName a @ '': '' @
              truncate_trimmed (rca_Result a) 160)) recent) @ line '''' []) @
     ''Invoke the record_decision tool now.''"

section \<open>Parsing the answer\<close>

definition classifierToolName :: string where
  "classifierToolName = ''record_decision''"

record parse_env =
  pe_json_error :: "string \<Rightarrow> string"
  pe_quote :: "string \<Rightarrow> string"

definition decision_of_string :: "string \<Rightarrow> SafetyClassifierDecision" where
  "decision_of_string s =
     (if s = ''allow'' then SafetyClassifierDecisionAllow
      else if s = ''deny'' then SafetyClassifierDecisionDeny
      else if s = ''ask_user'' then SafetyClassifierDecisionAskUser
      else SafetyClassifierDecisionOther s)"

definition parseClassifierDecisionArgs :: "parse_env \<Rightarrow> string \<Rightarrow> string + SafetyClassifierResponse" where
  "parseClassifierDecisionArgs pe args =
     (case unmarshal_object args of
        None \<Rightarrow> Inl (''classifier tool arguments not valid JSON: '' @ pe_json_error pe args)
      | Some ps \<Rightarrow>
          (case (store_string_field ''decision'' ps '''', store_string_field ''reason'' ps '''',
                 store_bool_field ''requires_snapshot'' ps False) of
             (Some dec, Some reason, Some snap) \<Rightarrow>
               (case decision_of_string (ToLower (TrimSpace dec)) of
                  SafetyClassifierDecisionOther _ \<Rightarrow>
                    Inl (''classifier returned unknown decision '' @ pe_quote pe dec)
                | d \<Rightarrow> Inr \<lparr>csr_Decision = d, csr_Reason = TrimSpace reason, csr_RequiresSnapshot = snap\<rparr>)
           | _ \<Rightarrow> Inl (''classifier tool arguments not valid JSON: '' @ pe_json_error pe args)))"

definition TrimPrefix :: "string \<Rightarrow> string \<Rightarrow> string" where
  "TrimPrefix s p = (if prefix p s then drop (length p) s else s)"

definition TrimSuffix :: "string \<Rightarrow> string \<Rightarrow> string" where
  "TrimSuffix s p = (if suffix p s then take (length s - length p) s else s)"

text \<open>The leftmost match of \<open>{.*}\<close>: from the first opening brace to the last closing one.\<close>

definition find_object :: "string \<Rightarrow> string" where
  "find_object s =
     (let t = dropWhile (\<lambda>c. c \<noteq> CHR ''{'') s in
      rev (dropWhile (\<lambda>c. c \<noteq> CHR ''}'') (rev t)))"

definition fence :: string where
  "fence = replicate 3 (CHR 0x60)"

definition parseClassifierResponse :: "parse_env \<Rightarrow> string \<Rightarrow> string + SafetyClassifierResponse" where
  "parseClassifierResponse pe raw =
     (let raw = TrimSpace raw;
          raw = TrimPrefix raw (fence @ ''json'');
          raw = TrimPrefix raw fence;
          raw = TrimSuffix raw fence;
          raw = TrimSpace raw;
          raw = (if \<not> HasPrefix raw ''{'' then (let m = find_object raw in if m \<noteq> '''' then m else raw)
                 else raw)
      in parseClassifierDecisionArgs pe raw)"

definition forcedToolChoiceUnsupported :: "string \<Rightarrow> bool" where
  "forcedToolChoiceUnsupported err =
     (let message = ToLower err in
      Contains message ''thinking mode does not support this tool_choice'' \<or>
      Contains (filter (\<lambda>c. c \<noteq> CHR 0x5C) message)
        (''tool_choice: type '' @ [CHR 0x22] @ ''tool'' @ [CHR 0x22] @ '' and '' @ [CHR 0x22] @ ''any'' @
         [CHR 0x22] @ '' are not supported for this model''))"

section \<open>Attempts\<close>

datatype stream_event =
  EvToolCallEnd "ToolCall option"
| EvContentDelta "(ContentType \<times> string) option"
| EvFinish
| EvError "string option"
| EvOther

record stream_outcome =
  so_stream :: "string + stream_event list"
  so_ctx_err :: "string option"

record stream_acc =
  sa_toolArgs :: string
  sa_text :: string

definition stream_step :: "stream_acc \<Rightarrow> stream_event \<Rightarrow> string + stream_acc" where
  "stream_step acc ev =
     (case ev of
        EvToolCallEnd (Some tc) \<Rightarrow>
          Inr (if tc_Name tc = classifierToolName then acc\<lparr>sa_toolArgs := tc_Arguments tc\<rparr> else acc)
      | EvContentDelta (Some (t, text)) \<Rightarrow>
          Inr (if t \<noteq> ContentTypeReasoning then acc\<lparr>sa_text := sa_text acc @ text\<rparr> else acc)
      | EvError (Some e) \<Rightarrow> Inl e
      | _ \<Rightarrow> Inr acc)"

fun stream_fold :: "stream_acc \<Rightarrow> stream_event list \<Rightarrow> string + stream_acc" where
  "stream_fold acc [] = Inr acc"
| "stream_fold acc (ev # evs) =
     (case stream_step acc ev of Inl e \<Rightarrow> Inl e | Inr acc' \<Rightarrow> stream_fold acc' evs)"

text \<open>One attempt: a response, or an error and whether it may be retried.\<close>

definition classifyOnce :: "parse_env \<Rightarrow> stream_outcome \<Rightarrow> (string \<times> bool) + SafetyClassifierResponse" where
  "classifyOnce pe so =
     (case so_stream so of
        Inl e \<Rightarrow> Inl (''classifier stream: '' @ e, True)
      | Inr evs \<Rightarrow>
          (case stream_fold \<lparr>sa_toolArgs = '''', sa_text = ''''\<rparr> evs of
             Inl e \<Rightarrow> Inl (e, True)
           | Inr acc \<Rightarrow>
               (case so_ctx_err so of
                  Some e \<Rightarrow>
                    if sa_toolArgs acc = '''' \<and> sa_text acc = '''' then Inl (e, True)
                    else map_sum (\<lambda>e. (e, False)) id
                      (if sa_toolArgs acc \<noteq> '''' then parseClassifierDecisionArgs pe (sa_toolArgs acc)
                       else if TrimSpace (sa_text acc) \<noteq> '''' then parseClassifierResponse pe (sa_text acc)
                       else Inl ''classifier returned empty response'')
                | None \<Rightarrow>
                    map_sum (\<lambda>e. (e, False)) id
                      (if sa_toolArgs acc \<noteq> '''' then parseClassifierDecisionArgs pe (sa_toolArgs acc)
                       else if TrimSpace (sa_text acc) \<noteq> '''' then parseClassifierResponse pe (sa_text acc)
                       else Inl ''classifier returned empty response''))))"

definition classifierMaxAttempts :: nat where
  "classifierMaxAttempts = 2"

type_synonym provider_env = "nat \<Rightarrow> bool \<Rightarrow> stream_outcome"

text \<open>
  The retry loop.  Its state is the attempt number, whether the tool choice is forced, and the
  number of transport failures; the result is the final outcome, the number of attempts made and
  whether forcing was rejected.  The transport counter grows by one from zero, so the comparison
  below is the source's equality test.
\<close>

function classify_loop :: "parse_env \<Rightarrow> provider_env \<Rightarrow> nat \<Rightarrow> bool \<Rightarrow> nat \<Rightarrow> bool
    \<Rightarrow> (string + SafetyClassifierResponse) \<times> nat \<times> bool" where
  "classify_loop pe env attempt force transport rejected =
     (case classifyOnce pe (env attempt force) of
        Inr resp \<Rightarrow> (Inr resp, attempt, rejected)
      | Inl (err, retriable) \<Rightarrow>
          if force \<and> forcedToolChoiceUnsupported err
          then classify_loop pe env (attempt + 1) False transport True
          else if \<not> retriable \<or> classifierMaxAttempts \<le> transport + 1
          then (Inl err, attempt, rejected)
          else classify_loop pe env (attempt + 1) force (transport + 1) rejected)"
  by pat_completeness auto
termination
  by (relation "measure (\<lambda>(pe, env, attempt, force, transport, rejected).
        (if force then 1 else 0) + (classifierMaxAttempts - transport))") auto

declare classify_loop.simps [simp del]

definition Classify :: "parse_env \<Rightarrow> provider_env \<Rightarrow> ProviderSafetyClassifier
    \<Rightarrow> ProviderSafetyClassifier \<times> (string + SafetyClassifierResponse) \<times> nat" where
  "Classify pe env c =
     (let (res, n, rejected) = classify_loop pe env 1 (\<not> pc_forcedToolChoiceRejected c) 0
            (pc_forcedToolChoiceRejected c)
      in (c\<lparr>pc_forcedToolChoiceRejected := rejected\<rparr>, res, n))"

section \<open>Properties\<close>

lemma parse_args_valid:
  "parseClassifierDecisionArgs pe args = Inr resp \<Longrightarrow>
     csr_Decision resp \<in> {SafetyClassifierDecisionAllow, SafetyClassifierDecisionDeny, SafetyClassifierDecisionAskUser}"
  by (auto simp: parseClassifierDecisionArgs_def
      split: option.splits prod.splits SafetyClassifierDecision.splits)

lemma classifyOnce_valid:
  assumes "classifyOnce pe so = Inr resp"
  shows "csr_Decision resp \<in> {SafetyClassifierDecisionAllow, SafetyClassifierDecisionDeny, SafetyClassifierDecisionAskUser}"
proof -
  have m: "map_sum f id x = Inr y \<longleftrightarrow> x = Inr y" for f :: "string \<Rightarrow> string \<times> bool" and x y
    by (cases x) auto
  obtain raw where "parseClassifierDecisionArgs pe raw = Inr resp"
    using assms by (auto simp: classifyOnce_def m parseClassifierResponse_def Let_def
        split: sum.splits option.splits if_splits)
  then show ?thesis by (rule parse_args_valid)
qed

lemma stream_fold_no_error:
  "stream_fold acc evs = Inr acc' \<Longrightarrow> EvError (Some e) \<notin> set evs"
  by (induction acc evs rule: stream_fold.induct)
    (auto split: sum.splits simp: stream_step_def)

lemma classifyOnce_no_error:
  "classifyOnce pe so = Inr resp \<Longrightarrow> \<exists>evs. so_stream so = Inr evs \<and> (\<forall>e. EvError (Some e) \<notin> set evs)"
  by (auto simp: classifyOnce_def dest: stream_fold_no_error split: sum.splits)

lemma classify_loop_attempts:
  assumes "transport < classifierMaxAttempts"
  shows "fst (snd (classify_loop pe env attempt force transport rejected)) <
     attempt + (if force then 1 else 0) + (classifierMaxAttempts - transport)"
  using assms
proof (induction pe env attempt force transport rejected rule: classify_loop.induct)
  case (1 pe env attempt force transport rejected)
  show ?case
  proof (cases "classifyOnce pe (env attempt force)")
    case (Inl er)
    obtain err retriable where er: "er = (err, retriable)" by fastforce
    show ?thesis
      using "1.IH"(1)[OF Inl er[symmetric]] "1.IH"(2)[OF Inl er[symmetric]] "1.prems" Inl er
      by (subst classify_loop.simps) auto
  next
    case (Inr resp)
    then show ?thesis using "1.prems" by (subst classify_loop.simps) auto
  qed
qed

lemma classify_loop_response:
  "fst (classify_loop pe env attempt force transport rejected) = Inr resp \<Longrightarrow>
     \<exists>n f. classifyOnce pe (env n f) = Inr resp"
proof (induction pe env attempt force transport rejected rule: classify_loop.induct)
  case (1 pe env attempt force transport rejected)
  show ?case
  proof (cases "classifyOnce pe (env attempt force)")
    case (Inl er)
    obtain err retriable where er: "er = (err, retriable)" by fastforce
    show ?thesis
      using "1.IH"(1)[OF Inl er[symmetric]] "1.IH"(2)[OF Inl er[symmetric]] "1.prems" Inl er
      by (subst (asm) classify_loop.simps) (auto split: if_splits)
  next
    case (Inr r)
    then show ?thesis using "1.prems" by (subst (asm) classify_loop.simps) auto
  qed
qed

text \<open>
  Whatever the provider does, the retry loop ends: at most three requests are made, two once
  forcing the tool choice is known to be rejected.
\<close>

theorem Classify_attempts:
  "snd (snd (Classify pe env c)) \<le> (if pc_forcedToolChoiceRejected c then 2 else 3)"
  using classify_loop_attempts[of 0 pe env 1 "\<not> pc_forcedToolChoiceRejected c" "pc_forcedToolChoiceRejected c"]
  by (cases "pc_forcedToolChoiceRejected c")
    (simp_all add: Classify_def classifierMaxAttempts_def split_beta Let_def)


definition allow_args :: string where
  "allow_args = ''{'' @ [CHR 0x22] @ ''decision'' @ [CHR 0x22] @ '':'' @ [CHR 0x22] @ ''Allow '' @ [CHR 0x22] @ ''}''"

text \<open>A provider that first rejects the forced tool choice, then times out, then answers.\<close>

definition stubborn_env :: provider_env where
  "stubborn_env n force =
     (if force then \<lparr>so_stream = Inl ''Thinking mode does not support this tool_choice'', so_ctx_err = None\<rparr>
      else if n = 2 then \<lparr>so_stream = Inr [EvOther], so_ctx_err = Some ''deadline exceeded''\<rparr>
      else \<lparr>so_stream = Inr [EvToolCallEnd (Some \<lparr>tc_Index = 0, tc_ID = ''x'', tc_Name = ''record_decision'',
              tc_Arguments = allow_args\<rparr>), EvFinish], so_ctx_err = None\<rparr>)"

definition plain_errors :: parse_env where
  "plain_errors = \<lparr>pe_json_error = (\<lambda>_. ''invalid''), pe_quote = (\<lambda>s. s)\<rparr>"

definition fresh_classifier :: ProviderSafetyClassifier where
  "fresh_classifier = NewProviderSafetyClassifier (ag_classifierCfg sample_agent) ''''"

definition reviewed_agent :: "unit Agent" where
  "reviewed_agent = sample_agent\<lparr>ag_policy := ApprovalPolicyAuto,
     ag_classifier := Some (\<lambda>req. fst (snd (Classify plain_errors stubborn_env fresh_classifier)))\<rparr>"


text \<open>Two tool results in two messages, the second one newer.\<close>

definition two_results :: "unit Agent" where
  "two_results = sample_agent\<lparr>ag_conversation := newConversationState\<lparr>history :=
     [NewToolMessage 1 [(NewTextToolResult ''c1'' ''old'' False)\<lparr>tr_ToolName := ''grep''\<rparr>],
      NewToolMessage 2 [(NewTextToolResult ''c2'' ''new'' False)\<lparr>tr_ToolName := ''edit''\<rparr>]]\<rparr>\<rparr>"

text \<open>
  The two sides of the recent-action list disagree on its order.  The agent collects it newest
  first, and the classifier, when the list is longer than its limit, keeps the end of it: with a
  limit of one, the action shown is the older of two.
\<close>

theorem prompt_keeps_oldest_action:
  "map rca_ToolName (prompt_recent (fresh_classifier\<lparr>pc_maxRecent := 1\<rparr>) (recentActionsForClassifier two_results)) =
     [''grep''] \<and>
   map rca_ToolName (recentActionsForClassifier two_results) = [''edit'', ''grep'']"
  by code_simp

end
