(* ===== verification/Agent_Audit.thy ===== *)
theory Agent_Audit
  imports Agent_Decision
begin

text \<open>
  Turn-scoped audit state and the pre-action snapshot (\<open>startNewTurn\<close>, \<open>currentTurnIndex\<close>,
  \<open>appendSafetyEvent\<close>, \<open>setTurnSnapshot\<close>, \<open>ensureSnapshotForActions\<close>, \<open>isCommandNotFound\<close>
  in \<open>core/agent/agent.go\<close>).  The clock is an argument: nanoseconds since the Unix epoch, with the
  zero time as \<open>0\<close>; one reading stands for the readings an operation makes.
\<close>

section \<open>Turns\<close>

definition zero_TurnSafetyState :: TurnSafetyState where
  "zero_TurnSafetyState = \<lparr>ts_TurnID = '''', ts_SnapshotCreated = False, ts_SnapshotID = '''',
     ts_SnapshotAttempted = False, ts_SnapshotFailed = False, ts_CurrentUserPrompt = '''',
     ts_RequestContext = None, ts_LastDecisionContext = None\<rparr>"

definition turn_id :: "time \<Rightarrow> string" where
  "turn_id now = ''turn_'' @ show_int now"

definition new_turn :: "string \<Rightarrow> time \<Rightarrow> string \<Rightarrow> TurnAudit" where
  "new_turn turnID now summary = \<lparr>ta_ID = turnID, ta_CreatedAt = now, ta_UpdatedAt = now,
     ta_UserPromptSummary = summary, ta_SafetyEvents = [],
     ta_SnapshotStatus = SnapshotStatusNotNeeded, ta_SnapshotID = ''''\<rparr>"

definition startNewTurn :: "time \<Rightarrow> string \<Rightarrow> RequestContext option \<Rightarrow> 'r Agent \<Rightarrow> 'r Agent" where
  "startNewTurn now userPrompt requestContext a =
     a\<lparr>ag_turnSafety := zero_TurnSafetyState\<lparr>ts_TurnID := turn_id now,
         ts_CurrentUserPrompt := userPrompt, ts_RequestContext := requestContext\<rparr>,
       ag_turns := ag_turns a @ [new_turn (turn_id now) now (summarizeText userPrompt 240)]\<rparr>"

text \<open>The last position whose element satisfies a predicate: the downward loop.\<close>

fun last_index :: "('a \<Rightarrow> bool) \<Rightarrow> 'a list \<Rightarrow> nat option" where
  "last_index P [] = None"
| "last_index P (x # xs) =
     (case last_index P xs of Some i \<Rightarrow> Some (Suc i) | None \<Rightarrow> if P x then Some 0 else None)"

definition currentTurnIndex :: "'r Agent \<Rightarrow> nat option" where
  "currentTurnIndex a =
     (if ts_TurnID (ag_turnSafety a) = '''' then None
      else last_index (\<lambda>t. ta_ID t = ts_TurnID (ag_turnSafety a)) (ag_turns a))"

definition complete_event :: "time \<Rightarrow> TurnSafetyState \<Rightarrow> AuditEvent \<Rightarrow> AuditEvent" where
  "complete_event now ts ev =
     ev\<lparr>ae_Timestamp := (if ae_Timestamp ev = 0 then now else ae_Timestamp ev),
        ae_TurnID := (if ae_TurnID ev = '''' then ts_TurnID ts else ae_TurnID ev),
        ae_ContextSummary := (ae_ContextSummary ev)\<lparr>ac_RequestContext :=
          (case ac_RequestContext (ae_ContextSummary ev) of
             None \<Rightarrow> ts_RequestContext ts | Some c \<Rightarrow> Some c)\<rparr>\<rparr>"

definition ensure_turn :: "time \<Rightarrow> 'r Agent \<Rightarrow> 'r Agent \<times> nat" where
  "ensure_turn now a =
     (case currentTurnIndex a of
        Some i \<Rightarrow> (a, i)
      | None \<Rightarrow>
          (let tid = (if ts_TurnID (ag_turnSafety a) = '''' then turn_id now
                      else ts_TurnID (ag_turnSafety a))
           in (a\<lparr>ag_turnSafety := (ag_turnSafety a)\<lparr>ts_TurnID := tid\<rparr>,
                 ag_turns := ag_turns a @ [new_turn tid now '''']\<rparr>, length (ag_turns a))))"

definition appendSafetyEvent :: "time \<Rightarrow> AuditEvent \<Rightarrow> 'r Agent \<Rightarrow> 'r Agent" where
  "appendSafetyEvent now ev a =
     (let ev = complete_event now (ag_turnSafety a) ev;
          (a', idx) = ensure_turn now a;
          t = ag_turns a' ! idx
      in a'\<lparr>ag_turns := (ag_turns a')[idx := t\<lparr>ta_UpdatedAt := now,
            ta_SafetyEvents := ta_SafetyEvents t @ [ev]\<rparr>]\<rparr>)"

definition setTurnSnapshot :: "time \<Rightarrow> SnapshotStatus \<Rightarrow> string \<Rightarrow> 'r Agent \<Rightarrow> 'r Agent" where
  "setTurnSnapshot now status snapshotID a =
     (case currentTurnIndex a of
        None \<Rightarrow> a
      | Some idx \<Rightarrow>
          a\<lparr>ag_turns := (ag_turns a)[idx := (ag_turns a ! idx)\<lparr>ta_UpdatedAt := now,
              ta_SnapshotStatus := status, ta_SnapshotID := snapshotID\<rparr>],
            ag_turnSafety := (ag_turnSafety a)\<lparr>ts_SnapshotID := snapshotID,
              ts_SnapshotCreated := (status = SnapshotStatusCreated),
              ts_SnapshotFailed := (status = SnapshotStatusFailed),
              ts_SnapshotAttempted := (status = SnapshotStatusCreated \<or> status = SnapshotStatusFailed)\<rparr>\<rparr>)"

section \<open>Snapshots\<close>

definition isCommandNotFound :: "exec_outcome \<Rightarrow> bool" where
  "isCommandNotFound out =
     (let err = (case out of Inl (e, _) \<Rightarrow> Some e | Inr _ \<Rightarrow> None);
          result = (case out of Inl (_, r) \<Rightarrow> r | Inr r \<Rightarrow> Some r)
      in (case err of None \<Rightarrow> False | Some e \<Rightarrow> Contains (ToLower e) ''executable file not found'') \<or>
         (case result of
            None \<Rightarrow> False
          | Some r \<Rightarrow> er_ExitCode r = 127 \<or> Contains (ToLower (er_Stderr r)) ''command not found''))"

definition snap_command :: string where
  "snap_command = ''snap-commit store -m '' @ [CHR 0x22] @ ''zotigo pre-action snapshot'' @ [CHR 0x22]"

definition ensureSnapshotForActions :: "time \<Rightarrow> PendingAction list \<Rightarrow> 'r Agent \<Rightarrow> 'r Agent \<times> string option" where
  "ensureSnapshotForActions now actions a =
     (if \<not> list_ex (\<lambda>x. ad_RequiresSnapshot (pa_Decision x)) actions \<or>
         ts_SnapshotCreated (ag_turnSafety a)
      then (a, None)
      else if \<not> isGitRepository (ag_executor a)
      then (setTurnSnapshot now SnapshotStatusMissingGitRepo '''' a, None)
      else
        (let a = a\<lparr>ag_turnSafety := (ag_turnSafety a)\<lparr>ts_SnapshotAttempted := True\<rparr>\<rparr>;
             out = ex_Exec (ag_executor a) snap_command
         in if isCommandNotFound out then (setTurnSnapshot now SnapshotStatusNotInstalled '''' a, None)
            else case out of
              Inl (e, _) \<Rightarrow>
                (setTurnSnapshot now SnapshotStatusFailed '''' a,
                 Some (''failed to create pre-action snapshot: '' @ e))
            | Inr r \<Rightarrow>
                if \<not> exec_Success r then
                  (setTurnSnapshot now SnapshotStatusFailed '''' a,
                   Some (''failed to create pre-action snapshot: '' @
                     (let stderr = TrimSpace (er_Stderr r) in
                      if stderr = '''' then ''exit code '' @ show_int (er_ExitCode r) else stderr)))
                else (setTurnSnapshot now SnapshotStatusCreated
                        (summarizeText (TrimSpace (er_Stdout r)) 120) a, None)))"

section \<open>What the audit operations keep\<close>

lemma last_index_Some: "last_index P xs = Some i \<Longrightarrow> i < length xs \<and> P (xs ! i)"
  by (induction xs arbitrary: i) (auto split: option.splits if_splits)

lemma last_index_None: "last_index P xs = None \<longleftrightarrow> (\<forall>x\<in>set xs. \<not> P x)"
  by (induction xs) (auto split: option.splits)

lemma last_index_snoc: "P x \<Longrightarrow> last_index P (xs @ [x]) = Some (length xs)"
  by (induction xs) auto

definition all_events :: "'r Agent \<Rightarrow> AuditEvent list" where
  "all_events a = concat (map ta_SafetyEvents (ag_turns a))"

lemma ensure_turn_idx:
  "ensure_turn now a = (a', i) \<Longrightarrow> i < length (ag_turns a') \<and> ta_ID (ag_turns a' ! i) = ts_TurnID (ag_turnSafety a') \<and>
     all_events a' = all_events a \<and> a' = a\<lparr>ag_turnSafety := ag_turnSafety a', ag_turns := ag_turns a'\<rparr>"
  by (auto simp: ensure_turn_def Let_def currentTurnIndex_def all_events_def new_turn_def
      dest!: last_index_Some split: option.splits if_splits)

lemma audit_frame [simp]:
  "ag_conversation (appendSafetyEvent now ev a) = ag_conversation a"
  "ag_pendingActions (appendSafetyEvent now ev a) = ag_pendingActions a"
  "ag_deferredActions (appendSafetyEvent now ev a) = ag_deferredActions a"
  "ag_state (appendSafetyEvent now ev a) = ag_state a"
  "ag_pendingTurnUser (appendSafetyEvent now ev a) = ag_pendingTurnUser a"
  "ag_tools (appendSafetyEvent now ev a) = ag_tools a"
  "ag_policy (appendSafetyEvent now ev a) = ag_policy a"
  "ag_executor (appendSafetyEvent now ev a) = ag_executor a"
  "ag_loopDetector (appendSafetyEvent now ev a) = ag_loopDetector a"
  by (simp_all add: appendSafetyEvent_def ensure_turn_def Let_def split: option.split prod.split)

lemma setTurnSnapshot_frame [simp]:
  "ag_conversation (setTurnSnapshot now st i a) = ag_conversation a"
  "ag_pendingActions (setTurnSnapshot now st i a) = ag_pendingActions a"
  "ag_deferredActions (setTurnSnapshot now st i a) = ag_deferredActions a"
  "ag_state (setTurnSnapshot now st i a) = ag_state a"
  "ag_pendingTurnUser (setTurnSnapshot now st i a) = ag_pendingTurnUser a"
  "ag_tools (setTurnSnapshot now st i a) = ag_tools a"
  "ag_loopDetector (setTurnSnapshot now st i a) = ag_loopDetector a"
  by (simp_all add: setTurnSnapshot_def split: option.split)

lemma ensureSnapshot_frame [simp]:
  "ag_conversation (fst (ensureSnapshotForActions now acts a)) = ag_conversation a"
  "ag_pendingActions (fst (ensureSnapshotForActions now acts a)) = ag_pendingActions a"
  "ag_deferredActions (fst (ensureSnapshotForActions now acts a)) = ag_deferredActions a"
  "ag_state (fst (ensureSnapshotForActions now acts a)) = ag_state a"
  "ag_pendingTurnUser (fst (ensureSnapshotForActions now acts a)) = ag_pendingTurnUser a"
  "ag_tools (fst (ensureSnapshotForActions now acts a)) = ag_tools a"
  "ag_loopDetector (fst (ensureSnapshotForActions now acts a)) = ag_loopDetector a"
  by (auto simp: ensureSnapshotForActions_def Let_def split: sum.split prod.split)

section \<open>Properties\<close>

lemma all_events_update:
  "i < length ts \<Longrightarrow> mset (concat (map ta_SafetyEvents (ts[i := t\<lparr>ta_SafetyEvents := ta_SafetyEvents (ts ! i) @ [ev]\<rparr>]))) =
     add_mset ev (mset (concat (map ta_SafetyEvents ts)))"
proof -
  assume i: "i < length ts"
  then have "ts = take i ts @ ts ! i # drop (Suc i) ts" by (simp add: id_take_nth_drop)
  then have "mset (concat (map ta_SafetyEvents ts)) =
      mset (concat (map ta_SafetyEvents (take i ts))) + mset (ta_SafetyEvents (ts ! i)) +
      mset (concat (map ta_SafetyEvents (drop (Suc i) ts)))"
    by (metis append_assoc concat.simps(2) concat_append list.simps(9) map_append mset_append)
  then show ?thesis by (simp add: upd_conv_take_nth_drop[OF i])
qed

text \<open>
  The audit log only grows: recording a safety decision adds exactly that event to the turn the
  agent is in, creating the turn if there is none, and no earlier event is lost or changed.
\<close>

theorem appendSafetyEvent_logs:
  "mset (all_events (appendSafetyEvent now ev a)) =
     add_mset (complete_event now (ag_turnSafety a) ev) (mset (all_events a)) \<and>
   (\<exists>i<length (ag_turns (appendSafetyEvent now ev a)).
      ta_ID (ag_turns (appendSafetyEvent now ev a) ! i) = ts_TurnID (ag_turnSafety (appendSafetyEvent now ev a)) \<and>
      complete_event now (ag_turnSafety a) ev = last (ta_SafetyEvents (ag_turns (appendSafetyEvent now ev a) ! i)))"
proof -
  obtain a' i where e: "ensure_turn now a = (a', i)" by fastforce
  let ?ev = "complete_event now (ag_turnSafety a) ev"
  let ?t = "(ag_turns a' ! i)\<lparr>ta_UpdatedAt := now, ta_SafetyEvents := ta_SafetyEvents (ag_turns a' ! i) @ [?ev]\<rparr>"
  have r: "ag_turns (appendSafetyEvent now ev a) = (ag_turns a')[i := ?t]"
    "ag_turnSafety (appendSafetyEvent now ev a) = ag_turnSafety a'"
    by (simp_all add: appendSafetyEvent_def e Let_def)
  note i = ensure_turn_idx[OF e]
  have "mset (all_events (appendSafetyEvent now ev a)) = add_mset ?ev (mset (all_events a'))"
    unfolding all_events_def r(1)
    using all_events_update[where i = i and ts = "ag_turns a'" and ev = ?ev
        and t = "(ag_turns a' ! i)\<lparr>ta_UpdatedAt := now\<rparr>"] i by simp
  with i show ?thesis by (auto simp: r intro!: exI[of _ i])
qed

text \<open>
  When an approved batch asks for a snapshot inside a git repository, execution goes on only if
  the snapshot exists, or the snapshot program is not installed: any other failure of the program
  is reported as an error, and marked on the turn.
\<close>

theorem snapshot_before_actions:
  assumes "list_ex (\<lambda>x. ad_RequiresSnapshot (pa_Decision x)) actions"
    and "isGitRepository (ag_executor a)" and "currentTurnIndex a = Some i"
    and "ensureSnapshotForActions now actions a = (a', err)"
  shows "if isCommandNotFound (ex_Exec (ag_executor a) snap_command) \<and> \<not> ts_SnapshotCreated (ag_turnSafety a)
         then err = None \<and> ta_SnapshotStatus (ag_turns a' ! i) = SnapshotStatusNotInstalled
         else (err = None \<longleftrightarrow> ts_SnapshotCreated (ag_turnSafety a')) \<and>
              (err \<noteq> None \<longrightarrow> ta_SnapshotStatus (ag_turns a' ! i) = SnapshotStatusFailed)"
proof -
  have t: "ts_TurnID (ag_turnSafety a) \<noteq> ''''"
      "last_index (\<lambda>t. ta_ID t = ts_TurnID (ag_turnSafety a)) (ag_turns a) = Some i"
    using assms(3) by (auto simp: currentTurnIndex_def split: if_splits)
  then have c: "currentTurnIndex (a\<lparr>ag_turnSafety := (ag_turnSafety a)\<lparr>ts_SnapshotAttempted := b\<rparr>\<rparr>) = Some i" for b
    by (simp add: currentTurnIndex_def)
  have i: "i < length (ag_turns a)" using last_index_Some[OF t(2)] by simp
  show ?thesis
    using assms(1,2,4) i
    by (auto simp: ensureSnapshotForActions_def Let_def setTurnSnapshot_def c
        split: if_splits sum.splits)
qed

definition snapshot_action :: PendingAction where
  "snapshot_action = \<lparr>pa_ToolCallID = ''c1'', pa_Name = ''edit'', pa_Arguments = ''{}'',
     pa_Decision = action_decision ExecutionDecisionAutoExecute SafetyDecisionSourceHardRule
       ''mutation in working directory'' ''low'' True '''', pa_Order = 0, pa_ToolCall = None\<rparr>"

definition git_agent :: "unit Agent" where
  "git_agent = startNewTurn 7 ''do it'' None (sample_agent\<lparr>ag_executor :=
     \<lparr>ex_WorkDir = ''/w'', ex_Exec = (\<lambda>cmd. Inr \<lparr>er_ExitCode = 0,
        er_Stdout = (if cmd = snap_command then ''abc'' else ''true''), er_Stderr = ''''\<rparr>)\<rparr>\<rparr>)"

theorem snapshot_before_actions_witness:
  "snd (ensureSnapshotForActions 9 [snapshot_action] git_agent) = None \<and>
   ts_SnapshotCreated (ag_turnSafety (fst (ensureSnapshotForActions 9 [snapshot_action] git_agent)))"
proof -
  have h: "list_ex (\<lambda>x. ad_RequiresSnapshot (pa_Decision x)) [snapshot_action]"
    "isGitRepository (ag_executor git_agent)" "currentTurnIndex git_agent = Some 0"
    "isCommandNotFound (ex_Exec (ag_executor git_agent) snap_command) = False"
    "snd (ensureSnapshotForActions 9 [snapshot_action] git_agent) = None"
    by code_simp+
  then show ?thesis
    using snapshot_before_actions[OF h(1-3), of 9] by (simp add: prod_eq_iff)
qed

end
