(* ===== verification/Agent_Actions.thy ===== *)
theory Agent_Actions
  imports Agent_Audit
begin

text \<open>
  Executing and resolving batches of tool calls (\<open>core/agent/agent.go\<close>, \<open>middleware.go\<close>,
  \<open>snapshot_recovery.go\<close>): results for skipped and interrupted calls, ordering, the execution of a
  batch with its concurrent groups and its interruption by steering input, approval, denial and
  submission.

  What a tool does is an environment that answers each invocation (middleware chain and tool
  included); the durable start record may fail.  Steering can interrupt a batch at any time: the
  environment says whether the interrupt flag was set when a group was about to start, when an
  action completed and at the end.  The flag is never cleared during a batch, so a batch is treated
  as interrupted at the end if it was seen set at any earlier point.
\<close>

section \<open>Synthetic results\<close>

definition denied_result :: "string \<Rightarrow> string \<Rightarrow> string \<Rightarrow> ToolResult" where
  "denied_result callID toolName reason =
     zero_ToolResult\<lparr>tr_ToolCallID := callID, tr_ToolName := toolName,
       tr_Type := ToolResultTypeExecutionDenied, tr_Reason := reason, tr_IsError := True\<rparr>"

definition interruptedToolResult :: "string \<Rightarrow> string \<Rightarrow> ToolResult" where
  "interruptedToolResult callID toolName = denied_result callID toolName ''interrupted_by_steering''"

definition interruptedToolResults :: "ToolCall list \<Rightarrow> ToolResult list" where
  "interruptedToolResults calls = map (\<lambda>c. interruptedToolResult (tc_ID c) (tc_Name c)) calls"

definition interruptedActionResults :: "PendingAction list \<Rightarrow> ToolResult list" where
  "interruptedActionResults actions = map (\<lambda>x. interruptedToolResult (pa_ToolCallID x) (pa_Name x)) actions"

definition interruptedActionResultsPreservingCompleted ::
    "PendingAction list \<Rightarrow> ToolResult list \<Rightarrow> string set \<Rightarrow> ToolResult list" where
  "interruptedActionResultsPreservingCompleted actions results completed =
     map (\<lambda>(i, x). if pa_ToolCallID x \<in> completed \<and> i < length results then results ! i
                   else interruptedToolResult (pa_ToolCallID x) (pa_Name x))
       (enumerate 0 actions)"

definition skippedToolResult :: "PendingAction \<Rightarrow> string \<Rightarrow> ToolResult" where
  "skippedToolResult action reason =
     denied_result (pa_ToolCallID action) (pa_Name action)
       (''Skipped because '' @
        (if reason = '''' then ''another tool call in the batch was denied'' else reason))"

definition commonDenialReason :: "string list \<Rightarrow> string" where
  "commonDenialReason reasons =
     (case dropWhile (\<lambda>r. TrimSpace r = '''') reasons of
        [] \<Rightarrow> ''another tool call in the batch was denied''
      | r # _ \<Rightarrow> TrimSpace r)"

section \<open>Ordering\<close>

definition orderedActions :: "PendingAction list \<Rightarrow> PendingAction list" where
  "orderedActions actions = sort_key pa_Order actions"

text \<open>The maps from call ids to positions, with Go's zero value for a missing key.\<close>

definition order_by_id :: "PendingAction list \<Rightarrow> string \<Rightarrow> int" where
  "order_by_id actions i =
     (case map_of (rev (map (\<lambda>x. (pa_ToolCallID x, pa_Order x)) actions)) i of None \<Rightarrow> 0 | Some k \<Rightarrow> k)"

definition merge_order :: "PendingAction list \<Rightarrow> ToolResult list \<Rightarrow> string \<Rightarrow> int" where
  "merge_order deferred outputs i =
     (case map_of (rev (map (\<lambda>x. (pa_ToolCallID x, pa_Order x)) deferred)) i of
        Some k \<Rightarrow> k
      | None \<Rightarrow> (case index_of ((=) i) (map tr_ToolCallID outputs) of
                   Some k \<Rightarrow> int (length deferred + k) | None \<Rightarrow> 0))"

definition mergeDeferredSkippedResults ::
    "PendingAction list \<Rightarrow> ToolResult list \<Rightarrow> string \<Rightarrow> ToolResult list" where
  "mergeDeferredSkippedResults deferred outputs reason =
     sort_key (\<lambda>r. merge_order deferred outputs (tr_ToolCallID r))
       ((if reason = ''interrupted_by_steering'' then interruptedActionResults deferred
         else map (\<lambda>x. skippedToolResult x reason) deferred) @ outputs)"

definition sortToolResultsByActionOrder :: "ToolResult list \<Rightarrow> PendingAction list \<Rightarrow> ToolResult list" where
  "sortToolResultsByActionOrder results actions =
     sort_key (\<lambda>r. order_by_id actions (tr_ToolCallID r)) results"

section \<open>One action\<close>

text \<open>
  What an invocation returns: a ready result, text with metadata, a string, a list (of strings, or
  of values already rendered), or any other value already rendered.  \<open>formatToolOutput\<close> is never
  called on a ready result.
\<close>

datatype tool_error = ToolExecutionDenied string | ToolError string

datatype tool_output =
  OutResult ToolResult
| OutWithMetadata string "(string \<times> goany) list"
| OutString string
| OutStrings "string list"
| OutValue string

definition toolExecutionDenialReason :: "tool_error \<Rightarrow> string option" where
  "toolExecutionDenialReason e =
     (case e of
        ToolExecutionDenied r \<Rightarrow> Some (let r = TrimSpace r in if r \<noteq> '''' then r else ''tool execution denied'')
      | ToolError _ \<Rightarrow> None)"

definition formatToolOutput :: "tool_output \<Rightarrow> string" where
  "formatToolOutput v =
     (case v of
        OutWithMetadata t _ \<Rightarrow> t
      | OutString s \<Rightarrow> s
      | OutStrings ls \<Rightarrow> Join ls [CHR 0x0A]
      | OutValue s \<Rightarrow> s
      | OutResult r \<Rightarrow> tr_Text r)"

definition toolResultMetadata :: "tool_output \<Rightarrow> (string \<times> goany) list" where
  "toolResultMetadata v = (case v of OutWithMetadata _ md \<Rightarrow> md | _ \<Rightarrow> [])"

record tool_env =
  te_record_start :: "PendingAction \<Rightarrow> string option"
  te_invoke :: "PendingAction \<Rightarrow> tool_error + tool_output"
  te_reminder :: "ToolResult list \<Rightarrow> string"
  te_ctx_err :: "string option"
  te_irq_start :: "nat \<Rightarrow> bool"
  te_irq_done :: "nat \<Rightarrow> bool"
  te_irq_end :: bool

definition invoke_result :: "tool_error + tool_output \<Rightarrow> PendingAction \<Rightarrow> string \<Rightarrow> ToolResult" where
  "invoke_result out action warning =
     (case out of
        Inl e \<Rightarrow>
          (case toolExecutionDenialReason e of
             Some reason \<Rightarrow> denied_result (pa_ToolCallID action) (pa_Name action) reason
           | None \<Rightarrow>
               (NewTextToolResult (pa_ToolCallID action)
                  (warning @ ''Error: '' @ (case e of ToolError m \<Rightarrow> m | ToolExecutionDenied m \<Rightarrow> m)) True)
                 \<lparr>tr_ToolName := pa_Name action\<rparr>)
      | Inr (OutResult tr) \<Rightarrow>
          (let tr = tr\<lparr>tr_ToolCallID := pa_ToolCallID action, tr_ToolName := pa_Name action\<rparr> in
           if warning = '''' then tr
           else if tr_Type tr = ToolResultTypeContent
           then tr\<lparr>tr_Content := \<lparr>trc_Type = ContentTypeText, trc_Text = warning, trc_Image = None\<rparr> # tr_Content tr\<rparr>
           else tr\<lparr>tr_Text := warning @ tr_Text tr\<rparr>)
      | Inr v \<Rightarrow>
          (NewTextToolResult (pa_ToolCallID action) (warning @ formatToolOutput v) False)
            \<lparr>tr_ToolName := pa_Name action, tr_Metadata := toolResultMetadata v\<rparr>)"

text \<open>The result of an action, and whether its invocation was started.\<close>

definition executePendingAction :: "(string \<rightharpoonup> Tool) \<Rightarrow> tool_env \<Rightarrow> PendingAction \<Rightarrow> string \<Rightarrow> ToolResult \<times> bool" where
  "executePendingAction tls env action warning =
     (if ad_Decision (pa_Decision action) = ExecutionDecisionBlock
      then (denied_result (pa_ToolCallID action) (pa_Name action) (ad_Reason (pa_Decision action)), False)
      else case tls (pa_Name action) of
        None \<Rightarrow>
          ((NewTextToolResult (pa_ToolCallID action)
             (warning @ ''Error: Tool '' @ pa_Name action @ '' not found'') True)
             \<lparr>tr_ToolName := pa_Name action\<rparr>, False)
      | Some _ \<Rightarrow>
          (case te_record_start env action of
             Some e \<Rightarrow>
               ((NewTextToolResult (pa_ToolCallID action)
                  (warning @ ''Error: record durable tool execution start: '' @ e) True)
                  \<lparr>tr_ToolName := pa_Name action\<rparr>, False)
           | None \<Rightarrow> (invoke_result (te_invoke env action) action warning, True)))"

definition recordLoopWarning :: "(string \<Rightarrow> string) \<Rightarrow> LoopDetector \<Rightarrow> PendingAction \<Rightarrow> LoopDetector \<times> string" where
  "recordLoopWarning sum8 d action =
     (let (d', status) = RecordCall sum8 d (pa_Name action) (pa_Arguments action)
      in (d', if \<not> ls_IsLooping status then ''''
              else ''<system-reminder>'' @ [CHR 0x0A] @ ''Loop detected: '' @ ls_Pattern status @ [CHR 0x0A] @
                   ''Suggestion: '' @ ls_Suggestion status @ [CHR 0x0A] @
                   ''Proceeding with execution anyway.'' @ [CHR 0x0A] @ ''</system-reminder>'' @
                   [CHR 0x0A, CHR 0x0A]))"

definition isApprovedReadOnlySubagent :: "PendingAction \<Rightarrow> bool" where
  "isApprovedReadOnlySubagent action \<longleftrightarrow>
     ad_Decision (pa_Decision action) = ExecutionDecisionRequireApproval \<and> pa_Name action = ''spawn'' \<and>
     (case unmarshal_object (pa_Arguments action) of
        None \<Rightarrow> False
      | Some ps \<Rightarrow> store_string_field ''agent_type'' ps '''' = Some ''explore'')"

definition canRunActionConcurrently :: "PendingAction \<Rightarrow> bool" where
  "canRunActionConcurrently action \<longleftrightarrow>
     \<not> ad_RequiresSnapshot (pa_Decision action) \<and>
     (ad_Decision (pa_Decision action) = ExecutionDecisionAutoExecute \<and>
      ad_RiskLevel (pa_Decision action) = level_String LevelSafe \<or>
      isApprovedReadOnlySubagent action)"

section \<open>A batch\<close>

record run_state =
  rs_detector :: LoopDetector
  rs_results :: "ToolResult list"
  rs_completed :: "string set"
  rs_started :: "PendingAction list"
  rs_interrupted :: bool

definition record_warnings :: "(string \<Rightarrow> string) \<Rightarrow> LoopDetector \<Rightarrow> PendingAction list \<Rightarrow> LoopDetector \<times> string list" where
  "record_warnings sum8 d actions =
     foldl (\<lambda>(d, ws) x. let (d', w) = recordLoopWarning sum8 d x in (d', ws @ [w])) (d, []) actions"

text \<open>\<open>completeToolAction\<close>: a failed action does not count as completed once the run is interrupted.\<close>

definition completeToolAction :: "tool_env \<Rightarrow> nat \<Rightarrow> PendingAction \<Rightarrow> ToolResult \<Rightarrow> string set" where
  "completeToolAction env i action res =
     (if \<not> te_irq_done env i \<or> \<not> tr_IsError res then {pa_ToolCallID action} else {})"

text \<open>
  A group of actions, each with its own result slot; the slots of a concurrent group do not depend
  on the order in which its members run.
\<close>

fun executePendingActionGroup :: "(string \<rightharpoonup> Tool) \<Rightarrow> tool_env \<Rightarrow> nat \<Rightarrow> PendingAction list \<Rightarrow> string list
    \<Rightarrow> run_state \<Rightarrow> run_state" where
  "executePendingActionGroup tls env i (x # xs) (w # ws) rs =
     (let (res, started) = executePendingAction tls env x w in
      executePendingActionGroup tls env (Suc i) xs ws
        (rs\<lparr>rs_results := rs_results rs @ [res],
            rs_completed := rs_completed rs \<union> completeToolAction env i x res,
            rs_started := rs_started rs @ (if started then [x] else []),
            rs_interrupted := (rs_interrupted rs \<or> te_irq_done env i)\<rparr>))"
| "executePendingActionGroup tls env i _ _ rs = rs"

text \<open>The first group of a non-empty list: a run of concurrent actions, or one action.\<close>

definition next_group :: "PendingAction list \<Rightarrow> PendingAction list \<times> PendingAction list" where
  "next_group xs =
     (case xs of
        [] \<Rightarrow> ([], [])
      | x # ys \<Rightarrow>
          if canRunActionConcurrently x
          then (x # takeWhile canRunActionConcurrently ys, dropWhile canRunActionConcurrently ys)
          else ([x], ys))"

lemma next_group_append: "next_group xs = (g, r) \<Longrightarrow> g @ r = xs"
  by (auto simp: next_group_def split: list.splits if_splits)

lemma next_group_shrinks: "next_group (x # xs) = (g, r) \<Longrightarrow> length r \<le> length xs"
  by (auto simp: next_group_def length_dropWhile_le split: if_splits)

function execute_groups :: "(string \<Rightarrow> string) \<Rightarrow> (string \<rightharpoonup> Tool) \<Rightarrow> tool_env \<Rightarrow> nat \<Rightarrow> PendingAction list
    \<Rightarrow> run_state \<Rightarrow> run_state" where
  "execute_groups sum8 tls env i [] rs = rs"
| "execute_groups sum8 tls env i (x # xs) rs =
     (if te_irq_start env i then rs\<lparr>rs_interrupted := True\<rparr>
      else
        (let (g, r) = next_group (x # xs);
             (d, ws) = record_warnings sum8 (rs_detector rs) g
         in execute_groups sum8 tls env (i + length g) r
              (executePendingActionGroup tls env i g ws (rs\<lparr>rs_detector := d\<rparr>))))"
  by pat_completeness auto
termination
proof (relation "measure (\<lambda>(s, tls, env, i, xs, rs). length xs)", goal_cases)
  case (2 sum8 tls env i x xs rs gr g r dws d ws)
  have "next_group (x # xs) = (g, r)"
    using 2 by simp
  from next_group_shrinks[OF this] show ?case by simp
qed simp

definition add_reminder :: "tool_env \<Rightarrow> ToolResult list \<Rightarrow> ToolResult list" where
  "add_reminder env results =
     (if results = [] then []
      else butlast results @ [(last results)\<lparr>tr_Text := tr_Text (last results) @ te_reminder env results\<rparr>])"

text \<open>
  \<open>executeActions\<close>: the next agent, and an error or the results with the actions that were started.
\<close>

definition executeActions :: "(string \<Rightarrow> string) \<Rightarrow> time \<Rightarrow> tool_env \<Rightarrow> PendingAction list \<Rightarrow> bool \<Rightarrow> 'r Agent
    \<Rightarrow> 'r Agent \<times> (string + ToolResult list \<times> PendingAction list)" where
  "executeActions sum8 now env actions ensureSnapshot a =
     (if ag_pendingTurnUser a \<noteq> [] then (a, Inr (interruptedActionResults actions, []))
      else
        (let (a, snapErr) = (if ensureSnapshot then ensureSnapshotForActions now actions a else (a, None));
             early = (case snapErr of Some e \<Rightarrow> Some e | None \<Rightarrow> te_ctx_err env)
         in case early of
              Some e \<Rightarrow>
                (a, if te_irq_end env
                    then Inr (interruptedActionResultsPreservingCompleted actions [] {}, []) else Inl e)
            | None \<Rightarrow>
                (let rs = execute_groups sum8 (ag_tools a) env 0 actions
                       \<lparr>rs_detector = ag_loopDetector a, rs_results = [], rs_completed = {}, rs_started = [],
                        rs_interrupted = False\<rparr>;
                     results = add_reminder env (rs_results rs @
                       replicate (length actions - length (rs_results rs)) zero_ToolResult)
                 in (a\<lparr>ag_loopDetector := rs_detector rs\<rparr>,
                     Inr (if rs_interrupted rs \<or> te_irq_end env
                          then interruptedActionResultsPreservingCompleted actions results (rs_completed rs)
                          else results,
                          rs_started rs)))))"

section \<open>Every call is answered once\<close>

lemma denied_result_sel [simp]:
  "tr_ToolCallID (denied_result i n r) = i" "tr_ToolName (denied_result i n r) = n"
  "tr_Reason (denied_result i n r) = r" "tr_IsError (denied_result i n r)"
  "tr_Type (denied_result i n r) = ToolResultTypeExecutionDenied"
  by (simp_all add: denied_result_def)

lemma NewTextToolResult_id [simp]: "tr_ToolCallID (NewTextToolResult i t e) = i"
  by (simp add: NewTextToolResult_def)

lemma synthetic_ids [simp]:
  "tr_ToolCallID (interruptedToolResult i n) = i"
  "tr_ToolCallID (skippedToolResult x r) = pa_ToolCallID x"
  "map tr_ToolCallID (interruptedActionResults xs) = map pa_ToolCallID xs"
  "map tr_ToolCallID (interruptedToolResults cs) = map tc_ID cs"
  by (simp_all add: interruptedToolResult_def skippedToolResult_def interruptedActionResults_def
      interruptedToolResults_def)

lemma invoke_result_id [simp]: "tr_ToolCallID (invoke_result out x w) = pa_ToolCallID x"
  by (auto simp: invoke_result_def Let_def split: sum.split option.split tool_output.split)

lemma executePendingAction_id [simp]: "tr_ToolCallID (fst (executePendingAction tls env x w)) = pa_ToolCallID x"
  by (simp add: executePendingAction_def split: option.split)

lemma skippedToolResult_type: "tr_Type (skippedToolResult x r) = ToolResultTypeExecutionDenied"
  by (simp add: skippedToolResult_def)

text \<open>What must hold of an action whose invocation was started.\<close>

definition startable :: "(string \<rightharpoonup> Tool) \<Rightarrow> tool_env \<Rightarrow> PendingAction \<Rightarrow> bool" where
  "startable tls env x \<longleftrightarrow>
     ad_Decision (pa_Decision x) \<noteq> ExecutionDecisionBlock \<and> pa_Name x \<in> dom tls \<and> te_record_start env x = None"

lemma executePendingAction_started: "snd (executePendingAction tls env x w) \<longleftrightarrow> startable tls env x"
  by (auto simp: executePendingAction_def startable_def split: option.split)

lemma record_warnings_length: "length (snd (record_warnings s d xs)) = length xs"
  by (induction xs rule: rev_induct) (simp_all add: record_warnings_def split_beta Let_def)

lemma group_Cons:
  "executePendingActionGroup tls env i (x # xs) (w # ws) rs =
     executePendingActionGroup tls env (Suc i) xs ws
       (rs\<lparr>rs_results := rs_results rs @ [fst (executePendingAction tls env x w)],
           rs_completed := rs_completed rs \<union> completeToolAction env i x (fst (executePendingAction tls env x w)),
           rs_started := rs_started rs @ (if startable tls env x then [x] else []),
           rs_interrupted := (rs_interrupted rs \<or> te_irq_done env i)\<rparr>)"
  by (simp add: split_beta executePendingAction_started)

lemma completeToolAction_subset: "completeToolAction env i x res \<subseteq> {pa_ToolCallID x}"
  by (simp add: completeToolAction_def)

lemma group_results:
  assumes "length ws = length g"
  shows "map tr_ToolCallID (rs_results (executePendingActionGroup tls env i g ws rs)) =
      map tr_ToolCallID (rs_results rs) @ map pa_ToolCallID g"
  using assms
  by (induction ws g arbitrary: i rs rule: list_induct2) (simp_all add: group_Cons del: executePendingActionGroup.simps(1))

lemma group_completed:
  assumes "length ws = length g"
  shows "rs_completed (executePendingActionGroup tls env i g ws rs) \<subseteq> rs_completed rs \<union> pa_ToolCallID ` set g"
  using assms
proof (induction ws g arbitrary: i rs rule: list_induct2)
  case (Cons w ws x xs)
  show ?case
    unfolding group_Cons by (rule order.trans[OF Cons.IH]) (auto dest: subsetD[OF completeToolAction_subset])
qed simp

lemma group_started:
  assumes "length ws = length g"
  shows "set (rs_started (executePendingActionGroup tls env i g ws rs)) =
      set (rs_started rs) \<union> {x \<in> set g. startable tls env x}"
  using assms
  by (induction ws g arbitrary: i rs rule: list_induct2) (auto simp: group_Cons simp del: executePendingActionGroup.simps(1))

lemma groups_results:
  "\<exists>k\<le>length xs. map tr_ToolCallID (rs_results (execute_groups s tls env i xs rs)) =
       map tr_ToolCallID (rs_results rs) @ map pa_ToolCallID (take k xs) \<and>
     rs_completed (execute_groups s tls env i xs rs) \<subseteq> rs_completed rs \<union> pa_ToolCallID ` set (take k xs) \<and>
     (rs_interrupted (execute_groups s tls env i xs rs) \<or> k = length xs) \<and>
     set (rs_started (execute_groups s tls env i xs rs)) = set (rs_started rs) \<union> {x \<in> set (take k xs). startable tls env x}"
proof (induction s tls env i xs rs rule: execute_groups.induct)
  case (2 sum8 tls env i x xs rs)
  show ?case
  proof (cases "te_irq_start env i")
    case True
    then show ?thesis by (intro exI[of _ 0]) simp
  next
    case False
    obtain g r where gr: "next_group (x # xs) = (g, r)" by fastforce
    obtain d ws where dw: "record_warnings sum8 (rs_detector rs) g = (d, ws)" by fastforce
    have len: "length ws = length g"
      using record_warnings_length[of sum8 "rs_detector rs" g] dw by simp
    let ?rs = "executePendingActionGroup tls env i g ws (rs\<lparr>rs_detector := d\<rparr>)"
    have step: "execute_groups sum8 tls env i (x # xs) rs = execute_groups sum8 tls env (i + length g) r ?rs"
      using False gr dw by simp
    obtain k where k: "k \<le> length r" "map tr_ToolCallID (rs_results (execute_groups sum8 tls env (i + length g) r ?rs)) =
        map tr_ToolCallID (rs_results ?rs) @ map pa_ToolCallID (take k r)"
      "rs_completed (execute_groups sum8 tls env (i + length g) r ?rs) \<subseteq> rs_completed ?rs \<union> pa_ToolCallID ` set (take k r)"
      "rs_interrupted (execute_groups sum8 tls env (i + length g) r ?rs) \<or> k = length r"
      "set (rs_started (execute_groups sum8 tls env (i + length g) r ?rs)) =
        set (rs_started ?rs) \<union> {x \<in> set (take k r). startable tls env x}"
      using "2.IH"[OF False gr[symmetric] refl dw[symmetric] refl] by blast
    have xs: "x # xs = g @ r" using next_group_append[OF gr] by simp
    show ?thesis
      unfolding step unfolding xs
      using k group_results[OF len, of tls env i "rs\<lparr>rs_detector := d\<rparr>"]
        group_completed[OF len, of tls env i "rs\<lparr>rs_detector := d\<rparr>"]
        group_started[OF len, of tls env i "rs\<lparr>rs_detector := d\<rparr>"]
      by (intro exI[of _ "length g + k"]) auto
  qed
qed simp

lemma add_reminder_ids [simp]:
  "map tr_ToolCallID (add_reminder env rs) = map tr_ToolCallID rs" "length (add_reminder env rs) = length rs"
proof -
  show "map tr_ToolCallID (add_reminder env rs) = map tr_ToolCallID rs"
    by (cases rs rule: rev_cases) (simp_all add: add_reminder_def)
  then show "length (add_reminder env rs) = length rs" by (metis length_map)
qed

lemma preserving_ids:
  assumes "distinct (map pa_ToolCallID xs)" "k \<le> length xs"
    and "take k (map tr_ToolCallID results) = map pa_ToolCallID (take k xs)"
    and "completed \<subseteq> pa_ToolCallID ` set (take k xs)" "k \<le> length results"
  shows "map tr_ToolCallID (interruptedActionResultsPreservingCompleted xs results completed) = map pa_ToolCallID xs"
proof (rule nth_equalityI)
  show "length (map tr_ToolCallID (interruptedActionResultsPreservingCompleted xs results completed)) =
      length (map pa_ToolCallID xs)"
    by (simp add: interruptedActionResultsPreservingCompleted_def)
next
  fix i assume "i < length (map tr_ToolCallID (interruptedActionResultsPreservingCompleted xs results completed))"
  then have i: "i < length xs" by (simp add: interruptedActionResultsPreservingCompleted_def)
  have "tr_ToolCallID (results ! i) = pa_ToolCallID (xs ! i)" if c: "pa_ToolCallID (xs ! i) \<in> completed"
  proof -
    from c assms(2,4) obtain j where j: "j < k" "pa_ToolCallID (xs ! i) = pa_ToolCallID (xs ! j)"
      by (auto simp: set_conv_nth)
    with assms(1,2) i have "i = j" by (simp add: distinct_conv_nth) (metis order.strict_trans2)
    with j(1) assms(3,5) show ?thesis
      by (metis (no_types, lifting) i length_take min.absorb2 nth_map nth_take order.strict_trans2 take_map)
  qed
  with i show "map tr_ToolCallID (interruptedActionResultsPreservingCompleted xs results completed) ! i =
      map pa_ToolCallID xs ! i"
    by (simp add: interruptedActionResultsPreservingCompleted_def nth_enumerate_eq)
qed

lemma groups_from_start:
  assumes "rs = execute_groups s tls env 0 xs
     \<lparr>rs_detector = d, rs_results = [], rs_completed = {}, rs_started = [], rs_interrupted = False\<rparr>"
  obtains k where "k \<le> length xs" "map tr_ToolCallID (rs_results rs) = map pa_ToolCallID (take k xs)"
    "rs_completed rs \<subseteq> pa_ToolCallID ` set (take k xs)" "rs_interrupted rs \<or> k = length xs"
    "set (rs_started rs) = {x \<in> set (take k xs). startable tls env x}"
  using groups_results[of xs s tls env 0 "\<lparr>rs_detector = d, rs_results = [], rs_completed = {},
      rs_started = [], rs_interrupted = False\<rparr>"]
  unfolding assms[symmetric] by auto

lemma executeActions_cases:
  assumes "executeActions s now env xs snap a = (a', Inr (results, started))"
  obtains (interrupted) "results = interruptedActionResults xs" "started = []"
  | (early) "results = interruptedActionResultsPreservingCompleted xs [] {}" "started = []"
  | (run) rs full where
      "rs = execute_groups s (ag_tools a) env 0 xs
         \<lparr>rs_detector = ag_loopDetector a, rs_results = [], rs_completed = {}, rs_started = [],
          rs_interrupted = False\<rparr>"
      "full = add_reminder env (rs_results rs @ replicate (length xs - length (rs_results rs)) zero_ToolResult)"
      "results = (if rs_interrupted rs \<or> te_irq_end env
         then interruptedActionResultsPreservingCompleted xs full (rs_completed rs) else full)"
      "started = rs_started rs"
proof (cases "ag_pendingTurnUser a = []")
  case True
  define b where "b = (if snap then ensureSnapshotForActions now xs a else (a, None))"
  have tools: "ag_tools (fst b) = ag_tools a" "ag_loopDetector (fst b) = ag_loopDetector a"
    by (simp_all add: b_def)
  have eq: "executeActions s now env xs snap a =
      (case (case snd b of Some e \<Rightarrow> Some e | None \<Rightarrow> te_ctx_err env) of
         Some e \<Rightarrow> (fst b, if te_irq_end env
            then Inr (interruptedActionResultsPreservingCompleted xs [] {}, []) else Inl e)
       | None \<Rightarrow>
           (let rs = execute_groups s (ag_tools a) env 0 xs
                  \<lparr>rs_detector = ag_loopDetector a, rs_results = [], rs_completed = {}, rs_started = [],
                   rs_interrupted = False\<rparr>;
                results = add_reminder env (rs_results rs @
                  replicate (length xs - length (rs_results rs)) zero_ToolResult)
            in ((fst b)\<lparr>ag_loopDetector := rs_detector rs\<rparr>,
                Inr (if rs_interrupted rs \<or> te_irq_end env
                     then interruptedActionResultsPreservingCompleted xs results (rs_completed rs)
                     else results, rs_started rs))))"
    unfolding executeActions_def b_def[symmetric]
    using True tools by (simp add: split_beta Let_def split: option.split)
  show ?thesis
  proof (cases "case snd b of Some e \<Rightarrow> Some e | None \<Rightarrow> te_ctx_err env")
    case None
    show ?thesis by (rule run) (use assms None in \<open>auto simp: eq Let_def\<close>)
  next
    case (Some e)
    show ?thesis by (rule early) (use assms Some in \<open>auto simp: eq split: if_splits\<close>)
  qed
qed (use assms interrupted in \<open>auto simp: executeActions_def\<close>)

lemma executeActions_ids:
  assumes "distinct (map pa_ToolCallID actions)"
    and "executeActions sum8 now env actions snap a = (a', Inr (results, started))"
  shows "map tr_ToolCallID results = map pa_ToolCallID actions"
  using assms(2)
proof (cases rule: executeActions_cases)
  case interrupted
  then show ?thesis by simp
next
  case early
  then show ?thesis using preserving_ids[OF assms(1), of 0 "[]" "{}"] by simp
next
  case (run rs full)
  obtain k where k: "k \<le> length actions"
      "map tr_ToolCallID (rs_results rs) = map pa_ToolCallID (take k actions)"
      "rs_completed rs \<subseteq> pa_ToolCallID ` set (take k actions)"
      "rs_interrupted rs \<or> k = length actions"
    by (rule groups_from_start[OF run(1)])
  have "length (rs_results rs) = k" using arg_cong[OF k(2), of length] k(1) by simp
  then have full: "take k (map tr_ToolCallID full) = map pa_ToolCallID (take k actions)"
      "length full = length actions" "k = length actions \<Longrightarrow> map tr_ToolCallID full = map pa_ToolCallID actions"
    unfolding run(2) using k(1,2) by simp_all
  show ?thesis
    using run(3) k full preserving_ids[OF assms(1) k(1) full(1) k(3)] by auto
qed

text \<open>
  C9. Executing a batch answers every call exactly once and in order, whatever the tools return and
  whenever the batch is interrupted by steering input: the results carry the ids of the actions,
  one for one.
\<close>

theorem executeActions_answers_all:
  assumes "distinct (map pa_ToolCallID actions)"
    and "executeActions sum8 now env actions snap a = (a', Inr (results, started))"
  shows "map tr_ToolCallID results = map pa_ToolCallID actions"
  using assms by (rule executeActions_ids)

lemma executeActions_started:
  assumes "executeActions sum8 now env actions snap a = (a', Inr (results, started))"
    and "x \<in> set started"
  shows "x \<in> set actions \<and> ad_Decision (pa_Decision x) \<noteq> ExecutionDecisionBlock \<and>
    pa_Name x \<in> dom (ag_tools a) \<and> te_record_start env x = None"
  using assms(1)
proof (cases rule: executeActions_cases)
  case (run rs full)
  obtain k where "set (rs_started rs) = {x \<in> set (take k actions). startable (ag_tools a) env x}"
    by (rule groups_from_start[OF run(1)])
  with assms(2) run(4) show ?thesis by (auto simp: startable_def dest: in_set_takeD)
qed (use assms(2) in simp_all)

text \<open>
  C10. No side effect without permission and a durable mark: every action of a batch whose
  invocation was started was not blocked, names a registered tool, and had its start recorded.
\<close>

theorem executeActions_started_permitted:
  assumes "executeActions sum8 now env actions snap a = (a', Inr (results, started))"
    and "x \<in> set started"
  shows "x \<in> set actions \<and> ad_Decision (pa_Decision x) \<noteq> ExecutionDecisionBlock \<and>
    pa_Name x \<in> dom (ag_tools a) \<and> te_record_start env x = None"
  using assms by (rule executeActions_started)

section \<open>Submitting outputs\<close>

datatype action_error =
  NotPaused | NotBypassed | RecordToolOutputs conversation_error | ActionFailed string

definition markDurabilityFailed :: "'r Agent \<Rightarrow> 'r Agent" where
  "markDurabilityFailed a =
     a\<lparr>ag_pendingActions := [], ag_deferredActions := [], ag_state := StateDurabilityFailed\<rparr>"

definition audit_event :: "string \<Rightarrow> string \<Rightarrow> SafetyDecisionSource \<Rightarrow> SafetyClassifierDecision \<Rightarrow> string
    \<Rightarrow> string \<Rightarrow> string \<Rightarrow> AuditEvent" where
  "audit_event callID toolName src dec reason userPrompt trigger =
     \<lparr>ae_Timestamp = 0, ae_TurnID = '''', ae_ToolCallID = callID, ae_ToolName = toolName,
      ae_ToolArgsSummary = '''', ae_DecisionSource = src, ae_Decision = dec, ae_Reason = reason,
      ae_RiskLevel = '''', ae_SnapshotStatus = SnapshotStatusNotNeeded, ae_SnapshotID = '''',
      ae_ClassifierProvider = '''', ae_ClassifierModel = '''',
      ae_ContextSummary = \<lparr>ac_UserPrompt = userPrompt, ac_RecentActions = [], ac_Trigger = trigger,
        ac_RequestContext = None\<rparr>, ae_RawContext = ''''\<rparr>"

definition audit_denials :: "time \<Rightarrow> ToolResult list \<Rightarrow> 'r Agent \<Rightarrow> 'r Agent" where
  "audit_denials now outputs a =
     foldl (\<lambda>a out. if tr_Type out \<noteq> ToolResultTypeExecutionDenied then a
        else appendSafetyEvent now (audit_event (tr_ToolCallID out) (tr_ToolName out)
               SafetyDecisionSourceUserApproval SafetyClassifierDecisionDeny (tr_Reason out)
               (ts_CurrentUserPrompt (ag_turnSafety a)) ''pending action denied'') a) a outputs"

text \<open>
  Up to the point where the turn loop is entered again; the recorded outputs are returned.
\<close>

definition submitToolOutputs :: "'r record_fn \<Rightarrow> time \<Rightarrow> ToolResult list \<Rightarrow> bool \<Rightarrow> bool \<Rightarrow> 'r Agent
    \<Rightarrow> 'r Agent \<times> (action_error + ToolResult list)" where
  "submitToolOutputs rec now outputs mergeDeferred toolsExecuted a =
     (if ag_state a \<noteq> StatePaused then (a, Inl NotPaused)
      else
        (let outputs = (if mergeDeferred \<and> ag_deferredActions a \<noteq> []
               then mergeDeferredSkippedResults (ag_deferredActions a) outputs
                      ''another tool call in the batch was denied''
               else outputs);
             (conv, err) = appendMessages rec (ag_conversation a) [NewToolMessage now outputs];
             a = a\<lparr>ag_conversation := conv\<rparr>
         in case err of
              Some e \<Rightarrow> (if toolsExecuted then markDurabilityFailed a else a, Inl (RecordToolOutputs e))
            | None \<Rightarrow>
                (audit_denials now outputs
                   (a\<lparr>ag_pendingActions := [], ag_deferredActions := [], ag_state := StateRunning\<rparr>),
                 Inr outputs)))"

definition executeResolvedPendingActions :: "(string \<Rightarrow> string) \<Rightarrow> 'r record_fn \<Rightarrow> time \<Rightarrow> tool_env
    \<Rightarrow> PendingAction list \<Rightarrow> bool \<Rightarrow> 'r Agent \<Rightarrow> 'r Agent \<times> (action_error + ToolResult list)" where
  "executeResolvedPendingActions sum8 rec now env actions ensureSnapshot a =
     (case executeActions sum8 now env actions ensureSnapshot a of
        (a', Inl e) \<Rightarrow> (a', Inl (ActionFailed e))
      | (a', Inr (results, started)) \<Rightarrow> submitToolOutputs rec now results True (started \<noteq> []) a')"

section \<open>Resolving a paused batch\<close>

definition approval_event :: "'r Agent \<Rightarrow> PendingAction \<Rightarrow> AuditEvent" where
  "approval_event a x =
     (audit_event (pa_ToolCallID x) (pa_Name x) SafetyDecisionSourceUserApproval
        SafetyClassifierDecisionAllow ''user approved action'' (ts_CurrentUserPrompt (ag_turnSafety a))
        ''user approved pending action'')
       \<lparr>ae_ToolArgsSummary := summarizeText (pa_Arguments x) 240, ae_RiskLevel := ad_RiskLevel (pa_Decision x)\<rparr>"

definition ApproveAndExecutePendingActions :: "(string \<Rightarrow> string) \<Rightarrow> 'r record_fn \<Rightarrow> time \<Rightarrow> tool_env
    \<Rightarrow> 'r Agent \<Rightarrow> 'r Agent \<times> (action_error + ToolResult list)" where
  "ApproveAndExecutePendingActions sum8 rec now env a =
     (if ag_state a \<noteq> StatePaused \<or> ag_pendingActions a = [] then (a, Inl NotPaused)
      else
        (let actions = ag_pendingActions a; deferred = ag_deferredActions a;
             a = foldl (\<lambda>a x. appendSafetyEvent now (approval_event a x) a) a actions;
             resolved = orderedActions (deferred @ actions);
             (a, err) = ensureSnapshotForActions now resolved a
         in case err of
              Some e \<Rightarrow> (a, Inl (ActionFailed e))
            | None \<Rightarrow> executeResolvedPendingActions sum8 rec now env resolved False a))"

definition bypass_decision :: "'r Agent \<Rightarrow> PendingAction \<Rightarrow> PendingAction" where
  "bypass_decision a x =
     x\<lparr>pa_Decision :=
        (if pa_Name x \<in> dom (ag_tools a)
         then action_decision ExecutionDecisionAutoExecute SafetyDecisionSourceBypass
                ''permission checks bypassed'' '''' False ''''
         else action_decision ExecutionDecisionBlock SafetyDecisionSourceHardRule ''tool not found''
                (level_String LevelBlocked) False '''')\<rparr>"

definition bypass_event :: "'r Agent \<Rightarrow> PendingAction \<Rightarrow> AuditEvent" where
  "bypass_event a x =
     (audit_event (pa_ToolCallID x) (pa_Name x) (ad_Source (pa_Decision x))
        (mapExecutionDecision (ad_Decision (pa_Decision x))) (ad_Reason (pa_Decision x))
        (ts_CurrentUserPrompt (ag_turnSafety a)) (ad_Reason (pa_Decision x)))
       \<lparr>ae_RiskLevel := ad_RiskLevel (pa_Decision x)\<rparr>"

definition ExecuteBypassedPendingActions :: "(string \<Rightarrow> string) \<Rightarrow> 'r record_fn \<Rightarrow> time \<Rightarrow> tool_env
    \<Rightarrow> 'r Agent \<Rightarrow> 'r Agent \<times> (action_error + ToolResult list)" where
  "ExecuteBypassedPendingActions sum8 rec now env a =
     (if ag_policy a \<noteq> ApprovalPolicyBypass then (a, Inl NotBypassed)
      else if ag_state a \<noteq> StatePaused \<or> ag_pendingActions a = [] then (a, Inl NotPaused)
      else
        (let actions = map (bypass_decision a) (ag_deferredActions a @ ag_pendingActions a);
             a = foldl (\<lambda>a x. appendSafetyEvent now (bypass_event a x) a) a actions
         in executeResolvedPendingActions sum8 rec now env (orderedActions actions) False a))"

text \<open>Splitting the pending actions by the decisions of the host.\<close>

definition is_denied :: "(string \<rightharpoonup> ToolResult) \<Rightarrow> PendingAction \<Rightarrow> bool" where
  "is_denied decisions x \<longleftrightarrow>
     (case decisions (pa_ToolCallID x) of
        None \<Rightarrow> False | Some r \<Rightarrow> tr_Type r = ToolResultTypeExecutionDenied)"

definition denial :: "(string \<rightharpoonup> ToolResult) \<Rightarrow> PendingAction \<Rightarrow> ToolResult" where
  "denial decisions x =
     (let r = the (decisions (pa_ToolCallID x)) in
      r\<lparr>tr_ToolName := (if tr_ToolName r = '''' then pa_Name x else tr_ToolName r),
        tr_Reason := (if tr_Reason r = '''' then ''User denied permission'' else tr_Reason r),
        tr_IsError := True\<rparr>)"

definition denial_outputs :: "(string \<rightharpoonup> ToolResult) \<Rightarrow> PendingAction list \<Rightarrow> PendingAction list \<Rightarrow> ToolResult list" where
  "denial_outputs decisions pending deferred =
     (let denied = map (denial decisions) (filter (is_denied decisions) pending);
          approved = filter (\<lambda>x. \<not> is_denied decisions x) pending;
          reason = commonDenialReason (map tr_Reason denied);
          outputs = mergeDeferredSkippedResults deferred
            (denied @ map (\<lambda>x. skippedToolResult x reason) approved) reason
      in sortToolResultsByActionOrder outputs (deferred @ pending))"

definition ResolvePendingActions :: "(string \<Rightarrow> string) \<Rightarrow> 'r record_fn \<Rightarrow> time \<Rightarrow> tool_env
    \<Rightarrow> (string \<rightharpoonup> ToolResult) \<Rightarrow> 'r Agent \<Rightarrow> 'r Agent \<times> (action_error + ToolResult list)" where
  "ResolvePendingActions sum8 rec now env decisions a =
     (let pending = ag_pendingActions a; deferred = ag_deferredActions a in
      if pending = [] then (a, Inl NotPaused)
      else if list_ex (is_denied decisions) pending
      then submitToolOutputs rec now (denial_outputs decisions pending deferred) False False a
      else executeResolvedPendingActions sum8 rec now env (orderedActions (deferred @ pending)) True a)"

definition InterruptPendingSnapshot :: "time \<Rightarrow> Snapshot \<Rightarrow> string \<Rightarrow> Snapshot" where
  "InterruptPendingSnapshot now snapshot reason =
     (if sn_State snapshot \<noteq> StatePaused then snapshot
      else
        (let actions = orderedActions (sn_DeferredActions snapshot @ sn_PendingActions snapshot);
             results = map (\<lambda>x. skippedToolResult x reason) actions
         in snapshot\<lparr>sn_History := (if results \<noteq> [] then sn_History snapshot @ [NewToolMessage now results]
                        else sn_History snapshot),
              sn_State := StateIdle, sn_PendingActions := [], sn_DeferredActions := []\<rparr>))"

section \<open>Properties of resolution\<close>

lemma order_by_id_nth:
  "distinct (map pa_ToolCallID xs) \<Longrightarrow> x \<in> set xs \<Longrightarrow> order_by_id xs (pa_ToolCallID x) = pa_Order x"
proof -
  assume d: "distinct (map pa_ToolCallID xs)" and x: "x \<in> set xs"
  have "map fst (rev (map (\<lambda>x. (pa_ToolCallID x, pa_Order x)) xs)) = rev (map pa_ToolCallID xs)"
    by (simp add: rev_map comp_def)
  then have "distinct (map fst (rev (map (\<lambda>x. (pa_ToolCallID x, pa_Order x)) xs)))"
    using d by simp
  then have "map_of (rev (map (\<lambda>x. (pa_ToolCallID x, pa_Order x)) xs)) (pa_ToolCallID x) = Some (pa_Order x)"
    using x by (intro map_of_is_SomeI) auto
  then show ?thesis by (simp add: order_by_id_def)
qed

lemma mset_map_sort_key [simp]: "mset (map g (sort_key f xs)) = mset (map g xs)"
  by (simp only: mset_map mset_sort)

lemma sorted_map_order:
  assumes "distinct (map pa_ToolCallID xs)" "distinct (map pa_Order xs)"
    and "mset (map tr_ToolCallID rs) = mset (map pa_ToolCallID xs)"
  shows "map tr_ToolCallID (sortToolResultsByActionOrder rs xs) = map pa_ToolCallID (orderedActions xs)"
proof -
  let ?f = "order_by_id xs"
  have "map tr_ToolCallID (sortToolResultsByActionOrder rs xs) = sort_key ?f (map tr_ToolCallID rs)"
    unfolding sortToolResultsByActionOrder_def
  proof (rule properties_for_sort_key[symmetric])
    show "mset (map tr_ToolCallID (sort_key (\<lambda>r. ?f (tr_ToolCallID r)) rs)) = mset (map tr_ToolCallID rs)"
      by (simp only: mset_map mset_sort)
    show "filter (\<lambda>x. ?f k = ?f x) (map tr_ToolCallID (sort_key (\<lambda>r. ?f (tr_ToolCallID r)) rs)) =
        filter (\<lambda>x. ?f k = ?f x) (map tr_ToolCallID rs)" if "k \<in> set (map tr_ToolCallID (sort_key (\<lambda>r. ?f (tr_ToolCallID r)) rs))" for k
      by (simp add: filter_map comp_def eq_commute[of "?f k"] sort_key_stable)
    show "sorted (map ?f (map tr_ToolCallID (sort_key (\<lambda>r. ?f (tr_ToolCallID r)) rs)))"
      using sorted_sort_key[of "\<lambda>r. ?f (tr_ToolCallID r)" rs] by (simp add: comp_def)
  qed
  also have "\<dots> = map pa_ToolCallID (orderedActions xs)"
  proof (rule sort_key_inj_key_eq)
    show "mset (map tr_ToolCallID rs) = mset (map pa_ToolCallID (orderedActions xs))"
      using assms(3) by (simp add: orderedActions_def)
    have s: "set (map tr_ToolCallID rs) = pa_ToolCallID ` set xs"
      using assms(3) by (metis set_map set_mset_mset)
    show "inj_on ?f (set (map tr_ToolCallID rs))"
      unfolding s using assms(1,2) order_by_id_nth[OF assms(1)]
      by (auto simp: inj_on_def distinct_map)
    have "map ?f (map pa_ToolCallID (orderedActions xs)) = map pa_Order (orderedActions xs)"
      using order_by_id_nth[OF assms(1)] by (simp add: orderedActions_def)
    then show "sorted (map ?f (map pa_ToolCallID (orderedActions xs)))"
      by (simp only: orderedActions_def sorted_sort_key)
  qed
  finally show ?thesis .
qed

lemma mset_merge_ids:
  "mset (map tr_ToolCallID (mergeDeferredSkippedResults deferred outputs reason)) =
     mset (map pa_ToolCallID deferred) + mset (map tr_ToolCallID outputs)"
proof -
  let ?skips = "if reason = ''interrupted_by_steering'' then interruptedActionResults deferred
     else map (\<lambda>x. skippedToolResult x reason) deferred"
  have "map tr_ToolCallID ?skips = map pa_ToolCallID deferred" by (simp add: comp_def)
  then have "mset (map tr_ToolCallID (?skips @ outputs)) =
      mset (map pa_ToolCallID deferred) + mset (map tr_ToolCallID outputs)"
    by (simp only: map_append mset_append)
  then show ?thesis
    by (simp only: mergeDeferredSkippedResults_def mset_map_sort_key)
qed

lemma denial_outputs_ids:
  assumes "\<forall>i r. decisions i = Some r \<longrightarrow> tr_ToolCallID r = i"
  shows "mset (map tr_ToolCallID (denial_outputs decisions pending deferred)) =
    mset (map pa_ToolCallID (deferred @ pending))"
proof -
  have "tr_ToolCallID (denial decisions x) = pa_ToolCallID x" if "is_denied decisions x" for x
    using that assms by (auto simp: denial_def is_denied_def Let_def split: option.splits)
  then have "map tr_ToolCallID (map (denial decisions) (filter (is_denied decisions) pending)) =
      map pa_ToolCallID (filter (is_denied decisions) pending)"
    by simp
  moreover have "mset (map pa_ToolCallID (filter (is_denied decisions) pending)) +
      mset (map pa_ToolCallID (filter (\<lambda>x. \<not> is_denied decisions x) pending)) = mset (map pa_ToolCallID pending)"
    by (metis image_mset_union mset_filter mset_map multiset_partition)
  moreover have "map (tr_ToolCallID \<circ> (\<lambda>x. skippedToolResult x reason)) xs = map pa_ToolCallID xs" for reason xs
    by simp
  ultimately show ?thesis
    by (simp only: denial_outputs_def Let_def sortToolResultsByActionOrder_def mset_map_sort_key
        mset_merge_ids map_append mset_append map_map)
qed

lemma audit_denials_frame [simp]:
  "ag_conversation (audit_denials now outs a) = ag_conversation a"
  "ag_pendingActions (audit_denials now outs a) = ag_pendingActions a"
  "ag_deferredActions (audit_denials now outs a) = ag_deferredActions a"
  "ag_state (audit_denials now outs a) = ag_state a"
  by (induction outs rule: rev_induct) (simp_all add: audit_denials_def)

lemma audit_denials_loop: "ag_loopDetector (audit_denials now outs a) = ag_loopDetector a"
  by (induction outs rule: rev_induct) (simp_all add: audit_denials_def)

lemma submit_ok:
  assumes "submitToolOutputs rec now outputs mergeDef ex a = (a', Inr outs)"
  shows "ag_history a' = ag_history a @ [NewToolMessage now outs] \<and> ag_state a' = StateRunning \<and>
    ag_pendingActions a' = [] \<and> ag_deferredActions a' = []"
  using assms
  by (auto simp: submitToolOutputs_def appendMessages_def conversation_append_def conversation_apply_def
      apply_mutation_def Let_def split: if_splits option.splits prod.splits)

text \<open>
  Denying any call of a paused batch runs none of them and still answers all of them: one tool
  message is appended whose results carry the ids of the deferred and the pending calls, each once,
  in the order the model made the calls, and the batch is no longer pending.
\<close>

theorem ResolvePendingActions_denied:
  assumes "\<forall>i r. decisions i = Some r \<longrightarrow> tr_ToolCallID r = i"
    and "distinct (map pa_ToolCallID (ag_deferredActions a @ ag_pendingActions a))"
    and "distinct (map pa_Order (ag_deferredActions a @ ag_pendingActions a))"
    and "list_ex (is_denied decisions) (ag_pendingActions a)"
    and "ResolvePendingActions sum8 rec now env decisions a = (a', Inr outs)"
  shows "map tr_ToolCallID outs = map pa_ToolCallID (orderedActions (ag_deferredActions a @ ag_pendingActions a)) \<and>
    ag_history a' = ag_history a @ [NewToolMessage now outs] \<and> ag_pendingActions a' = [] \<and>
    ag_deferredActions a' = [] \<and> ag_loopDetector a' = ag_loopDetector a"
proof -
  let ?outs = "denial_outputs decisions (ag_pendingActions a) (ag_deferredActions a)"
  have s: "submitToolOutputs rec now ?outs False False a = (a', Inr outs)"
    using assms(4,5) by (auto simp: ResolvePendingActions_def Let_def split: if_splits)
  then have o: "outs = ?outs" "ag_loopDetector a' = ag_loopDetector a"
    by (auto simp: submitToolOutputs_def Let_def audit_denials_loop split: if_splits option.splits prod.splits)
  have "mset (map tr_ToolCallID ?outs) = mset (map pa_ToolCallID (ag_deferredActions a @ ag_pendingActions a))"
    by (rule denial_outputs_ids[OF assms(1)])
  moreover have "sortToolResultsByActionOrder ?outs (ag_deferredActions a @ ag_pendingActions a) = ?outs"
    by (simp add: denial_outputs_def Let_def sortToolResultsByActionOrder_def sort_key_idem)
  ultimately have "map tr_ToolCallID ?outs =
      map pa_ToolCallID (orderedActions (ag_deferredActions a @ ag_pendingActions a))"
    using sorted_map_order[OF assms(2,3)] by metis
  with o submit_ok[OF s] show ?thesis by simp
qed

text \<open>
  A tool whose result could not be made durable is not run again: when a batch may have executed
  and recording its outputs fails, nothing is pending any more and every way of resolving the batch
  is refused from then on.
\<close>

theorem durability_failure_is_final:
  assumes "executeActions sum8 now env actions snap a = (a1, Inr (results, started))"
    and "started \<noteq> []" and "ag_state a = StatePaused"
    and "executeResolvedPendingActions sum8 rec now env actions snap a = (a', Inl e)"
  shows "ag_state a' = StateDurabilityFailed \<and> ag_history a' = ag_history a \<and>
    snd (ApproveAndExecutePendingActions sum8' rec' now' env' a') = Inl NotPaused \<and>
    snd (ResolvePendingActions sum8' rec' now' env' decisions a') = Inl NotPaused \<and>
    snd (submitToolOutputs rec' now' outputs b c a') = Inl NotPaused"
proof -
  have a1: "ag_state a1 = ag_state a" "ag_history a1 = ag_history a"
    using assms(1)
    by (auto simp: executeActions_def Let_def split_beta split: if_splits option.splits)
  have "submitToolOutputs rec now results True True a1 = (a', Inl e)"
    using assms(1,2,4) by (simp add: executeResolvedPendingActions_def)
  then have "a' = markDurabilityFailed (a1\<lparr>ag_conversation := ag_conversation a'\<rparr>) \<and>
      ag_history a' = ag_history a1"
    using a1 assms(3)
    by (auto simp: submitToolOutputs_def Let_def markDurabilityFailed_def appendMessages_def
        conversation_append_def conversation_apply_def split: if_splits option.splits prod.splits)
  then obtain c1 where "a' = markDurabilityFailed (a1\<lparr>ag_conversation := c1\<rparr>)" "ag_history a' = ag_history a1"
    by blast
  then show ?thesis
    using a1 by (simp add: markDurabilityFailed_def ApproveAndExecutePendingActions_def
        ResolvePendingActions_def submitToolOutputs_def)
qed

lemma InterruptPendingSnapshot_idem:
  "InterruptPendingSnapshot now' (InterruptPendingSnapshot now sn reason) reason' = InterruptPendingSnapshot now sn reason"
  by (simp add: InterruptPendingSnapshot_def Let_def)

text \<open>
  Abandoning a paused snapshot after its runtime is lost leaves no unanswered call behind: the
  last message answers every deferred and pending call with a denial, once each, and the snapshot is
  idle with nothing pending.
\<close>

theorem InterruptPendingSnapshot_answers:
  assumes "sn_State sn = StatePaused" and "sn_PendingActions sn \<noteq> []"
  shows "\<exists>results. sn_History (InterruptPendingSnapshot now sn reason) = sn_History sn @ [NewToolMessage now results] \<and>
     mset (map tr_ToolCallID results) = mset (map pa_ToolCallID (sn_DeferredActions sn @ sn_PendingActions sn)) \<and>
     (\<forall>r\<in>set results. tr_Type r = ToolResultTypeExecutionDenied) \<and>
     sn_State (InterruptPendingSnapshot now sn reason) = StateIdle \<and>
     sn_PendingActions (InterruptPendingSnapshot now sn reason) = [] \<and>
     sn_DeferredActions (InterruptPendingSnapshot now sn reason) = []"
proof -
  let ?xs = "orderedActions (sn_DeferredActions sn @ sn_PendingActions sn)"
  let ?rs = "map (\<lambda>x. skippedToolResult x reason) ?xs"
  have "?xs \<noteq> []"
    using assms(2) by (metis append_is_Nil_conv length_0_conv length_sort orderedActions_def)
  moreover have "map tr_ToolCallID ?rs = map pa_ToolCallID ?xs" by (simp add: comp_def)
  moreover have "mset (map pa_ToolCallID ?xs) = mset (map pa_ToolCallID (sn_DeferredActions sn @ sn_PendingActions sn))"
    unfolding orderedActions_def by (rule mset_map_sort_key)
  ultimately show ?thesis
    using assms(1)
    by (intro exI[of _ ?rs])
      (simp add: InterruptPendingSnapshot_def Let_def skippedToolResult_type del: mset_map map_map)
qed

section \<open>Concrete batches\<close>

definition sample_action :: "string \<Rightarrow> string \<Rightarrow> int \<Rightarrow> ExecutionDecision \<Rightarrow> PendingAction" where
  "sample_action i name ord d = \<lparr>pa_ToolCallID = i, pa_Name = name, pa_Arguments = ''{}'',
     pa_Decision = action_decision d SafetyDecisionSourceHardRule ''r'' ''safe'' False '''',
     pa_Order = ord, pa_ToolCall = None\<rparr>"

definition sample_env :: tool_env where
  "sample_env = \<lparr>te_record_start = (\<lambda>_. None), te_invoke = (\<lambda>x. Inr (OutString (pa_Name x))),
     te_reminder = (\<lambda>_. ''''), te_ctx_err = None, te_irq_start = (\<lambda>i. i = 2), te_irq_done = (\<lambda>_. False),
     te_irq_end = False\<rparr>"

definition mixed_batch :: "PendingAction list" where
  "mixed_batch = [sample_action ''c1'' ''read'' 0 ExecutionDecisionAutoExecute,
     sample_action ''c2'' ''gone'' 1 ExecutionDecisionBlock,
     sample_action ''c3'' ''deploy'' 2 ExecutionDecisionRequireApproval]"

definition paused_agent :: "unit Agent" where
  "paused_agent = sample_agent\<lparr>ag_state := StatePaused,
     ag_deferredActions := [sample_action ''c1'' ''read'' 0 ExecutionDecisionAutoExecute],
     ag_pendingActions := [sample_action ''c2'' ''deploy'' 1 ExecutionDecisionRequireApproval]\<rparr>"

definition accept_all :: "unit record_fn" where
  "accept_all r m = (r, None)"

theorem executeActions_answers_all_witness:
  "\<exists>a' results started. executeActions (\<lambda>x. x) 5 sample_env mixed_batch False sample_agent = (a', Inr (results, started)) \<and>
     map pa_ToolCallID started = [''c1''] \<and> map tr_Reason results = ['''', ''r'', ''interrupted_by_steering''] \<and>
     map tr_ToolCallID results = [''c1'', ''c2'', ''c3'']"
proof -
  obtain a' x where e: "executeActions (\<lambda>x. x) 5 sample_env mixed_batch False sample_agent = (a', x)" by fastforce
  have "map_sum id (\<lambda>(rs, st). (map tr_Reason rs, map pa_ToolCallID st))
      (snd (executeActions (\<lambda>x. x) 5 sample_env mixed_batch False sample_agent)) =
      Inr (['''', ''r'', ''interrupted_by_steering''], [''c1''])"
    by code_simp
  then obtain results started where x: "x = Inr (results, started)"
      "map tr_Reason results = ['''', ''r'', ''interrupted_by_steering'']" "map pa_ToolCallID started = [''c1'']"
    by (cases x) (auto simp: e)
  have d: "distinct (map pa_ToolCallID mixed_batch)" "map pa_ToolCallID mixed_batch = [''c1'', ''c2'', ''c3'']"
    by code_simp+
  from executeActions_answers_all[OF d(1) e[unfolded x(1)]] x e d(2) show ?thesis by auto
qed

theorem executeActions_started_permitted_witness:
  "\<exists>a' results started x. executeActions (\<lambda>x. x) 5 sample_env mixed_batch False sample_agent = (a', Inr (results, started)) \<and>
     x \<in> set started \<and> pa_Name x \<in> dom (ag_tools sample_agent)"
proof -
  obtain a' x where e: "executeActions (\<lambda>x. x) 5 sample_env mixed_batch False sample_agent = (a', x)" by fastforce
  have "map_sum id (\<lambda>(rs, st). map pa_ToolCallID st)
      (snd (executeActions (\<lambda>x. x) 5 sample_env mixed_batch False sample_agent)) = Inr [''c1'']"
    by code_simp
  then obtain results started where x: "x = Inr (results, started)" "map pa_ToolCallID started = [''c1'']"
    by (cases x) (auto simp: e)
  then obtain y where y: "y \<in> set started" by (cases started) auto
  with executeActions_started_permitted[OF e[unfolded x(1)] y] e x show ?thesis by blast
qed

definition deny_c2 :: "string \<rightharpoonup> ToolResult" where
  "deny_c2 = [''c2'' \<mapsto> denied_result ''c2'' '''' ''not now'']"

theorem ResolvePendingActions_denied_witness:
  "\<exists>a' outs. ResolvePendingActions (\<lambda>x. x) accept_all 5 sample_env deny_c2 paused_agent = (a', Inr outs) \<and>
     map tr_ToolCallID outs = map pa_ToolCallID (orderedActions
       (ag_deferredActions paused_agent @ ag_pendingActions paused_agent))"
proof -
  obtain a' x where e: "ResolvePendingActions (\<lambda>x. x) accept_all 5 sample_env deny_c2 paused_agent = (a', x)"
    by fastforce
  have "map_sum (\<lambda>_. ()) (\<lambda>_. ()) (snd (ResolvePendingActions (\<lambda>x. x) accept_all 5 sample_env deny_c2 paused_agent)) = Inr ()"
    by code_simp
  then obtain outs where x: "x = Inr outs" by (cases x) (auto simp: e)
  have "\<forall>i r. deny_c2 i = Some r \<longrightarrow> tr_ToolCallID r = i"
    by (simp add: deny_c2_def)
  moreover have "distinct (map pa_ToolCallID (ag_deferredActions paused_agent @ ag_pendingActions paused_agent))"
    "distinct (map pa_Order (ag_deferredActions paused_agent @ ag_pendingActions paused_agent))"
    "list_ex (is_denied deny_c2) (ag_pendingActions paused_agent)"
    by code_simp+
  ultimately show ?thesis using ResolvePendingActions_denied e unfolding x by blast
qed

definition failing_recorder :: "unit record_fn" where
  "failing_recorder r m = (r, Some ''disk full'')"

definition recorded_agent :: "unit Agent" where
  "recorded_agent = paused_agent\<lparr>ag_conversation := newConversationState\<lparr>recorder := Some ()\<rparr>\<rparr>"

theorem durability_failure_is_final_witness:
  "ag_state (fst (executeResolvedPendingActions (\<lambda>x. x) failing_recorder 5 sample_env mixed_batch False recorded_agent)) =
     StateDurabilityFailed"
proof -
  obtain a1 x where e: "executeActions (\<lambda>x. x) 5 sample_env mixed_batch False recorded_agent = (a1, x)" by fastforce
  have "map_sum id (\<lambda>(rs, st). map pa_ToolCallID st)
      (snd (executeActions (\<lambda>x. x) 5 sample_env mixed_batch False recorded_agent)) = Inr [''c1'']"
    by code_simp
  then obtain results started where x: "x = Inr (results, started)" "started \<noteq> []"
    by (cases x) (auto simp: e)
  obtain a' y where r: "executeResolvedPendingActions (\<lambda>x. x) failing_recorder 5 sample_env mixed_batch False recorded_agent = (a', y)"
    by fastforce
  have "map_sum (\<lambda>_. ()) (\<lambda>_. ()) (snd (executeResolvedPendingActions (\<lambda>x. x) failing_recorder 5 sample_env mixed_batch False recorded_agent)) = Inl ()"
    by code_simp
  then obtain err where y: "y = Inl err" by (cases y) (auto simp: r)
  have "ag_state recorded_agent = StatePaused" by code_simp
  from durability_failure_is_final[OF e[unfolded x(1)] x(2) this r[unfolded y]] r show ?thesis by simp
qed

definition paused_snapshot :: Snapshot where
  "paused_snapshot = \<lparr>sn_State = StatePaused, sn_History = [], sn_CumulativeUsage = zero_Usage,
     sn_PendingActions = ag_pendingActions paused_agent, sn_DeferredActions = ag_deferredActions paused_agent,
     sn_TurnSafety = zero_TurnSafetyState, sn_Turns = [], sn_UserContextState = None, sn_CreatedAt = 1\<rparr>"

theorem InterruptPendingSnapshot_answers_witness:
  "\<exists>results. sn_History (InterruptPendingSnapshot 9 paused_snapshot ''restart'') = [NewToolMessage 9 results] \<and>
     mset (map tr_ToolCallID results) = mset [''c1'', ''c2'']"
proof -
  have "sn_State paused_snapshot = StatePaused" "sn_PendingActions paused_snapshot \<noteq> []"
    and s: "sn_History paused_snapshot = []"
      "map pa_ToolCallID (sn_DeferredActions paused_snapshot @ sn_PendingActions paused_snapshot) = [''c1'', ''c2'']"
    by code_simp+
  then show ?thesis using InterruptPendingSnapshot_answers[of paused_snapshot 9 "''restart''"] by auto
qed


end
