(* ===== verification/Base64.thy ===== *)
theory Base64
  imports Json
begin

text \<open>
  \<open>base64.RawURLEncoding\<close>, with which call ids are embedded in recovery markers and callback
  tokens and their signing key are stored.  Decoding skips line breaks and does not insist on zero
  padding bits, as the package's non-strict decoder; the lemmas show the round trip.
\<close>

definition b64_char :: "int \<Rightarrow> char" where
  "b64_char v =
     (if v < 26 then char_of (0x41 + v) else if v < 52 then char_of (0x61 + v - 26)
      else if v < 62 then char_of (0x30 + v - 52) else if v = 62 then CHR ''-'' else CHR ''_'')"

fun b64_raw_url :: "string \<Rightarrow> string" where
  "b64_raw_url (a # b # c # s) =
     b64_char (byte a div 4) # b64_char (byte a mod 4 * 16 + byte b div 16) #
     b64_char (byte b mod 16 * 4 + byte c div 64) # b64_char (byte c mod 64) # b64_raw_url s"
| "b64_raw_url [a, b] =
     [b64_char (byte a div 4), b64_char (byte a mod 4 * 16 + byte b div 16), b64_char (byte b mod 16 * 4)]"
| "b64_raw_url [a] = [b64_char (byte a div 4), b64_char (byte a mod 4 * 16)]"
| "b64_raw_url [] = []"

definition b64_value :: "char \<Rightarrow> int option" where
  "b64_value c =
     (let v = byte c
      in if 0x41 \<le> v \<and> v \<le> 0x5A then Some (v - 0x41)
         else if 0x61 \<le> v \<and> v \<le> 0x7A then Some (v - 0x61 + 26)
         else if 0x30 \<le> v \<and> v \<le> 0x39 then Some (v - 0x30 + 52)
         else if c = CHR ''-'' then Some 62 else if c = CHR ''_'' then Some 63 else None)"

text \<open>Groups of four digits give three bytes; a last group of two or three gives one or two.\<close>

fun b64_groups :: "int list \<Rightarrow> string option" where
  "b64_groups (a # b # c # d # s) =
     map_option (\<lambda>r. char_of (a * 4 + b div 16) # char_of (b mod 16 * 16 + c div 4) #
        char_of (c mod 4 * 64 + d) # r) (b64_groups s)"
| "b64_groups [a, b, c] = Some [char_of (a * 4 + b div 16), char_of (b mod 16 * 16 + c div 4)]"
| "b64_groups [a, b] = Some [char_of (a * 4 + b div 16)]"
| "b64_groups [a] = None"
| "b64_groups [] = Some []"

definition b64_decode :: "string \<Rightarrow> string option" where
  "b64_decode s =
     (let ds = map b64_value (filter (\<lambda>c. c \<noteq> CHR 0x0A \<and> c \<noteq> CHR 0x0D) s)
      in if None \<in> set ds then None else b64_groups (map the ds))"

lemma byte_bounds: "0 \<le> byte c" "byte c \<le> 255"
proof -
  have "of_char c < (256 :: nat)" by simp
  moreover have "byte c = int (of_char c)" by (simp add: byte_def of_nat_of_char)
  ultimately show "0 \<le> byte c" "byte c \<le> 255" by linarith+
qed

lemma byte_char_of: "0 \<le> v \<Longrightarrow> v < 256 \<Longrightarrow> byte (char_of v) = v"
  by (simp add: byte_def)

lemma char_of_byte [simp]: "char_of (byte c) = c"
  by (simp add: byte_def)

lemma b64_value_char:
  assumes "0 \<le> v" "v < 64"
  shows "b64_value (b64_char v) = Some v" "b64_char v \<noteq> CHR 0x0A" "b64_char v \<noteq> CHR 0x0D"
proof -
  have all: "list_all (\<lambda>v. b64_value (b64_char v) = Some v \<and> b64_char v \<noteq> CHR 0x0A \<and> b64_char v \<noteq> CHR 0x0D)
    [0..63]"
    by code_simp
  have "v \<in> set [0..63]" using assms by simp
  with all show "b64_value (b64_char v) = Some v" "b64_char v \<noteq> CHR 0x0A" "b64_char v \<noteq> CHR 0x0D"
    unfolding list_all_iff by blast+
qed

text \<open>The digits an encoding is made of.\<close>

fun b64_digits :: "string \<Rightarrow> int list" where
  "b64_digits (a # b # c # s) =
     byte a div 4 # (byte a mod 4 * 16 + byte b div 16) # (byte b mod 16 * 4 + byte c div 64) #
     byte c mod 64 # b64_digits s"
| "b64_digits [a, b] = [byte a div 4, byte a mod 4 * 16 + byte b div 16, byte b mod 16 * 4]"
| "b64_digits [a] = [byte a div 4, byte a mod 4 * 16]"
| "b64_digits [] = []"

lemma b64_raw_url_digits: "b64_raw_url s = map b64_char (b64_digits s)"
  by (induction s rule: b64_raw_url.induct) auto

lemma b64_digit_bounds:
  "0 \<le> byte a div 4" "byte a div 4 < 64"
  "0 \<le> byte a mod 4 * 16 + byte b div 16" "byte a mod 4 * 16 + byte b div 16 < 64"
  "0 \<le> byte b mod 16 * 4 + byte c div 64" "byte b mod 16 * 4 + byte c div 64 < 64"
  "byte a mod 4 * 16 < 64" "byte b mod 16 * 4 < 64"
  using byte_bounds [of a] byte_bounds [of b] byte_bounds [of c] by linarith+

lemma b64_digits_range: "\<forall>v \<in> set (b64_digits s). 0 \<le> v \<and> v < 64"
  by (induction s rule: b64_digits.induct) (auto simp: b64_digit_bounds)

lemma b64_split_digits:
  "(m * 16 + byte b div 16) div 16 = m" "(m * 16 + byte b div 16) mod 16 = byte b div 16"
  "(m * 4 + byte b div 64) div 4 = m" "(m * 4 + byte b div 64) mod 4 = byte b div 64"
proof -
  have "0 \<le> byte b div 16" "byte b div 16 < 16" "0 \<le> byte b div 64" "byte b div 64 < 4"
    using byte_bounds [of b] by linarith+
  then show "(m * 16 + byte b div 16) div 16 = m" "(m * 16 + byte b div 16) mod 16 = byte b div 16"
    "(m * 4 + byte b div 64) div 4 = m" "(m * 4 + byte b div 64) mod 4 = byte b div 64"
    by auto
qed

lemma b64_high_digits: "byte b div 16 mod 16 = byte b div 16" "byte b div 64 mod 4 = byte b div 64"
  using byte_bounds [of b] by (auto simp: mod_pos_pos_trivial)

lemma b64_groups_digits: "b64_groups (b64_digits s) = Some s"
  by (induction s rule: b64_digits.induct) (simp_all add: b64_split_digits b64_high_digits)

theorem b64_roundtrip: "b64_decode (b64_raw_url s) = Some s"
proof -
  have range: "0 \<le> v" "v < 64" if "v \<in> set (b64_digits s)" for v
    using that b64_digits_range by auto
  have "filter (\<lambda>c. c \<noteq> CHR 0x0A \<and> c \<noteq> CHR 0x0D) (map b64_char (b64_digits s)) = map b64_char (b64_digits s)"
    using range by (auto simp: filter_id_conv b64_value_char)
  moreover have "map b64_value (map b64_char (b64_digits s)) = map Some (b64_digits s)"
    using range by (auto simp: b64_value_char)
  moreover have "None \<notin> set (map Some (b64_digits s))" "map the (map Some (b64_digits s)) = b64_digits s"
    by (auto simp: comp_def)
  ultimately show ?thesis
    unfolding b64_decode_def b64_raw_url_digits Let_def by (simp only: b64_groups_digits if_False)
qed

section \<open>Standard encoding\<close>

text \<open>
  \<open>base64.StdEncoding\<close>: another alphabet and padding.  The strict decoder accepts canonical
  encodings only, so it decodes and compares; line breaks are skipped here too.
\<close>

definition b64_std_char :: "char \<Rightarrow> char" where
  "b64_std_char c = (if c = CHR ''-'' then CHR ''+'' else if c = CHR ''_'' then CHR 0x2F else c)"

definition b64_url_char :: "char \<Rightarrow> char option" where
  "b64_url_char c =
     (if c = CHR ''+'' then Some (CHR ''-'') else if c = CHR 0x2F then Some (CHR ''_'')
      else if c = CHR ''-'' \<or> c = CHR ''_'' then None else Some c)"

definition b64_std :: "string \<Rightarrow> string" where
  "b64_std s =
     (let t = map b64_std_char (b64_raw_url s)
      in t @ replicate ((4 - length t mod 4) mod 4) (CHR 0x3D))"

definition b64_std_strict :: "string \<Rightarrow> string option" where
  "b64_std_strict t0 =
     (let t = filter (\<lambda>c. c \<noteq> CHR 0x0A \<and> c \<noteq> CHR 0x0D) t0;
          digits = map b64_url_char (filter (\<lambda>c. c \<noteq> CHR 0x3D) t)
      in if None \<in> set digits then None
         else case b64_decode (map the digits) of
                None \<Rightarrow> None
              | Some s \<Rightarrow> if b64_std s = t then Some s else None)"

text \<open>\<open>StdEncoding.EncodedLen\<close>.\<close>

definition EncodedLen :: "int \<Rightarrow> int" where
  "EncodedLen n = (n + 2) div 3 * 4"

end
