(* ===== verification/Runtime_WAL.thy ===== *)
theory Runtime_WAL
  imports Agent_Actions Base64
begin

text \<open>
  The write-ahead log of a turn: the file store (\<open>core/session/runtime_wal.go\<close>) and the worker's
  use of it (\<open>internal/zotigod/worker_runtime_wal.go\<close>) for recording history mutations and tool
  starts, committing a session, and recovering one after a crash.

  A log file is a header line and a list of lines.  A line is a decoded record or header, a blank
  line, or bytes that do not decode; the last line may lack its newline.  That a record survives
  encoding and decoding, and that a proper prefix of a JSON object does not decode, is the
  documented behaviour of \<open>encoding/json\<close> and is built into this representation.  The digests over
  canonical JSON are functions carried by the store.  Input and output can fail at any append: the
  store holds the outcomes of the appends to come, each saying what the failed write left behind.
\<close>

section \<open>Data\<close>

record RuntimeWALHeader =
  wh_FormatVersion :: int
  wh_SessionID :: string
  wh_TurnID :: string
  wh_WALID :: string
  wh_BaseSnapshotVersion :: nat
  wh_BaseSnapshotDigest :: string
  wh_CreatedAt :: time

record RuntimeWALToolExecution =
  wt_ToolCallID :: string
  wt_ToolName :: string
  wt_Arguments :: string

record RuntimeWALRecord =
  wr_FormatVersion :: int
  wr_WALID :: string
  wr_Sequence :: nat
  wr_Mutation :: HistoryMutation
  wr_ToolExecutionStarted :: "RuntimeWALToolExecution option"
  wr_Checksum :: string

record RuntimeWAL =
  wal_Header :: RuntimeWALHeader
  wal_Records :: "RuntimeWALRecord list"

definition legacyRuntimeWALFormatVersion :: int where "legacyRuntimeWALFormatVersion = 1"
definition RuntimeWALFormatVersion :: int where "RuntimeWALFormatVersion = 2"

datatype 'a wal_line = Line 'a | Blank | Garbage

record wal_file =
  wf_header :: "RuntimeWALHeader wal_line"
  wf_header_terminated :: bool
  wf_lines :: "RuntimeWALRecord wal_line list"
  wf_torn :: bool

record wal_digests =
  dg_record :: "RuntimeWALRecord \<Rightarrow> string"
  dg_legacy_line :: "RuntimeWALRecord \<Rightarrow> string"
  dg_history :: "Message list \<Rightarrow> string"
  dg_legacy_history :: "Message list \<Rightarrow> string"

section \<open>The file store\<close>

definition runtimeWALChecksum :: "wal_digests \<Rightarrow> RuntimeWALRecord \<Rightarrow> string" where
  "runtimeWALChecksum dg r = dg_record dg (r\<lparr>wr_Checksum := ''''\<rparr>)"

definition supportedRuntimeWALFormat :: "int \<Rightarrow> bool" where
  "supportedRuntimeWALFormat v \<longleftrightarrow> v = legacyRuntimeWALFormatVersion \<or> v = RuntimeWALFormatVersion"

definition SnapshotDigest :: "wal_digests \<Rightarrow> Snapshot \<Rightarrow> string" where
  "SnapshotDigest dg sn = dg_history dg (sn_History sn)"

definition SnapshotDigestForRuntimeWAL :: "wal_digests \<Rightarrow> Snapshot \<Rightarrow> int \<Rightarrow> string" where
  "SnapshotDigestForRuntimeWAL dg sn v =
     (if v = legacyRuntimeWALFormatVersion then dg_legacy_history dg (sn_History sn) else SnapshotDigest dg sn)"

definition NewRuntimeWALHeader :: "wal_digests \<Rightarrow> string \<Rightarrow> time \<Rightarrow> string \<Rightarrow> nat \<Rightarrow> Snapshot \<Rightarrow> RuntimeWALHeader" where
  "NewRuntimeWALHeader dg walID now sessionID baseVersion sn =
     \<lparr>wh_FormatVersion = RuntimeWALFormatVersion, wh_SessionID = sessionID, wh_TurnID = '''',
      wh_WALID = walID, wh_BaseSnapshotVersion = baseVersion,
      wh_BaseSnapshotDigest = SnapshotDigest dg sn, wh_CreatedAt = now\<rparr>"

text \<open>The header is written atomically: on an error the old file stays.\<close>

definition BeginRuntimeWAL :: "string option \<Rightarrow> wal_file option \<Rightarrow> RuntimeWALHeader \<Rightarrow> wal_file option \<times> string option" where
  "BeginRuntimeWAL ioErr file header =
     (if wh_FormatVersion header \<noteq> RuntimeWALFormatVersion \<or> wh_SessionID header = '''' \<or> wh_WALID header = ''''
      then (file, Some ''invalid runtime WAL header'')
      else case ioErr of
        Some e \<Rightarrow> (file, Some (''write runtime WAL header: '' @ e))
      | None \<Rightarrow> (Some \<lparr>wf_header = Line header, wf_header_terminated = True, wf_lines = [], wf_torn = False\<rparr>, None))"

text \<open>
  Outcome of an append: success, or a failure of opening, writing, syncing or closing with what it
  left in the file: nothing, part of a line, a whole line without its newline, or a whole line.
\<close>

datatype residue = NoBytes | PartialLine | UnterminatedLine | WholeLine
datatype append_io = IOok | IOfail string residue

definition append_line :: "wal_file \<Rightarrow> RuntimeWALRecord wal_line \<Rightarrow> bool \<Rightarrow> wal_file" where
  "append_line f l torn =
     (if wf_torn f then f\<lparr>wf_lines := butlast (wf_lines f) @ [Garbage], wf_torn := torn\<rparr>
      else f\<lparr>wf_lines := wf_lines f @ [l], wf_torn := torn\<rparr>)"

definition AppendRuntimeWAL :: "wal_digests \<Rightarrow> append_io \<Rightarrow> wal_file option \<Rightarrow> RuntimeWALRecord
    \<Rightarrow> wal_file option \<times> string option" where
  "AppendRuntimeWAL dg io file r =
     (let r = r\<lparr>wr_FormatVersion := RuntimeWALFormatVersion\<rparr>;
          r = r\<lparr>wr_Checksum := runtimeWALChecksum dg r\<rparr>
      in case file of
           None \<Rightarrow> (None, Some ''open runtime WAL: no such file'')
         | Some f \<Rightarrow>
             (case io of
                IOok \<Rightarrow> (Some (append_line f (Line r) False), None)
              | IOfail e NoBytes \<Rightarrow> (Some f, Some e)
              | IOfail e PartialLine \<Rightarrow> (Some (append_line f Garbage True), Some e)
              | IOfail e UnterminatedLine \<Rightarrow> (Some (append_line f (Line r) True), Some e)
              | IOfail e WholeLine \<Rightarrow> (Some (append_line f (Line r) False), Some e)))"

text \<open>The reading loop: the expected sequence number, the lines still to read, the records so far.\<close>

fun load_records :: "wal_digests \<Rightarrow> RuntimeWALHeader \<Rightarrow> bool \<Rightarrow> nat \<Rightarrow> RuntimeWALRecord wal_line list
    \<Rightarrow> string + RuntimeWALRecord list" where
  "load_records dg h torn expected [] = Inr []"
| "load_records dg h torn expected (Blank # ls) = load_records dg h torn expected ls"
| "load_records dg h torn expected (Garbage # ls) =
     (if ls = [] \<and> torn then Inr []
      else Inl (''decode runtime WAL record '' @ show_int (int expected)))"
| "load_records dg h torn expected (Line r # ls) =
     (if wr_FormatVersion r \<noteq> wh_FormatVersion h \<or> wr_WALID r \<noteq> wh_WALID h \<or> wr_Sequence r \<noteq> expected
      then Inl (''runtime WAL record sequence or identity mismatch at '' @ show_int (int expected))
      else
        (let checksum = (if wh_FormatVersion h = legacyRuntimeWALFormatVersion then dg_legacy_line dg r
                         else runtimeWALChecksum dg r)
         in if wr_Checksum r = '''' \<or> wr_Checksum r \<noteq> checksum
            then Inl (''runtime WAL checksum mismatch at '' @ show_int (int expected))
            else (case load_records dg h torn (Suc expected) ls of
                    Inl e \<Rightarrow> Inl e | Inr rs \<Rightarrow> Inr (r # rs))))"

definition LoadRuntimeWAL :: "wal_digests \<Rightarrow> string \<Rightarrow> wal_file option \<Rightarrow> string + RuntimeWAL option" where
  "LoadRuntimeWAL dg sessionID file =
     (case file of
        None \<Rightarrow> Inr None
      | Some f \<Rightarrow>
          if \<not> wf_header_terminated f then Inl ''runtime WAL header is incomplete''
          else case wf_header f of
            Line h \<Rightarrow>
              if \<not> supportedRuntimeWALFormat (wh_FormatVersion h) \<or> wh_SessionID h \<noteq> sessionID \<or> wh_WALID h = ''''
              then Inl ''runtime WAL header does not match session''
              else (case load_records dg h (wf_torn f) 1 (wf_lines f) of
                      Inl e \<Rightarrow> Inl e
                    | Inr rs \<Rightarrow> Inr (Some \<lparr>wal_Header = h, wal_Records = rs\<rparr>))
          | _ \<Rightarrow> Inl ''decode runtime WAL header'')"

text \<open>Deletion: removal may fail, or the directory sync after it.\<close>

datatype delete_io = DeleteOk | RemoveFails string | SyncFails string

definition DeleteRuntimeWAL :: "delete_io \<Rightarrow> wal_file option \<Rightarrow> wal_file option \<times> string option" where
  "DeleteRuntimeWAL io file =
     (case file of
        None \<Rightarrow> (None, None)
      | Some f \<Rightarrow>
          (case io of
             DeleteOk \<Rightarrow> (None, None)
           | RemoveFails e \<Rightarrow> (Some f, Some (''delete runtime WAL: '' @ e))
           | SyncFails e \<Rightarrow> (None, Some (''sync runtime WAL directory: '' @ e))))"

section \<open>The worker\<close>

record Session =
  se_ID :: string
  se_AgentSnapshot :: Snapshot
  se_SnapshotVersion :: nat
  se_CommittedRuntimeWALID :: string
  se_CommittedRuntimeWALSeq :: nat

record workerRuntimeWAL =
  ww_sessionID :: string
  ww_header :: "RuntimeWALHeader option"
  ww_seq :: nat
  ww_appendErr :: "string option"
  ww_file :: "wal_file option"
  ww_digests :: wal_digests
  ww_io :: "append_io list"

definition wal_Begin :: "string option \<Rightarrow> string \<Rightarrow> time \<Rightarrow> workerRuntimeWAL \<Rightarrow> Session \<Rightarrow> Snapshot \<Rightarrow> string
    \<Rightarrow> workerRuntimeWAL \<times> string option" where
  "wal_Begin ioErr walID now w sess snapshot turnID =
     (if ww_header w \<noteq> None then (w, Some ''runtime WAL is already active'')
      else if SnapshotDigest (ww_digests w) (se_AgentSnapshot sess) \<noteq> SnapshotDigest (ww_digests w) snapshot
      then (w, Some ''runtime WAL base snapshot does not match persisted session'')
      else
        (let header = (NewRuntimeWALHeader (ww_digests w) walID now (ww_sessionID w)
               (se_SnapshotVersion sess) snapshot)\<lparr>wh_TurnID := turnID\<rparr>;
             (file, err) = BeginRuntimeWAL ioErr (ww_file w) header
         in case err of
              Some e \<Rightarrow> (w\<lparr>ww_file := file\<rparr>, Some e)
            | None \<Rightarrow> (w\<lparr>ww_file := file, ww_header := Some header, ww_seq := 0, ww_appendErr := None\<rparr>, None)))"

definition next_io :: "append_io list \<Rightarrow> append_io" where
  "next_io ios = (case ios of [] \<Rightarrow> IOok | io # _ \<Rightarrow> io)"

definition wal_append :: "workerRuntimeWAL \<Rightarrow> RuntimeWALRecord \<Rightarrow> workerRuntimeWAL \<times> string option" where
  "wal_append w r =
     (case ww_header w of
        None \<Rightarrow> (w, Some ''runtime WAL is not active'')
      | Some h \<Rightarrow>
          (case ww_appendErr w of
             Some e \<Rightarrow> (w, Some e)
           | None \<Rightarrow>
               (let seq = ww_seq w + 1;
                    r = r\<lparr>wr_WALID := wh_WALID h, wr_Sequence := seq\<rparr>;
                    (file, err) = AppendRuntimeWAL (ww_digests w) (next_io (ww_io w)) (ww_file w) r;
                    w = w\<lparr>ww_file := file, ww_io := tl (ww_io w)\<rparr>
                in case err of
                     Some e \<Rightarrow> (w\<lparr>ww_appendErr := Some (''append runtime WAL: '' @ e)\<rparr>,
                                Some (''append runtime WAL: '' @ e))
                   | None \<Rightarrow> (w\<lparr>ww_seq := seq\<rparr>, None))))"

definition zero_mutation :: HistoryMutation where
  "zero_mutation = \<lparr>hm_Replace = False, hm_Messages = [], hm_UserContextState = None, hm_HasUserContextState = False\<rparr>"

definition zero_record :: RuntimeWALRecord where
  "zero_record = \<lparr>wr_FormatVersion = 0, wr_WALID = '''', wr_Sequence = 0, wr_Mutation = zero_mutation,
     wr_ToolExecutionStarted = None, wr_Checksum = ''''\<rparr>"

definition RecordHistory :: "workerRuntimeWAL \<Rightarrow> HistoryMutation \<Rightarrow> workerRuntimeWAL \<times> string option" where
  "RecordHistory w mutation = wal_append w (zero_record\<lparr>wr_Mutation := mutation\<rparr>)"

definition RecordToolExecutionStarted :: "workerRuntimeWAL \<Rightarrow> string \<Rightarrow> string \<Rightarrow> string
    \<Rightarrow> workerRuntimeWAL \<times> string option" where
  "RecordToolExecutionStarted w callID name args =
     wal_append w (zero_record\<lparr>wr_ToolExecutionStarted :=
       Some \<lparr>wt_ToolCallID = callID, wt_ToolName = name, wt_Arguments = args\<rparr>\<rparr>)"

text \<open>
  \<open>Commit\<close> with the store as the persisted session: the session handed in is updated, put, and the
  log deleted.
\<close>

definition wal_Commit :: "string option \<Rightarrow> delete_io \<Rightarrow> workerRuntimeWAL \<Rightarrow> Session \<Rightarrow> Session
    \<Rightarrow> workerRuntimeWAL \<times> Session \<times> string option" where
  "wal_Commit putErr delIO w stored sess =
     (case ww_appendErr w of
        Some e \<Rightarrow> (w, stored, Some (''runtime WAL is poisoned: '' @ e))
      | None \<Rightarrow>
          (let sess = sess\<lparr>se_SnapshotVersion := se_SnapshotVersion sess + 1\<rparr>;
               sess = (case ww_header w of
                         None \<Rightarrow> sess
                       | Some h \<Rightarrow> sess\<lparr>se_CommittedRuntimeWALID := wh_WALID h,
                                        se_CommittedRuntimeWALSeq := ww_seq w\<rparr>)
           in case putErr of
                Some e \<Rightarrow> (w, stored, Some e)
              | None \<Rightarrow>
                  (if ww_header w = None then (w, sess, None)
                   else (case DeleteRuntimeWAL delIO (ww_file w) of
                           (file, Some e) \<Rightarrow> (w\<lparr>ww_file := file\<rparr>, sess, Some e)
                         | (file, None) \<Rightarrow>
                             (w\<lparr>ww_file := file, ww_header := None, ww_seq := 0, ww_appendErr := None\<rparr>,
                              sess, None)))))"

section \<open>Recovery\<close>

definition toolRecoveryMarker :: "string \<Rightarrow> string \<Rightarrow> string" where
  "toolRecoveryMarker turnID toolCallID =
     ''[zotigo-tool-recovery:'' @ b64_raw_url (turnID @ [CHR 0x00] @ toolCallID) @ '']''"

definition lastHistoryToolCalls :: "Message list \<Rightarrow> ToolCall list" where
  "lastHistoryToolCalls hist =
     (if hist = [] \<or> msg_Role (last hist) \<noteq> RoleAssistant then [] else tool_calls (last hist))"

text \<open>One record of the log applied to the snapshot.\<close>

definition replay_record :: "Snapshot \<Rightarrow> RuntimeWALRecord \<Rightarrow> Snapshot" where
  "replay_record sn r =
     (if wr_ToolExecutionStarted r \<noteq> None then sn
      else
        (let m = wr_Mutation r;
             sn = (if hm_Replace m then sn\<lparr>sn_History := hm_Messages m\<rparr>
                   else sn\<lparr>sn_History := sn_History sn @ hm_Messages m,
                     sn_CumulativeUsage := Normalized (Usage_Add (sn_CumulativeUsage sn) (SessionUsage (hm_Messages m)))\<rparr>)
         in if hm_HasUserContextState m then sn\<lparr>sn_UserContextState := hm_UserContextState m\<rparr> else sn))"

definition not_executed_text :: string where
  "not_executed_text = ''The previous worker stopped before this tool execution began. The tool was not executed.''"

definition unknown_outcome_text :: string where
  "unknown_outcome_text = ''The previous worker stopped after this tool started but before a durable result was recorded. The outcome is unknown and the operation may have produced side effects. Do not repeat it automatically; verify current state with a read-only operation or ask the user before retrying.''"

definition recovered_result :: "string \<Rightarrow> RuntimeWALRecord list \<Rightarrow> ToolCall \<Rightarrow> ToolResult" where
  "recovered_result turnID records call =
     (NewTextToolResult (tc_ID call)
        (if tc_ID call \<in> set (map wt_ToolCallID (List.map_filter wr_ToolExecutionStarted records))
         then (if turnID \<noteq> '''' then toolRecoveryMarker turnID (tc_ID call) @ '' '' else '''') @ unknown_outcome_text
         else not_executed_text) True)\<lparr>tr_ToolName := tc_Name call\<rparr>"

definition recovered_snapshot :: "time \<Rightarrow> string \<Rightarrow> RuntimeWALRecord list \<Rightarrow> Snapshot \<Rightarrow> Snapshot" where
  "recovered_snapshot now turnID records sn =
     (let sn = (if sn_CumulativeUsage sn = zero_Usage
                then sn\<lparr>sn_CumulativeUsage := Normalized (SessionUsage (sn_History sn))\<rparr> else sn);
          sn = foldl replay_record sn records;
          calls = lastHistoryToolCalls (sn_History sn);
          sn = (if calls \<noteq> []
                then sn\<lparr>sn_History := sn_History sn @
                       [NewToolMessage now (map (recovered_result turnID records) calls)]\<rparr> else sn)
      in sn\<lparr>sn_State := StateIdle, sn_PendingActions := [], sn_DeferredActions := []\<rparr>)"

definition last_sequence :: "RuntimeWALRecord list \<Rightarrow> nat" where
  "last_sequence rs = (if rs = [] then 0 else wr_Sequence (last rs))"

record recovery_out =
  ro_file :: "wal_file option"
  ro_stored :: Session
  ro_recovered :: bool
  ro_err :: "string option"

definition recoverRuntimeWAL :: "wal_digests \<Rightarrow> time \<Rightarrow> string option \<Rightarrow> delete_io \<Rightarrow> wal_file option
    \<Rightarrow> Session \<Rightarrow> recovery_out" where
  "recoverRuntimeWAL dg now putErr delIO file sess =
     (case LoadRuntimeWAL dg (se_ID sess) file of
        Inl e \<Rightarrow> \<lparr>ro_file = file, ro_stored = sess, ro_recovered = False, ro_err = Some e\<rparr>
      | Inr None \<Rightarrow> \<lparr>ro_file = file, ro_stored = sess, ro_recovered = False, ro_err = None\<rparr>
      | Inr (Some wal) \<Rightarrow>
          (let h = wal_Header wal; lastSeq = last_sequence (wal_Records wal) in
           if se_CommittedRuntimeWALID sess = wh_WALID h \<and> lastSeq \<le> se_CommittedRuntimeWALSeq sess
           then (let (file', err) = DeleteRuntimeWAL delIO file
                 in \<lparr>ro_file = file', ro_stored = sess, ro_recovered = True, ro_err = err\<rparr>)
           else if wh_BaseSnapshotVersion h \<noteq> se_SnapshotVersion sess
           then \<lparr>ro_file = file, ro_stored = sess, ro_recovered = True,
                 ro_err = Some (''runtime WAL base version '' @ show_int (int (wh_BaseSnapshotVersion h)) @
                   '' does not match snapshot version '' @ show_int (int (se_SnapshotVersion sess)))\<rparr>
           else if wh_BaseSnapshotDigest h \<noteq>
             SnapshotDigestForRuntimeWAL dg (se_AgentSnapshot sess) (wh_FormatVersion h)
           then \<lparr>ro_file = file, ro_stored = sess, ro_recovered = True,
                 ro_err = Some ''runtime WAL base snapshot checksum mismatch''\<rparr>
           else
             (let sess' = sess\<lparr>se_AgentSnapshot := recovered_snapshot now (wh_TurnID h) (wal_Records wal)
                      (se_AgentSnapshot sess),
                    se_SnapshotVersion := se_SnapshotVersion sess + 1,
                    se_CommittedRuntimeWALID := wh_WALID h, se_CommittedRuntimeWALSeq := lastSeq\<rparr>
              in case putErr of
                   Some e \<Rightarrow> \<lparr>ro_file = file, ro_stored = sess, ro_recovered = True,
                              ro_err = Some (''persist runtime WAL recovery: '' @ e)\<rparr>
                 | None \<Rightarrow>
                     (let (file', err) = DeleteRuntimeWAL delIO file
                      in \<lparr>ro_file = file', ro_stored = sess', ro_recovered = True, ro_err = err\<rparr>))))"

section \<open>The invariant of an active log\<close>

definition valid_record :: "wal_digests \<Rightarrow> RuntimeWALHeader \<Rightarrow> nat \<Rightarrow> RuntimeWALRecord \<Rightarrow> bool" where
  "valid_record dg h n r \<longleftrightarrow>
     wr_FormatVersion r = RuntimeWALFormatVersion \<and> wr_WALID r = wh_WALID h \<and> wr_Sequence r = n \<and>
     wr_Checksum r = runtimeWALChecksum dg r \<and> wr_Checksum r \<noteq> ''''"

fun valid_records :: "wal_digests \<Rightarrow> RuntimeWALHeader \<Rightarrow> nat \<Rightarrow> RuntimeWALRecord list \<Rightarrow> bool" where
  "valid_records dg h n [] \<longleftrightarrow> True"
| "valid_records dg h n (r # rs) \<longleftrightarrow> valid_record dg h n r \<and> valid_records dg h (Suc n) rs"

lemma valid_records_append:
  "valid_records dg h n (rs @ qs) \<longleftrightarrow> valid_records dg h n rs \<and> valid_records dg h (n + length rs) qs"
  by (induction rs arbitrary: n) auto

text \<open>
  What a failed append may leave behind the acknowledged records: nothing, undecodable bytes, or
  one whole record with the next sequence number.
\<close>

definition valid_residue :: "wal_digests \<Rightarrow> RuntimeWALHeader \<Rightarrow> nat \<Rightarrow> RuntimeWALRecord wal_line list \<Rightarrow> bool \<Rightarrow> bool" where
  "valid_residue dg h n extra torn \<longleftrightarrow>
     extra = [] \<and> \<not> torn \<or> extra = [Garbage] \<and> torn \<or> (\<exists>r. extra = [Line r] \<and> valid_record dg h n r)"

definition active_log :: "workerRuntimeWAL \<Rightarrow> RuntimeWALHeader \<Rightarrow> RuntimeWALRecord list \<Rightarrow> RuntimeWALRecord wal_line list \<Rightarrow> bool" where
  "active_log w h rs extra \<longleftrightarrow>
     ww_header w = Some h \<and> wh_FormatVersion h = RuntimeWALFormatVersion \<and>
     wh_SessionID h = ww_sessionID w \<and> wh_WALID h \<noteq> '''' \<and>
     (\<forall>r. dg_record (ww_digests w) r \<noteq> '''') \<and>
     valid_records (ww_digests w) h 1 rs \<and> ww_seq w = length rs \<and>
     (\<exists>torn. ww_file w = Some \<lparr>wf_header = Line h, wf_header_terminated = True,
        wf_lines = map Line rs @ extra, wf_torn = torn\<rparr> \<and>
        valid_residue (ww_digests w) h (Suc (length rs)) extra torn \<and>
        (ww_appendErr w = None \<longrightarrow> extra = [] \<and> \<not> torn))"

definition wal_ok :: "workerRuntimeWAL \<Rightarrow> bool" where
  "wal_ok w \<longleftrightarrow> (\<exists>h rs extra. active_log w h rs extra)"

definition record_mutation :: "RuntimeWALRecord \<Rightarrow> HistoryMutation option" where
  "record_mutation r = (if wr_ToolExecutionStarted r = None then Some (wr_Mutation r) else None)"

fun line_record :: "'a wal_line \<Rightarrow> 'a option" where
  "line_record (Line r) = Some r"
| "line_record _ = None"

text \<open>The acknowledged mutations: those among the first \<open>seq\<close> records of the file.\<close>

definition acked_records :: "workerRuntimeWAL \<Rightarrow> RuntimeWALRecord list" where
  "acked_records w =
     (case ww_file w of None \<Rightarrow> []
      | Some f \<Rightarrow> take (ww_seq w) (List.map_filter line_record (wf_lines f)))"

definition wal_journal :: "workerRuntimeWAL \<Rightarrow> HistoryMutation list" where
  "wal_journal w = List.map_filter record_mutation (acked_records w)"

lemma map_filter_lines: "List.map_filter line_record (map Line rs) = rs"
  by (induction rs) (simp_all add: List.map_filter_def)

lemma active_acked: "active_log w h rs extra \<Longrightarrow> acked_records w = rs"
proof -
  assume "active_log w h rs extra"
  then obtain torn where f: "ww_file w = Some \<lparr>wf_header = Line h, wf_header_terminated = True,
        wf_lines = map Line rs @ extra, wf_torn = torn\<rparr>" "ww_seq w = length rs"
    by (auto simp: active_log_def)
  have "List.map_filter line_record (map Line rs @ extra) = rs @ List.map_filter line_record extra"
    using map_filter_lines[of rs] by (simp add: List.map_filter_def)
  then show ?thesis by (simp add: acked_records_def f)
qed

definition sealed :: "workerRuntimeWAL \<Rightarrow> RuntimeWALHeader \<Rightarrow> RuntimeWALRecord \<Rightarrow> RuntimeWALRecord" where
  "sealed w h r =
     (let r = r\<lparr>wr_WALID := wh_WALID h, wr_Sequence := ww_seq w + 1, wr_FormatVersion := RuntimeWALFormatVersion\<rparr>
      in r\<lparr>wr_Checksum := runtimeWALChecksum (ww_digests w) r\<rparr>)"

lemma sealed_valid:
  "\<forall>r. dg_record (ww_digests w) r \<noteq> '''' \<Longrightarrow> valid_record (ww_digests w) h (Suc (ww_seq w)) (sealed w h r)"
  by (simp add: valid_record_def sealed_def runtimeWALChecksum_def Let_def)

lemma sealed_mutation [simp]: "record_mutation (sealed w h r) = record_mutation r"
  by (simp add: record_mutation_def sealed_def Let_def)

text \<open>An append keeps the invariant: it adds the sealed record, or it fails and poisons the log.\<close>

lemma wal_append_active:
  assumes a: "active_log w h rs extra" and e: "wal_append w r = (w', err)"
  shows "case err of
      None \<Rightarrow> active_log w' h (rs @ [sealed w h r]) []
    | Some _ \<Rightarrow> \<exists>extra'. active_log w' h rs extra' \<and> (extra' = extra \<or> extra' = [Garbage] \<or> extra' = [Line (sealed w h r)])"
proof (cases "ww_appendErr w")
  case (Some m)
  moreover have "ww_header w = Some h" using a by (simp add: active_log_def)
  ultimately have "w' = w \<and> err = Some m" using e by (simp add: wal_append_def)
  then show ?thesis using a by auto
next
  case None
  define q where "q = sealed w h r"
  have dg: "\<forall>r. dg_record (ww_digests w) r \<noteq> ''''" "ww_header w = Some h" "ww_seq w = length rs" "extra = []"
    and f: "ww_file w = Some \<lparr>wf_header = Line h, wf_header_terminated = True, wf_lines = map Line rs, wf_torn = False\<rparr>"
    using a None by (auto simp: active_log_def)
  have q: "valid_record (ww_digests w) h (Suc (length rs)) q"
    using sealed_valid[OF dg(1), of h r] dg(3) by (simp add: q_def)
  have ap: "AppendRuntimeWAL (ww_digests w) io (ww_file w) (r\<lparr>wr_WALID := wh_WALID h, wr_Sequence := ww_seq w + 1\<rparr>) =
      (case io of
         IOok \<Rightarrow> (Some \<lparr>wf_header = Line h, wf_header_terminated = True, wf_lines = map Line rs @ [Line q], wf_torn = False\<rparr>, None)
       | IOfail e NoBytes \<Rightarrow> (ww_file w, Some e)
       | IOfail e PartialLine \<Rightarrow> (Some \<lparr>wf_header = Line h, wf_header_terminated = True, wf_lines = map Line rs @ [Garbage], wf_torn = True\<rparr>, Some e)
       | IOfail e UnterminatedLine \<Rightarrow> (Some \<lparr>wf_header = Line h, wf_header_terminated = True, wf_lines = map Line rs @ [Line q], wf_torn = True\<rparr>, Some e)
       | IOfail e WholeLine \<Rightarrow> (Some \<lparr>wf_header = Line h, wf_header_terminated = True, wf_lines = map Line rs @ [Line q], wf_torn = False\<rparr>, Some e))" for io
    by (simp add: AppendRuntimeWAL_def f append_line_def q_def sealed_def Let_def split: append_io.split residue.split)
  have base: "wh_FormatVersion h = RuntimeWALFormatVersion" "wh_SessionID h = ww_sessionID w" "wh_WALID h \<noteq> ''''"
      "valid_records (ww_digests w) h 1 rs"
    using a by (auto simp: active_log_def)
  have vr: "valid_records (ww_digests w) h 1 (rs @ [q])"
    using base(4) q by (simp add: valid_records_append)
  let ?ap = "AppendRuntimeWAL (ww_digests w) (next_io (ww_io w)) (ww_file w)
      (r\<lparr>wr_WALID := wh_WALID h, wr_Sequence := ww_seq w + 1\<rparr>)"
  have eq: "(w', err) = (case snd ?ap of
        Some e \<Rightarrow> (w\<lparr>ww_file := fst ?ap, ww_io := tl (ww_io w), ww_appendErr := Some (''append runtime WAL: '' @ e)\<rparr>,
                   Some (''append runtime WAL: '' @ e))
      | None \<Rightarrow> (w\<lparr>ww_file := fst ?ap, ww_io := tl (ww_io w), ww_seq := ww_seq w + 1\<rparr>, None))"
    unfolding e[symmetric] by (simp add: wal_append_def None dg(2) Let_def split_beta split: option.split)
  show ?thesis
  proof (cases "next_io (ww_io w)")
    case IOok
    then have "w' = w\<lparr>ww_file := Some \<lparr>wf_header = Line h, wf_header_terminated = True,
         wf_lines = map Line rs @ [Line q], wf_torn = False\<rparr>, ww_io := tl (ww_io w), ww_seq := ww_seq w + 1\<rparr> \<and> err = None"
      using eq ap[of IOok] by simp
    then show ?thesis
      using base dg vr None by (auto simp: active_log_def valid_residue_def q_def[symmetric])
  next
    case (IOfail msg res)
    have w': "err = Some (''append runtime WAL: '' @ msg)"
        "w' = w\<lparr>ww_file := fst (AppendRuntimeWAL (ww_digests w) (IOfail msg res) (ww_file w)
             (r\<lparr>wr_WALID := wh_WALID h, wr_Sequence := ww_seq w + 1\<rparr>)),
           ww_io := tl (ww_io w), ww_appendErr := err\<rparr>"
    proof -
      have "snd ?ap = Some msg" unfolding IOfail using ap[of "IOfail msg res"] by (simp split: residue.split)
      with eq show "err = Some (''append runtime WAL: '' @ msg)"
        "w' = w\<lparr>ww_file := fst (AppendRuntimeWAL (ww_digests w) (IOfail msg res) (ww_file w)
             (r\<lparr>wr_WALID := wh_WALID h, wr_Sequence := ww_seq w + 1\<rparr>)),
           ww_io := tl (ww_io w), ww_appendErr := err\<rparr>"
        unfolding IOfail by simp_all
    qed
    obtain extra' torn where x: "fst (AppendRuntimeWAL (ww_digests w) (IOfail msg res) (ww_file w)
             (r\<lparr>wr_WALID := wh_WALID h, wr_Sequence := ww_seq w + 1\<rparr>)) =
          Some \<lparr>wf_header = Line h, wf_header_terminated = True, wf_lines = map Line rs @ extra', wf_torn = torn\<rparr>"
        "valid_residue (ww_digests w) h (Suc (length rs)) extra' torn"
        "extra' = extra \<or> extra' = [Garbage] \<or> extra' = [Line q]"
    proof (cases res)
      case NoBytes
      then show ?thesis
        using ap[of "IOfail msg NoBytes"]
        by (intro that[of "[]" False]) (simp_all only: f, simp_all add: valid_residue_def dg(4))
    next
      case PartialLine
      then show ?thesis using ap[of "IOfail msg PartialLine"]
        by (intro that[of "[Garbage]" True]) (simp_all add: valid_residue_def)
    next
      case UnterminatedLine
      then show ?thesis using q ap[of "IOfail msg UnterminatedLine"]
        by (intro that[of "[Line q]" True]) (simp_all add: valid_residue_def)
    next
      case WholeLine
      then show ?thesis using q ap[of "IOfail msg WholeLine"]
        by (intro that[of "[Line q]" False]) (simp_all add: valid_residue_def)
    qed
    have "active_log w' h rs extra'"
      unfolding active_log_def w'(2) x(1) using base dg(1-3) x(2) w'(1) by simp
    with x(3) w'(1) show ?thesis by (auto simp: q_def)
  qed
qed

lemma wal_append_ok: "wal_ok w \<Longrightarrow> wal_ok (fst (wal_append w r))"
proof -
  assume "wal_ok w"
  then obtain h rs extra where a: "active_log w h rs extra" by (auto simp: wal_ok_def)
  show ?thesis
    using wal_append_active[OF a prod.collapse[symmetric], of r] unfolding wal_ok_def
    by (cases "snd (wal_append w r)") auto
qed

lemma wal_append_journal:
  assumes "wal_ok w" "wal_append w r = (w', err)"
  shows "wal_journal w' = wal_journal w @
    (if err = None then (case record_mutation r of None \<Rightarrow> [] | Some m \<Rightarrow> [m]) else [])"
proof -
  obtain h rs extra where a: "active_log w h rs extra" using assms(1) by (auto simp: wal_ok_def)
  show ?thesis
    using wal_append_active[OF a assms(2)] active_acked[OF a] active_acked
    by (auto simp: wal_journal_def List.map_filter_def split: option.splits)
qed

text \<open>
  The worker's log meets the contract the conversation relies on: a recorded mutation is the next
  one of the journal, and a failed one, whatever it left in the file, is not.
\<close>

interpretation wal: durable_recorder RecordHistory wal_journal wal_ok
proof
  fix w m w' e
  assume ok: "wal_ok w"
  show "RecordHistory w m = (w', None) \<Longrightarrow> wal_journal w' = wal_journal w @ [m]"
    using wal_append_journal[OF ok] by (auto simp: RecordHistory_def record_mutation_def zero_record_def)
  show "RecordHistory w m = (w', Some e) \<Longrightarrow> wal_journal w' = wal_journal w"
    using wal_append_journal[OF ok] by (auto simp: RecordHistory_def)
  show "wal_ok (fst (RecordHistory w m))"
    using wal_append_ok[OF ok] by (simp add: RecordHistory_def)
qed

section \<open>Loading and recovering\<close>

lemma load_valid_records:
  assumes "wh_FormatVersion h = RuntimeWALFormatVersion" "valid_records dg h n rs"
  shows "load_records dg h torn n (map Line rs @ ls) =
    (case load_records dg h torn (n + length rs) ls of Inl e \<Rightarrow> Inl e | Inr qs \<Rightarrow> Inr (rs @ qs))"
  using assms(2)
proof (induction rs arbitrary: n)
  case (Cons r rs)
  then show ?case
    using assms(1)
    by (auto simp: valid_record_def Let_def RuntimeWALFormatVersion_def legacyRuntimeWALFormatVersion_def
        split: sum.split)
qed (simp split: sum.split)

definition loaded_extra :: "RuntimeWALRecord wal_line list \<Rightarrow> RuntimeWALRecord list" where
  "loaded_extra extra = List.map_filter line_record extra"

lemma load_residue:
  assumes "wh_FormatVersion h = RuntimeWALFormatVersion" "valid_residue dg h n extra torn"
  shows "load_records dg h torn n extra = Inr (loaded_extra extra)"
  using assms
  by (auto simp: valid_residue_def loaded_extra_def List.map_filter_def valid_record_def Let_def
      RuntimeWALFormatVersion_def legacyRuntimeWALFormatVersion_def)

lemma LoadRuntimeWAL_active:
  assumes "active_log w h rs extra"
  shows "LoadRuntimeWAL (ww_digests w) (ww_sessionID w) (ww_file w) =
    Inr (Some \<lparr>wal_Header = h, wal_Records = rs @ loaded_extra extra\<rparr>)"
proof -
  obtain torn where t: "ww_file w = Some \<lparr>wf_header = Line h, wf_header_terminated = True,
        wf_lines = map Line rs @ extra, wf_torn = torn\<rparr>"
      "valid_residue (ww_digests w) h (Suc (length rs)) extra torn"
    and h: "wh_FormatVersion h = RuntimeWALFormatVersion" "valid_records (ww_digests w) h 1 rs"
      "wh_SessionID h = ww_sessionID w" "wh_WALID h \<noteq> ''''"
    using assms by (auto simp: active_log_def)
  show ?thesis
    using load_valid_records[OF h(1,2), of torn extra] load_residue[OF h(1) t(2)] h(1,3,4)
    by (simp add: LoadRuntimeWAL_def t(1) supportedRuntimeWALFormat_def)
qed

lemma valid_records_last: "valid_records dg h n rs \<Longrightarrow> rs \<noteq> [] \<Longrightarrow> wr_Sequence (last rs) = n + length rs - 1"
  by (induction rs arbitrary: n) (auto simp: valid_record_def split: if_splits)

lemma replay_record_history:
  "(sn_History (replay_record sn r), sn_UserContextState (replay_record sn r)) =
     (case record_mutation r of None \<Rightarrow> (sn_History sn, sn_UserContextState sn)
      | Some m \<Rightarrow> apply_mutation (sn_History sn, sn_UserContextState sn) m)"
  by (simp add: replay_record_def record_mutation_def apply_mutation_def Let_def)

lemma replay_records_history:
  "(sn_History (foldl replay_record sn rs), sn_UserContextState (foldl replay_record sn rs)) =
     replay (sn_History sn, sn_UserContextState sn) (List.map_filter record_mutation rs)"
proof (induction rs rule: rev_induct)
  case (snoc r rs)
  then show ?case
    using replay_record_history[of "foldl replay_record sn rs" r]
    by (auto simp: List.map_filter_def replay_snoc split: option.splits)
qed (simp add: List.map_filter_def)

section \<open>Durability theorems\<close>

text \<open>
  C7. Memory never runs ahead of the log.  Whatever operations a conversation performs over the
  worker's write-ahead log, and however its appends fail, the history and the context cursor in
  memory are exactly the base replayed over the acknowledged mutations of the log file.
\<close>

theorem conversation_matches_wal:
  assumes "recorder s = Some w" and "wal_ok w" and "conversation_snapshot s = replay base (wal_journal w)"
  shows "\<exists>w'. recorder (conversation_run RecordHistory s ops) = Some w' \<and> wal_ok w' \<and>
    conversation_snapshot (conversation_run RecordHistory s ops) = replay base (wal_journal w')"
proof -
  have "wal.synced base s" using assms by (simp add: wal.synced_def)
  then have "wal.synced base (conversation_run RecordHistory s ops)" by (rule wal.run_synced)
  then show ?thesis by (simp add: wal.synced_def)
qed

lemma recovered_history:
  "(let hu = replay (sn_History sn, sn_UserContextState sn) (List.map_filter record_mutation rs);
        calls = lastHistoryToolCalls (fst hu)
    in sn_History (recovered_snapshot now turnID rs sn) = fst hu @
         (if calls = [] then [] else [NewToolMessage now (map (recovered_result turnID rs) calls)]) \<and>
       sn_UserContextState (recovered_snapshot now turnID rs sn) = snd hu)"
proof -
  let ?sn = "if sn_CumulativeUsage sn = zero_Usage
      then sn\<lparr>sn_CumulativeUsage := Normalized (SessionUsage (sn_History sn))\<rparr> else sn"
  have "sn_History ?sn = sn_History sn" "sn_UserContextState ?sn = sn_UserContextState sn" by simp_all
  then have "replay (sn_History sn, sn_UserContextState sn) (List.map_filter record_mutation rs) =
      (sn_History (foldl replay_record ?sn rs), sn_UserContextState (foldl replay_record ?sn rs))"
    using replay_records_history[of ?sn rs] by metis
  then show ?thesis unfolding recovered_snapshot_def Let_def by simp
qed

lemma loaded_extra_small:
  "active_log w h rs extra \<Longrightarrow> length (loaded_extra extra) \<le> 1 \<and> (ww_appendErr w = None \<longrightarrow> loaded_extra extra = [])"
  by (auto simp: active_log_def valid_residue_def loaded_extra_def List.map_filter_def)

text \<open>
  C1. Crash recovery.  From the persisted base session and the log file of a worker that stopped at
  any point, recovery stores the base replayed over every acknowledged mutation, followed by at
  most one mutation whose append reported a failure, and then one tool message that answers the
  unanswered calls of the last assistant message.  The recovered session is idle with nothing
  pending.
\<close>

theorem recovery_replays_acknowledged:
  assumes "active_log w h rs extra" and "se_ID sess = ww_sessionID w"
    and "wh_BaseSnapshotVersion h = se_SnapshotVersion sess"
    and "wh_BaseSnapshotDigest h = SnapshotDigest (ww_digests w) (se_AgentSnapshot sess)"
    and "se_CommittedRuntimeWALID sess \<noteq> wh_WALID h"
  shows "\<exists>more records. length more \<le> 1 \<and> (ww_appendErr w = None \<longrightarrow> more = []) \<and>
     (let base = (sn_History (se_AgentSnapshot sess), sn_UserContextState (se_AgentSnapshot sess));
          hu = replay base (wal_journal w @ more);
          calls = lastHistoryToolCalls (fst hu);
          sn = se_AgentSnapshot (ro_stored (recoverRuntimeWAL (ww_digests w) now None delIO (ww_file w) sess))
      in sn_History sn = fst hu @ (if calls = [] then []
             else [NewToolMessage now (map (recovered_result (wh_TurnID h) records) calls)]) \<and>
         sn_UserContextState sn = snd hu \<and> sn_State sn = StateIdle \<and>
         sn_PendingActions sn = [] \<and> sn_DeferredActions sn = [])"
proof -
  let ?rs = "rs @ loaded_extra extra"
  let ?more = "List.map_filter record_mutation (loaded_extra extra)"
  have fmt: "wh_FormatVersion h = RuntimeWALFormatVersion" using assms(1) by (simp add: active_log_def)
  have "se_AgentSnapshot (ro_stored (recoverRuntimeWAL (ww_digests w) now None delIO (ww_file w) sess)) =
      recovered_snapshot now (wh_TurnID h) ?rs (se_AgentSnapshot sess)"
    using LoadRuntimeWAL_active[OF assms(1)] assms(2-5) fmt
    by (simp add: recoverRuntimeWAL_def Let_def split_beta SnapshotDigestForRuntimeWAL_def
        RuntimeWALFormatVersion_def legacyRuntimeWALFormatVersion_def)
  moreover have "wal_journal w @ ?more = List.map_filter record_mutation ?rs"
    using active_acked[OF assms(1)] by (simp add: wal_journal_def List.map_filter_def)
  moreover have "length ?more \<le> 1 \<and> (ww_appendErr w = None \<longrightarrow> ?more = [])"
    using loaded_extra_small[OF assms(1)]
    by (auto simp: List.map_filter_def intro: order.trans[OF length_filter_le])
  moreover have "sn_State (recovered_snapshot now (wh_TurnID h) ?rs (se_AgentSnapshot sess)) = StateIdle"
      "sn_PendingActions (recovered_snapshot now (wh_TurnID h) ?rs (se_AgentSnapshot sess)) = []"
      "sn_DeferredActions (recovered_snapshot now (wh_TurnID h) ?rs (se_AgentSnapshot sess)) = []"
    by (simp_all add: recovered_snapshot_def Let_def)
  ultimately show ?thesis
    using recovered_history[of "se_AgentSnapshot sess" ?rs now "wh_TurnID h"]
    by (intro exI[of _ ?more] exI[of _ ?rs]) (simp add: Let_def)
qed

text \<open>
  A log is replayed at most once.  If the recovered session was stored but the log could not be
  deleted, recovering again from the same file leaves the stored session as it is.
\<close>

theorem recovery_idempotent:
  "let out = recoverRuntimeWAL dg now None delIO file sess
   in ro_stored (recoverRuntimeWAL dg now' putErr delIO' (ro_file out) (ro_stored out)) = ro_stored out"
proof -
  have d: "fst (DeleteRuntimeWAL delIO file) = None \<or> fst (DeleteRuntimeWAL delIO file) = file"
    by (simp add: DeleteRuntimeWAL_def split: option.split delete_io.split)
  show ?thesis
  proof (cases "LoadRuntimeWAL dg (se_ID sess) file")
    case (Inl e)
    then show ?thesis by (simp add: recoverRuntimeWAL_def)
  next
    case (Inr ow)
    show ?thesis
    proof (cases ow)
      case None
      with Inr show ?thesis by (simp add: recoverRuntimeWAL_def)
    next
      case (Some wal)
      with Inr d show ?thesis
        by (auto simp: recoverRuntimeWAL_def Let_def split_beta LoadRuntimeWAL_def[of _ _ None])
    qed
  qed
qed

text \<open>
  A crash between storing a committed session and deleting its log loses nothing and repeats
  nothing: recovery from the leftover log keeps the committed session.
\<close>

theorem commit_then_recover:
  assumes "active_log w h rs extra" and "se_ID sess = ww_sessionID w"
    and "wal_Commit None commitIO w stored sess = (w', sess', err)"
    and "ww_appendErr w = None"
  shows "ro_stored (recoverRuntimeWAL (ww_digests w) now putErr delIO (ww_file w') sess') = sess' \<and>
    se_AgentSnapshot sess' = se_AgentSnapshot sess"
proof -
  have h: "ww_header w = Some h" "ww_seq w = length rs" "extra = []" "valid_records (ww_digests w) h 1 rs"
    using assms(1,4) by (auto simp: active_log_def)
  have s': "sess' = sess\<lparr>se_SnapshotVersion := se_SnapshotVersion sess + 1,
        se_CommittedRuntimeWALID := wh_WALID h, se_CommittedRuntimeWALSeq := length rs\<rparr>"
    and f: "ww_file w' = None \<or> ww_file w' = ww_file w"
    using assms(3,4) h(1,2)
    by (auto simp: wal_Commit_def Let_def DeleteRuntimeWAL_def split: option.splits delete_io.splits prod.splits)
  have "last_sequence rs \<le> length rs"
    using valid_records_last[OF h(4)] by (simp add: last_sequence_def)
  then show ?thesis
    using f LoadRuntimeWAL_active[OF assms(1)] assms(2) h(3)
    by (auto simp: recoverRuntimeWAL_def s' Let_def split_beta LoadRuntimeWAL_def[of _ _ None]
        loaded_extra_def List.map_filter_def)
qed

definition append_all :: "workerRuntimeWAL \<Rightarrow> RuntimeWALRecord list \<Rightarrow> workerRuntimeWAL" where
  "append_all w rs = foldl (\<lambda>w r. fst (wal_append w r)) w rs"

lemma append_all_active:
  assumes "active_log w h rs extra"
  shows "\<exists>rs' extra'. active_log (append_all w qs) h (rs @ rs') extra'"
proof (induction qs rule: rev_induct)
  case Nil
  then show ?case using assms by (metis append_Nil2 append_all_def foldl_Nil)
next
  case (snoc q qs)
  then obtain rs' extra' where a: "active_log (append_all w qs) h (rs @ rs') extra'" by blast
  have "append_all w (qs @ [q]) = fst (wal_append (append_all w qs) q)" by (simp add: append_all_def)
  then show ?case
    using wal_append_active[OF a prod.collapse[symmetric], of q]
    by (cases "snd (wal_append (append_all w qs) q)") (auto intro: exI[of _ "rs' @ [x]" for x])
qed

text \<open>
  A tool whose start was recorded is never reported as not executed.  After the record, however
  many further appends succeed or fail before the crash, the log loads, and the recovered result of
  that call says that the outcome is unknown and must not be repeated.
\<close>

theorem started_tool_outcome_unknown:
  assumes "wal_ok w" and "RecordToolExecutionStarted w (tc_ID call) name args = (w', None)"
  shows "\<exists>log. LoadRuntimeWAL (ww_digests (append_all w' qs)) (ww_sessionID (append_all w' qs))
       (ww_file (append_all w' qs)) = Inr (Some log) \<and>
     suffix unknown_outcome_text (tr_Text (recovered_result (wh_TurnID (wal_Header log)) (wal_Records log) call))"
proof -
  obtain h rs extra where a: "active_log w h rs extra" using assms(1) by (auto simp: wal_ok_def)
  let ?r = "zero_record\<lparr>wr_ToolExecutionStarted := Some \<lparr>wt_ToolCallID = tc_ID call, wt_ToolName = name, wt_Arguments = args\<rparr>\<rparr>"
  have "active_log w' h (rs @ [sealed w h ?r]) []"
    using wal_append_active[OF a, of ?r w' None] assms(2) by (simp add: RecordToolExecutionStarted_def)
  then obtain rs' extra' where a': "active_log (append_all w' qs) h ((rs @ [sealed w h ?r]) @ rs') extra'"
    using append_all_active by blast
  have "wr_ToolExecutionStarted (sealed w h ?r) = Some \<lparr>wt_ToolCallID = tc_ID call, wt_ToolName = name, wt_Arguments = args\<rparr>"
    by (simp add: sealed_def Let_def)
  then have "tc_ID call \<in> set (map wt_ToolCallID (List.map_filter wr_ToolExecutionStarted
      (((rs @ [sealed w h ?r]) @ rs') @ loaded_extra extra')))"
    by (simp add: List.map_filter_def)
  then show ?thesis
    using LoadRuntimeWAL_active[OF a'] by (auto simp: recovered_result_def NewTextToolResult_def suffix_def)
qed

section \<open>A concrete log\<close>

definition sample_digests :: wal_digests where
  "sample_digests = \<lparr>dg_record = (\<lambda>_. ''d''), dg_legacy_line = (\<lambda>_. ''d''), dg_history = (\<lambda>_. ''h''),
     dg_legacy_history = (\<lambda>_. ''h'')\<rparr>"

definition sample_session :: Session where
  "sample_session = \<lparr>se_ID = ''s'', se_AgentSnapshot = paused_snapshot\<lparr>sn_State := StateIdle,
       sn_PendingActions := [], sn_DeferredActions := []\<rparr>,
     se_SnapshotVersion = 4, se_CommittedRuntimeWALID = '''', se_CommittedRuntimeWALSeq = 0\<rparr>"

definition sample_header :: RuntimeWALHeader where
  "sample_header = \<lparr>wh_FormatVersion = 2, wh_SessionID = ''s'', wh_TurnID = ''turn_1'', wh_WALID = ''wal'',
     wh_BaseSnapshotVersion = 4, wh_BaseSnapshotDigest = ''h'', wh_CreatedAt = 1\<rparr>"

text \<open>A worker that begins a log, records a message, and then fails to sync the next one.\<close>

definition idle_wal :: workerRuntimeWAL where
  "idle_wal = \<lparr>ww_sessionID = ''s'', ww_header = None, ww_seq = 0, ww_appendErr = None, ww_file = None,
     ww_digests = sample_digests, ww_io = [IOok, IOfail ''sync failed'' WholeLine]\<rparr>"

definition begun_wal :: workerRuntimeWAL where
  "begun_wal = fst (wal_Begin None ''wal'' 1 idle_wal sample_session (se_AgentSnapshot sample_session) ''turn_1'')"

definition user_mutation :: "string \<Rightarrow> HistoryMutation" where
  "user_mutation t = zero_mutation\<lparr>hm_Messages := [NewUserMessage 2 t]\<rparr>"

lemma begun_active: "active_log begun_wal sample_header [] []"
  by (auto simp: active_log_def begun_wal_def wal_Begin_def idle_wal_def sample_header_def sample_session_def
      sample_digests_def SnapshotDigest_def NewRuntimeWALHeader_def BeginRuntimeWAL_def Let_def
      RuntimeWALFormatVersion_def valid_residue_def)

definition recorded_wal :: workerRuntimeWAL where
  "recorded_wal = fst (RecordHistory begun_wal (user_mutation ''one''))"

lemma recorded_active:
  "\<exists>r. active_log recorded_wal sample_header [r] [] \<and> wal_journal recorded_wal = [user_mutation ''one'']"
proof -
  have "map_option id (snd (RecordHistory begun_wal (user_mutation ''one''))) = None" by code_simp
  then have e: "wal_append begun_wal (zero_record\<lparr>wr_Mutation := user_mutation ''one''\<rparr>) = (recorded_wal, None)"
    by (simp add: recorded_wal_def RecordHistory_def prod_eq_iff option.map_id)
  moreover have "wal_journal begun_wal = []"
    using active_acked[OF begun_active] by (simp add: wal_journal_def List.map_filter_def)
  moreover have "wal_ok begun_wal" using begun_active by (auto simp: wal_ok_def)
  ultimately show ?thesis
    using wal_append_active[OF begun_active e] wal_append_journal[OF _ e]
    by (auto simp: record_mutation_def zero_record_def)
qed

theorem conversation_matches_wal_witness:
  "\<exists>w'. recorder (conversation_run RecordHistory (newConversationState\<lparr>recorder := Some begun_wal\<rparr>)
       [OpAppendMessages [NewUserMessage 2 ''one''], OpAppendMessages [NewUserMessage 3 ''two'']]) = Some w' \<and> wal_ok w' \<and>
     conversation_snapshot (conversation_run RecordHistory (newConversationState\<lparr>recorder := Some begun_wal\<rparr>)
       [OpAppendMessages [NewUserMessage 2 ''one''], OpAppendMessages [NewUserMessage 3 ''two'']]) =
     replay ([], None) (wal_journal w')"
proof -
  have "recorder (newConversationState\<lparr>recorder := Some begun_wal\<rparr>) = Some begun_wal" "wal_ok begun_wal"
    "conversation_snapshot (newConversationState\<lparr>recorder := Some begun_wal\<rparr>) = replay ([], None) (wal_journal begun_wal)"
    using begun_active active_acked[OF begun_active]
    by (auto simp: wal_ok_def conversation_snapshot_def newConversationState_def wal_journal_def List.map_filter_def)
  then show ?thesis by (rule conversation_matches_wal)
qed

lemma sample_base:
  "sn_History (se_AgentSnapshot sample_session) = []" "sn_UserContextState (se_AgentSnapshot sample_session) = None"
  "ww_appendErr recorded_wal = None" "ww_sessionID recorded_wal = ''s''" "ww_digests recorded_wal = sample_digests"
proof -
  show "sn_History (se_AgentSnapshot sample_session) = []" "sn_UserContextState (se_AgentSnapshot sample_session) = None"
    by (simp_all add: sample_session_def paused_snapshot_def)
  show "ww_appendErr recorded_wal = None" "ww_sessionID recorded_wal = ''s''" "ww_digests recorded_wal = sample_digests"
    by (simp_all add: recorded_wal_def RecordHistory_def wal_append_def begun_wal_def wal_Begin_def idle_wal_def
        sample_session_def sample_digests_def SnapshotDigest_def NewRuntimeWALHeader_def BeginRuntimeWAL_def Let_def
        RuntimeWALFormatVersion_def next_io_def AppendRuntimeWAL_def)
qed

theorem recovery_replays_acknowledged_witness:
  "sn_History (se_AgentSnapshot (ro_stored
     (recoverRuntimeWAL sample_digests 9 None DeleteOk (ww_file recorded_wal) sample_session))) = [NewUserMessage 2 ''one'']"
proof -
  obtain r where a: "active_log recorded_wal sample_header [r] []" "wal_journal recorded_wal = [user_mutation ''one'']"
    using recorded_active by blast
  have "lastHistoryToolCalls [NewUserMessage 2 ''one''] = []"
    by (simp add: lastHistoryToolCalls_def)
  then show ?thesis
    using recovery_replays_acknowledged[OF a(1), of sample_session 9 DeleteOk] sample_base a(2)
    by (auto simp: sample_header_def sample_session_def SnapshotDigest_def sample_digests_def Let_def replay_def
        apply_mutation_def user_mutation_def zero_mutation_def)
qed

theorem commit_then_recover_witness:
  "ro_stored (recoverRuntimeWAL sample_digests 9 None DeleteOk
     (ww_file (fst (wal_Commit None (RemoveFails ''busy'') recorded_wal sample_session sample_session)))
     (fst (snd (wal_Commit None (RemoveFails ''busy'') recorded_wal sample_session sample_session)))) =
   fst (snd (wal_Commit None (RemoveFails ''busy'') recorded_wal sample_session sample_session))"
proof -
  obtain r where a: "active_log recorded_wal sample_header [r] []" using recorded_active by blast
  have "se_ID sample_session = ww_sessionID recorded_wal" by (simp add: sample_base sample_session_def)
  from commit_then_recover[OF a this, of "RemoveFails ''busy''" sample_session "fst (wal_Commit None (RemoveFails ''busy'') recorded_wal sample_session sample_session)"]
  show ?thesis using sample_base by (metis prod.collapse)
qed

definition sample_started :: "workerRuntimeWAL \<times> string option" where
  "sample_started = RecordToolExecutionStarted begun_wal ''c1'' ''deploy'' ''{}''"

theorem started_tool_outcome_unknown_witness:
  "\<exists>log. LoadRuntimeWAL (ww_digests (append_all (fst sample_started) [zero_record])) (ww_sessionID (append_all (fst sample_started) [zero_record]))
       (ww_file (append_all (fst sample_started) [zero_record])) = Inr (Some log) \<and>
     suffix unknown_outcome_text (tr_Text (recovered_result (wh_TurnID (wal_Header log)) (wal_Records log) (sample_call ''deploy'')))"
proof -
  have "wal_ok begun_wal" using begun_active by (auto simp: wal_ok_def)
  moreover have "map_option id (snd sample_started) = None" by code_simp
  then have "RecordToolExecutionStarted begun_wal (tc_ID (sample_call ''deploy'')) ''deploy'' ''{}'' = (fst sample_started, None)"
    by (simp add: sample_started_def sample_call_def prod_eq_iff option.map_id)
  ultimately show ?thesis by (rule started_tool_outcome_unknown)
qed

end
