(* ===== verification/Input_Queue.thy ===== *)
theory Input_Queue
  imports Prelude
begin

text \<open>
  The durable input queue of a session (\<open>core/workspace/input_queue.go\<close>).

  The table \<open>session_input_queue\<close> is the list of its rows in the order of their primary key; a
  row extends the struct \<open>QueuedInput\<close> by the columns the struct leaves out.  \<open>SELECT\<close> filters
  the list and \<open>UPDATE\<close> maps over it.  A payload is what \<open>json.Unmarshal\<close> makes of the stored
  text, which the operations here only move around, so its type is a parameter.  A statement the
  database refuses leaves the table as it is: SQLite statements and transactions are atomic.

  The lemmas show that the uniqueness and batch invariants are kept by every operation, that a
  row is changed only together with its revision, that a claimed batch is frozen until it is
  released, and that an input that was sent stays sent.
\<close>

section \<open>Rows and statements\<close>

datatype queue_state = Queued | Paused | Sending | Sent | Cancelled

record 'p QueuedInput =
  qi_ID :: string
  qi_Payload :: 'p
  qi_State :: queue_state
  qi_BatchID :: string
  qi_Revision :: int

record 'p queue_row = "'p QueuedInput" +
  qr_session :: string
  qr_sequence :: int

text \<open>The table and the counter SQLite keeps for an \<open>AUTOINCREMENT\<close> key.\<close>

record 'p queue_table =
  qt_rows :: "'p queue_row list"
  qt_last :: int

datatype queue_error = ErrQueueConflict

abbreviation select_cols :: "'p queue_row \<Rightarrow> 'p QueuedInput" where
  "select_cols r \<equiv> QueuedInput.truncate r"

definition editable :: "'p queue_row \<Rightarrow> bool" where
  "editable r \<longleftrightarrow> qi_BatchID r = '''' \<and> qi_State r \<in> {Queued, Paused}"

definition open_row :: "'p queue_row \<Rightarrow> bool" where
  "open_row r \<longleftrightarrow> qi_State r \<in> {Queued, Paused, Sending}"

definition is_completion :: "'p queue_row \<Rightarrow> bool" where
  "is_completion r \<longleftrightarrow> HasPrefix (qi_ID r) ''completion:''"

definition bump :: "'p queue_row \<Rightarrow> 'p queue_row" where
  "bump r = r\<lparr>qi_Revision := qi_Revision r + 1\<rparr>"

definition update_where ::
  "('p queue_row \<Rightarrow> bool) \<Rightarrow> ('p queue_row \<Rightarrow> 'p queue_row) \<Rightarrow> 'p queue_table \<Rightarrow> 'p queue_table"
where
  "update_where P f t = t\<lparr>qt_rows := map (\<lambda>r. if P r then f r else r) (qt_rows t)\<rparr>"

definition rows_matching :: "('p queue_row \<Rightarrow> bool) \<Rightarrow> 'p queue_table \<Rightarrow> 'p queue_row list" where
  "rows_matching P t = filter P (qt_rows t)"

section \<open>Operations\<close>

definition QueuedInputByID :: "'p queue_table \<Rightarrow> string \<Rightarrow> string \<Rightarrow> 'p QueuedInput option" where
  "QueuedInputByID t sid i =
     map_option select_cols (find (\<lambda>r. qr_session r = sid \<and> qi_ID r = i) (qt_rows t))"

definition new_row :: "'p queue_table \<Rightarrow> string \<Rightarrow> string \<Rightarrow> 'p \<Rightarrow> 'p queue_row" where
  "new_row t sid i payload =
     \<lparr>qi_ID = i, qi_Payload = payload, qi_State = Queued, qi_BatchID = '''', qi_Revision = 1,
      qr_session = sid, qr_sequence = qt_last t + 1\<rparr>"

definition insert_row :: "'p queue_table \<Rightarrow> 'p queue_row \<Rightarrow> 'p queue_table" where
  "insert_row t r = t\<lparr>qt_rows := qt_rows t @ [r], qt_last := qr_sequence r\<rparr>"

definition QueueInput :: "'p queue_table \<Rightarrow> string \<Rightarrow> string \<Rightarrow> 'p \<Rightarrow> 'p queue_table" where
  "QueueInput t sid i payload =
     (if QueuedInputByID t sid i \<noteq> None then t else insert_row t (new_row t sid i payload))"

definition QueuedInputs :: "'p queue_table \<Rightarrow> string \<Rightarrow> 'p QueuedInput list" where
  "QueuedInputs t sid =
     map select_cols (rows_matching (\<lambda>r. qr_session r = sid \<and> open_row r) t)"

text \<open>A compare-and-set statement that must affect exactly one row.\<close>

definition update_one ::
  "('p queue_row \<Rightarrow> bool) \<Rightarrow> ('p queue_row \<Rightarrow> 'p queue_row) \<Rightarrow> 'p queue_table
     \<Rightarrow> (queue_error + unit) \<times> 'p queue_table"
where
  "update_one P f t =
     (if length (rows_matching P t) \<noteq> 1 then (Inl ErrQueueConflict, update_where P f t)
      else (Inr (), update_where P f t))"

definition at_revision :: "string \<Rightarrow> string \<Rightarrow> int \<Rightarrow> 'p queue_row \<Rightarrow> bool" where
  "at_revision sid i revn r \<longleftrightarrow>
     qr_session r = sid \<and> qi_ID r = i \<and> qi_Revision r = revn \<and> editable r"

definition UpdateQueuedInput ::
  "'p queue_table \<Rightarrow> string \<Rightarrow> string \<Rightarrow> int \<Rightarrow> 'p \<Rightarrow> bool
     \<Rightarrow> (queue_error + unit) \<times> 'p queue_table"
where
  "UpdateQueuedInput t sid i revn payload remove =
     (if remove then update_one (at_revision sid i revn) (\<lambda>r. bump (r\<lparr>qi_State := Cancelled\<rparr>)) t
      else update_one (at_revision sid i revn) (\<lambda>r. bump (r\<lparr>qi_Payload := payload\<rparr>)) t)"

definition ClaimQueuedInput ::
  "'p queue_table \<Rightarrow> string \<Rightarrow> string \<Rightarrow> int \<Rightarrow> string \<Rightarrow> (queue_error + unit) \<times> 'p queue_table"
where
  "ClaimQueuedInput t sid i revn batch =
     update_one (at_revision sid i revn)
       (\<lambda>r. bump (r\<lparr>qi_State := Sending, qi_BatchID := batch\<rparr>)) t"

definition in_batch :: "string \<Rightarrow> string \<Rightarrow> 'p queue_row \<Rightarrow> bool" where
  "in_batch sid batch r \<longleftrightarrow>
     qr_session r = sid \<and> qi_BatchID r = batch \<and> qi_State r \<in> {Paused, Sending}"

definition set_state :: "queue_state \<Rightarrow> 'p queue_row \<Rightarrow> 'p queue_row" where
  "set_state st r = bump (r\<lparr>qi_State := st\<rparr>)"

definition FinishQueuedBatch :: "'p queue_table \<Rightarrow> string \<Rightarrow> string \<Rightarrow> bool \<Rightarrow> 'p queue_table" where
  "FinishQueuedBatch t sid batch success =
     update_where (in_batch sid batch) (set_state (if success then Sent else Paused)) t"

definition ReleaseQueuedBatch :: "'p queue_table \<Rightarrow> string \<Rightarrow> string \<Rightarrow> 'p queue_table" where
  "ReleaseQueuedBatch t sid batch =
     update_where (in_batch sid batch)
       (\<lambda>r. bump (r\<lparr>qi_State := Queued, qi_BatchID := ''''\<rparr>)) t"

definition PauseQueuedInputs :: "'p queue_table \<Rightarrow> string \<Rightarrow> 'p queue_table" where
  "PauseQueuedInputs t sid =
     update_where (\<lambda>r. qr_session r = sid \<and> qi_State r = Queued) (set_state Paused) t"

definition RecoverQueuedInputs :: "'p queue_table \<Rightarrow> 'p queue_table" where
  "RecoverQueuedInputs t =
     update_where (\<lambda>r. qi_State r \<in> {Queued, Sending}) (set_state Paused) t"

subsection \<open>Claiming a batch\<close>

text \<open>
  The first statement of a resumed claim makes paused inputs that belong to no batch eligible
  again.  The batch that is open already is the one of its earliest row.
\<close>

definition resume_paused :: "'p queue_table \<Rightarrow> string \<Rightarrow> 'p queue_table" where
  "resume_paused t sid =
     update_where (\<lambda>r. qr_session r = sid \<and> qi_State r = Paused \<and> qi_BatchID r = '''')
       (set_state Queued) t"

definition existing_batch :: "'p queue_table \<Rightarrow> string \<Rightarrow> string" where
  "existing_batch t sid =
     (case find (\<lambda>r. qr_session r = sid \<and> qi_BatchID r \<noteq> '''' \<and> open_row r) (qt_rows t) of
        None \<Rightarrow> '''' | Some r \<Rightarrow> qi_BatchID r)"

definition resume_batch :: "'p queue_table \<Rightarrow> string \<Rightarrow> string \<Rightarrow> 'p queue_table" where
  "resume_batch t sid batch =
     update_where (\<lambda>r. qr_session r = sid \<and> qi_BatchID r = batch \<and> qi_State r = Paused)
       (set_state Sending) t"

definition candidate :: "string \<Rightarrow> 'p queue_row \<Rightarrow> bool" where
  "candidate sid r \<longleftrightarrow> qr_session r = sid \<and> editable r"

text \<open>\<open>COALESCE(MIN(sequence), 9223372036854775807)\<close> over the waiting completion rows.\<close>

definition completion_bound :: "'p queue_table \<Rightarrow> string \<Rightarrow> int" where
  "completion_bound t sid =
     (case rows_matching (\<lambda>r. candidate sid r \<and> is_completion r) t of
        [] \<Rightarrow> 9223372036854775807
      | r # rs \<Rightarrow> fold min (map qr_sequence rs) (qr_sequence r))"

definition claim_row :: "string \<Rightarrow> 'p queue_row \<Rightarrow> 'p queue_row" where
  "claim_row batch r = bump (r\<lparr>qi_BatchID := batch, qi_State := Sending\<rparr>)"

definition claim_prefix ::
  "'p queue_table \<Rightarrow> string \<Rightarrow> string \<Rightarrow> 'p queue_row \<Rightarrow> string \<times> 'p queue_table"
where
  "claim_prefix t sid batch first =
     (if is_completion first then
        (qi_ID first,
         update_where (\<lambda>r. qr_session r = sid \<and> qi_ID r = qi_ID first)
           (claim_row (qi_ID first)) t)
      else
        (batch,
         update_where (\<lambda>r. candidate sid r \<and> qr_sequence r < completion_bound t sid)
           (claim_row batch) t))"

definition batch_rows :: "'p queue_table \<Rightarrow> string \<Rightarrow> string \<Rightarrow> 'p QueuedInput list" where
  "batch_rows t sid batch = map select_cols (rows_matching (in_batch sid batch) t)"

text \<open>
  Returning before the commit rolls the transaction back, so the early returns keep the table
  the call was given.
\<close>

definition ClaimQueuedInputs ::
  "'p queue_table \<Rightarrow> string \<Rightarrow> string \<Rightarrow> bool \<Rightarrow> 'p QueuedInput list \<times> 'p queue_table"
where
  "ClaimQueuedInputs t sid batch resume =
     (let t1 = (if resume then resume_paused t sid else t);
          existing = existing_batch t1 sid
      in if existing \<noteq> '''' then
           (if \<not> resume then ([], t)
            else let t2 = resume_batch t1 sid existing in (batch_rows t2 sid existing, t2))
         else if rows_matching (\<lambda>r. qr_session r = sid \<and> qi_State r = Paused) t1 \<noteq> [] \<and> \<not> resume
         then ([], t)
         else case find (candidate sid) (qt_rows t1) of
                None \<Rightarrow> ([], t)
              | Some first \<Rightarrow>
                  (case claim_prefix t1 sid batch first of
                     (b, t2) \<Rightarrow> (batch_rows t2 sid b, t2)))"

section \<open>Histories of operations\<close>

text \<open>
  A history of the table is a list of the operations above.  The arguments are the ones the
  callers in \<open>internal/zotigod\<close> pass: a batch id is never empty, a generated batch id never looks
  like a completion notification, and a completion notification is claimed under its own id.
\<close>

datatype 'p queue_op =
    OpQueue string string 'p
  | OpUpdate string string int 'p bool
  | OpClaim string string bool
  | OpClaimOne string string int string
  | OpFinish string string bool
  | OpRelease string string
  | OpPause string
  | OpRecover

fun run_op :: "'p queue_op \<Rightarrow> 'p queue_table \<Rightarrow> 'p queue_table" where
  "run_op (OpQueue sid i p) t = QueueInput t sid i p"
| "run_op (OpUpdate sid i n p del) t = snd (UpdateQueuedInput t sid i n p del)"
| "run_op (OpClaim sid b resume) t = snd (ClaimQueuedInputs t sid b resume)"
| "run_op (OpClaimOne sid i n b) t = snd (ClaimQueuedInput t sid i n b)"
| "run_op (OpFinish sid b ok) t = FinishQueuedBatch t sid b ok"
| "run_op (OpRelease sid b) t = ReleaseQueuedBatch t sid b"
| "run_op (OpPause sid) t = PauseQueuedInputs t sid"
| "run_op OpRecover t = RecoverQueuedInputs t"

fun op_allowed :: "'p queue_op \<Rightarrow> bool" where
  "op_allowed (OpClaim sid b resume) \<longleftrightarrow> b \<noteq> '''' \<and> \<not> HasPrefix b ''completion:''"
| "op_allowed (OpClaimOne sid i n b) \<longleftrightarrow>
     (if HasPrefix i ''completion:'' then b = i else b \<noteq> '''' \<and> \<not> HasPrefix b ''completion:'')"
| "op_allowed (OpFinish sid b ok) \<longleftrightarrow> b \<noteq> ''''"
| "op_allowed _ \<longleftrightarrow> True"

definition row_key :: "'p queue_row \<Rightarrow> string \<times> string" where
  "row_key r = (qr_session r, qi_ID r)"

text \<open>
  What holds of every row: a batch id exactly from claiming on, a positive revision, and a
  completion notification only ever in the batch that carries its own id.
\<close>

definition row_ok :: "'p queue_row \<Rightarrow> bool" where
  "row_ok r \<longleftrightarrow>
     (qi_State r \<in> {Queued, Cancelled} \<longrightarrow> qi_BatchID r = '''') \<and>
     (qi_State r \<in> {Sending, Sent} \<longrightarrow> qi_BatchID r \<noteq> '''') \<and>
     1 \<le> qi_Revision r \<and>
     (qi_BatchID r \<noteq> '''' \<longrightarrow>
        (if is_completion r then qi_BatchID r = qi_ID r
         else \<not> HasPrefix (qi_BatchID r) ''completion:''))"

definition queue_inv :: "'p queue_table \<Rightarrow> bool" where
  "queue_inv t \<longleftrightarrow>
     list_all row_ok (qt_rows t) \<and>
     distinct (map row_key (qt_rows t)) \<and>
     sorted_wrt (<) (map qr_sequence (qt_rows t)) \<and>
     list_all (\<lambda>r. qr_sequence r \<le> qt_last t) (qt_rows t)"

text \<open>How one row may change: only while it is open, and never without a new revision.\<close>

definition row_advances :: "'p queue_row \<Rightarrow> 'p queue_row \<Rightarrow> bool" where
  "row_advances r r' \<longleftrightarrow>
     row_key r' = row_key r \<and> qr_sequence r' = qr_sequence r \<and> (row_ok r \<longrightarrow> row_ok r') \<and>
     (r' = r \<or> open_row r \<and> qi_Revision r < qi_Revision r')"

definition table_advances :: "'p queue_table \<Rightarrow> 'p queue_table \<Rightarrow> bool" where
  "table_advances t t' \<longleftrightarrow>
     qt_last t' = qt_last t \<and>
     (\<exists>f. qt_rows t' = map f (qt_rows t) \<and> (\<forall>r \<in> set (qt_rows t). row_advances r (f r)))"

lemmas row_op_defs =
  editable_def open_row_def is_completion_def bump_def set_state_def claim_row_def
  at_revision_def in_batch_def candidate_def row_key_def

lemma row_advances_refl [simp]: "row_advances r r"
  by (simp add: row_advances_def)

lemma row_advances_trans: "row_advances r s \<Longrightarrow> row_advances s u \<Longrightarrow> row_advances r u"
  by (auto simp: row_advances_def)

lemma table_advances_refl [simp]: "table_advances t t"
  by (auto simp: table_advances_def intro!: exI [of _ id])

lemma table_advances_trans:
  assumes "table_advances t u" "table_advances u v"
  shows "table_advances t v"
proof -
  obtain f g where "qt_rows u = map f (qt_rows t)" "qt_rows v = map g (qt_rows u)"
    "\<forall>r \<in> set (qt_rows t). row_advances r (f r)" "\<forall>r \<in> set (qt_rows u). row_advances r (g r)"
    "qt_last u = qt_last t" "qt_last v = qt_last u"
    using assms unfolding table_advances_def by blast
  then show ?thesis
    unfolding table_advances_def
    by (intro conjI exI [of _ "g \<circ> f"]) (auto intro: row_advances_trans)
qed

lemma update_where_advances:
  "(\<And>r. r \<in> set (qt_rows t) \<Longrightarrow> P r \<Longrightarrow> row_advances r (f r)) \<Longrightarrow> table_advances t (update_where P f t)"
  unfolding table_advances_def update_where_def
  by (intro conjI exI [of _ "\<lambda>r. if P r then f r else r"]) auto

lemma resume_paused_advances: "table_advances t (resume_paused t sid)"
  unfolding resume_paused_def
  by (rule update_where_advances) (auto simp: row_advances_def row_ok_def row_op_defs)

lemma resume_batch_advances: "b \<noteq> '''' \<Longrightarrow> table_advances t (resume_batch t sid b)"
  unfolding resume_batch_def
  by (rule update_where_advances) (auto simp: row_advances_def row_ok_def row_op_defs)

lemma queue_inv_unique:
  assumes "queue_inv t" "r \<in> set (qt_rows t)" "s \<in> set (qt_rows t)" "row_key r = row_key s"
  shows "r = s"
  using assms by (auto simp: queue_inv_def distinct_map dest: inj_onD)

lemma queue_inv_queued:
  "queue_inv t \<Longrightarrow> r \<in> set (qt_rows t) \<Longrightarrow> qi_State r = Queued \<Longrightarrow> qi_BatchID r = ''''"
  by (auto simp: queue_inv_def list_all_iff row_ok_def)

lemma claim_row_advances:
  assumes "candidate sid r" "b \<noteq> ''''"
    and "if is_completion r then b = qi_ID r else \<not> HasPrefix b ''completion:''"
  shows "row_advances r (claim_row b r)"
  using assms by (auto simp: row_advances_def row_ok_def row_op_defs split: if_splits)

lemma completion_bound_le:
  assumes "r \<in> set (qt_rows t)" "candidate sid r" "is_completion r"
  shows "completion_bound t sid \<le> qr_sequence r"
proof -
  have fold_le: "fold min xs (a::int) \<le> a \<and> (\<forall>x \<in> set xs. fold min xs a \<le> x)" for xs a
    by (induction xs arbitrary: a) (simp, fastforce simp: min_def intro: order_trans)
  have "r \<in> set (rows_matching (\<lambda>r. candidate sid r \<and> is_completion r) t)"
    using assms by (simp add: rows_matching_def)
  then show ?thesis
    using fold_le by (fastforce simp: completion_bound_def split: list.split)
qed

lemma claim_prefix_advances:
  assumes inv: "queue_inv t" and first: "find (candidate sid) (qt_rows t) = Some first"
    and b: "b \<noteq> ''''" "\<not> HasPrefix b ''completion:''"
  shows "table_advances t (snd (claim_prefix t sid b first))"
proof -
  have f: "first \<in> set (qt_rows t)" "candidate sid first"
    using first by (auto simp: find_Some_iff)
  show ?thesis
  proof (cases "is_completion first")
    case True
    have "row_advances r (claim_row (qi_ID first) r)"
      if "r \<in> set (qt_rows t)" "qr_session r = sid \<and> qi_ID r = qi_ID first" for r
    proof -
      have "r = first"
        using queue_inv_unique [OF inv that(1) f(1)] that(2) f(2)
        by (simp add: row_key_def candidate_def)
      then show ?thesis
        using True f(2) by (intro claim_row_advances) (auto simp: is_completion_def HasPrefix_def)
    qed
    then show ?thesis
      using True by (simp add: claim_prefix_def update_where_advances)
  next
    case False
    have "row_advances r (claim_row b r)"
      if "r \<in> set (qt_rows t)" "candidate sid r \<and> qr_sequence r < completion_bound t sid" for r
      using that b completion_bound_le [of r t sid] by (intro claim_row_advances) force+
    then show ?thesis
      using False by (simp add: claim_prefix_def update_where_advances)
  qed
qed

lemma table_advances_inv:
  assumes inv: "queue_inv t" and adv: "table_advances t t'"
  shows "queue_inv t'"
proof -
  obtain f where rows: "qt_rows t' = map f (qt_rows t)" and last: "qt_last t' = qt_last t"
    and f: "\<forall>r \<in> set (qt_rows t). row_advances r (f r)"
    using adv by (auto simp: table_advances_def)
  have keys: "map row_key (qt_rows t') = map row_key (qt_rows t)"
    and seqs: "map qr_sequence (qt_rows t') = map qr_sequence (qt_rows t)"
    using f by (auto simp: rows row_advances_def)
  have "\<forall>r \<in> set (qt_rows t). row_ok (f r) \<and> qr_sequence (f r) \<le> qt_last t"
    using inv f by (auto simp: queue_inv_def row_advances_def list_all_iff)
  then show ?thesis
    using inv unfolding queue_inv_def keys seqs by (auto simp: last rows list_all_iff)
qed

lemma find_map_same: "(\<And>r. P (f r) = P r) \<Longrightarrow> find P (map f rs) = map_option f (find P rs)"
  by (induction rs) auto

lemma existing_batch_resume_paused:
  "existing_batch (resume_paused t sid) sid = existing_batch t sid"
proof -
  let ?P = "\<lambda>r. qr_session r = sid \<and> qi_BatchID r \<noteq> '''' \<and> open_row r"
  let ?f = "\<lambda>r. if qr_session r = sid \<and> qi_State r = Paused \<and> qi_BatchID r = ''''
    then set_state Queued r else r"
  have "find ?P (map ?f (qt_rows t)) = map_option ?f (find ?P (qt_rows t))"
    by (rule find_map_same) (auto simp: row_op_defs)
  then show ?thesis
    by (auto simp: existing_batch_def resume_paused_def update_where_def row_op_defs
        split: option.split)
qed

lemma ClaimQueuedInputs_cases:
  obtains (kept) "ClaimQueuedInputs t sid b resume = ([], t)"
  | (again) bid where "resume" "bid = existing_batch (resume_paused t sid) sid" "bid \<noteq> ''''"
      "ClaimQueuedInputs t sid b resume =
         (batch_rows (resume_batch (resume_paused t sid) sid bid) sid bid,
          resume_batch (resume_paused t sid) sid bid)"
  | (fresh) t1 first where "t1 = (if resume then resume_paused t sid else t)"
      "existing_batch t1 sid = ''''" "find (candidate sid) (qt_rows t1) = Some first"
      "ClaimQueuedInputs t sid b resume =
         (case claim_prefix t1 sid b first of (b', t2) \<Rightarrow> (batch_rows t2 sid b', t2))"
proof -
  define t1 where "t1 = (if resume then resume_paused t sid else t)"
  note claim = ClaimQueuedInputs_def [of t sid b resume, folded t1_def, unfolded Let_def]
  show thesis
  proof (cases "existing_batch t1 sid = ''''")
    case False
    then show ?thesis
      using kept again
      by (cases resume) (simp_all add: ClaimQueuedInputs_def Let_def t1_def)
  next
    case none: True
    show ?thesis
    proof (cases "ClaimQueuedInputs t sid b resume = ([], t)")
      case False
      then obtain first where "find (candidate sid) (qt_rows t1) = Some first"
        "ClaimQueuedInputs t sid b resume =
           (case claim_prefix t1 sid b first of (b', t2) \<Rightarrow> (batch_rows t2 sid b', t2))"
        using none unfolding claim by (auto split: if_splits option.splits)
      then show ?thesis
        by (rule fresh [OF t1_def none])
    qed (rule kept)
  qed
qed

lemma ClaimQueuedInputs_advances:
  assumes inv: "queue_inv t" and b: "b \<noteq> ''''" "\<not> HasPrefix b ''completion:''"
  shows "table_advances t (snd (ClaimQueuedInputs t sid b resume))"
proof (cases rule: ClaimQueuedInputs_cases [of t sid b resume])
  case kept
  then show ?thesis by simp
next
  case (again bid)
  then show ?thesis
    using table_advances_trans [OF resume_paused_advances resume_batch_advances] by simp
next
  case (fresh t1 first)
  have adv: "table_advances t t1"
    using fresh(1) resume_paused_advances [of t sid] by simp
  then have "table_advances t1 (snd (claim_prefix t1 sid b first))"
    using claim_prefix_advances [OF table_advances_inv [OF inv] fresh(3) b] by blast
  with adv have "table_advances t (snd (claim_prefix t1 sid b first))"
    by (rule table_advances_trans)
  then show ?thesis
    by (simp add: fresh(4) case_prod_beta)
qed

lemma update_one_advances:
  "(\<And>r. P r \<Longrightarrow> row_advances r (f r)) \<Longrightarrow> table_advances t (snd (update_one P f t))"
  by (simp add: update_one_def update_where_advances)

lemma run_op_advances:
  assumes "queue_inv t" "op_allowed op" "\<And>sid i p. op \<noteq> OpQueue sid i p"
  shows "table_advances t (run_op op t)"
proof (cases op)
  case (OpClaim sid b resume)
  then show ?thesis
    using assms ClaimQueuedInputs_advances by fastforce
qed (use assms in \<open>auto simp: UpdateQueuedInput_def ClaimQueuedInput_def FinishQueuedBatch_def
      ReleaseQueuedBatch_def PauseQueuedInputs_def RecoverQueuedInputs_def row_advances_def
      row_ok_def row_op_defs HasPrefix_def split: if_splits
      intro!: update_one_advances update_where_advances\<close>)

lemma QueuedInputByID_None:
  "QueuedInputByID t sid i = None \<longleftrightarrow> (sid, i) \<notin> row_key ` set (qt_rows t)"
  by (auto simp: QueuedInputByID_def find_None_iff row_key_def)

lemma QueueInput_inv:
  assumes "queue_inv t"
  shows "queue_inv (QueueInput t sid i p)"
proof (cases "QueuedInputByID t sid i")
  case None
  have "row_ok (new_row t sid i p)"
    by (simp add: row_ok_def new_row_def)
  then show ?thesis
    using assms None unfolding QueuedInputByID_None
    by (auto simp: QueueInput_def QueuedInputByID_None insert_row_def queue_inv_def new_row_def
        row_key_def sorted_wrt_append list_all_iff)
qed (use assms in \<open>simp add: QueueInput_def\<close>)

lemma run_op_inv:
  assumes "queue_inv t" "op_allowed op"
  shows "queue_inv (run_op op t)"
proof (cases "\<exists>sid i p. op = OpQueue sid i p")
  case True
  then show ?thesis using assms(1) QueueInput_inv by auto
next
  case False
  then show ?thesis using assms run_op_advances table_advances_inv by blast
qed

section \<open>Optimistic concurrency\<close>

text \<open>
  The contract of a store whose rows carry a version: an operation keeps every row as it is or
  gives it a larger version, and rows that are closed are kept.  A client that read a row and finds
  its version again has found the row again.
\<close>

locale versioned_store =
  fixes exec :: "'op \<Rightarrow> 's \<Rightarrow> 's"
    and lookup :: "'s \<Rightarrow> 'k \<Rightarrow> 'r option"
    and version :: "'r \<Rightarrow> int"
    and closed :: "'r \<Rightarrow> bool"
    and consistent :: "'s \<Rightarrow> bool"
    and allowed :: "'op \<Rightarrow> bool"
  assumes consistent_exec: "consistent s \<Longrightarrow> allowed op \<Longrightarrow> consistent (exec op s)"
    and lookup_exec: "consistent s \<Longrightarrow> allowed op \<Longrightarrow> lookup s k = Some r \<Longrightarrow>
      \<exists>r'. lookup (exec op s) k = Some r' \<and> (r' = r \<or> \<not> closed r \<and> version r < version r')"
begin

lemma consistent_run: "consistent s \<Longrightarrow> list_all allowed ops \<Longrightarrow> consistent (fold exec ops s)"
  by (induction ops arbitrary: s) (auto intro: consistent_exec)

lemma lookup_run:
  assumes "consistent s" "list_all allowed ops" "lookup s k = Some r"
  shows "\<exists>r'. lookup (fold exec ops s) k = Some r' \<and> (r' = r \<or> \<not> closed r \<and> version r < version r')"
  using assms
proof (induction ops arbitrary: s r)
  case (Cons op ops)
  then obtain r1 where r1: "lookup (exec op s) k = Some r1"
    "r1 = r \<or> \<not> closed r \<and> version r < version r1"
    using lookup_exec [of s op k r] by auto
  have "\<exists>r'. lookup (fold exec ops (exec op s)) k = Some r'
    \<and> (r' = r1 \<or> \<not> closed r1 \<and> version r1 < version r')"
    using Cons consistent_exec r1(1) by simp
  then show ?case
    using r1(2) by auto
qed simp

lemma same_version_same_row:
  assumes "consistent s" "list_all allowed ops" "lookup s k = Some r"
    and "lookup (fold exec ops s) k = Some r'" "version r' = version r"
  shows "r' = r"
  using lookup_run [OF assms(1-3)] assms(4,5) by auto

lemma closed_row_kept:
  assumes "consistent s" "list_all allowed ops" "lookup s k = Some r" "closed r"
  shows "lookup (fold exec ops s) k = Some r"
  using lookup_run [OF assms(1-3)] assms(4) by auto

end

definition row_at :: "'p queue_table \<Rightarrow> string \<times> string \<Rightarrow> 'p queue_row option" where
  "row_at t k = find (\<lambda>r. row_key r = k) (qt_rows t)"

lemma row_at_advances:
  assumes "table_advances t t'" "row_at t k = Some r"
  shows "\<exists>r'. row_at t' k = Some r' \<and> row_advances r r'"
proof -
  obtain f where rows: "qt_rows t' = map f (qt_rows t)"
    and f: "\<forall>r \<in> set (qt_rows t). row_advances r (f r)"
    using assms(1) by (auto simp: table_advances_def)
  have "find (\<lambda>r. row_key r = k) (map f rs) = map_option f (find (\<lambda>r. row_key r = k) rs)"
    if "set rs \<subseteq> set (qt_rows t)" for rs
    using that f by (induction rs) (auto simp: row_advances_def)
  then have "row_at t' k = Some (f r)"
    using assms(2) by (auto simp: row_at_def rows)
  moreover have "r \<in> set (qt_rows t)"
    using assms(2) by (auto simp: row_at_def find_Some_iff)
  ultimately show ?thesis using f by blast
qed

lemma find_append_Some: "find P xs = Some x \<Longrightarrow> find P (xs @ ys) = Some x"
  by (induction xs) (auto split: if_splits)

lemma run_op_row_at:
  assumes "queue_inv t" "op_allowed op" "row_at t k = Some r"
  shows "\<exists>r'. row_at (run_op op t) k = Some r' \<and> row_advances r r'"
proof (cases "\<exists>sid i p. op = OpQueue sid i p")
  case True
  then have "row_at (run_op op t) k = Some r"
    using assms(3)
    by (auto simp: row_at_def QueueInput_def insert_row_def find_append_Some)
  then show ?thesis by simp
next
  case False
  then show ?thesis
    using row_at_advances [OF run_op_advances] assms by blast
qed

interpretation iq: versioned_store run_op row_at qi_Revision "\<lambda>r. \<not> open_row r" queue_inv op_allowed
proof
  show "\<exists>r'. row_at (run_op op t) k = Some r' \<and> (r' = r \<or> \<not> \<not> open_row r \<and> qi_Revision r < qi_Revision r')"
    if "queue_inv t" "op_allowed op" "row_at t k = Some r" for t :: "'p queue_table" and op k r
    using run_op_row_at [OF that] by (auto simp: row_advances_def)
qed (rule run_op_inv)

section \<open>Frozen batches\<close>

text \<open>The inputs of an open batch, and the operations that may end it or extend it.\<close>

definition batch_view :: "string \<Rightarrow> string \<Rightarrow> 'p queue_table \<Rightarrow> (string \<times> 'p) list" where
  "batch_view sid b t =
     map (\<lambda>r. (qi_ID r, qi_Payload r)) (rows_matching (in_batch sid b) t)"

fun ends_batch :: "string \<Rightarrow> string \<Rightarrow> 'p queue_op \<Rightarrow> bool" where
  "ends_batch sid b (OpFinish sid' b' ok) \<longleftrightarrow> ok \<and> sid' = sid \<and> b' = b"
| "ends_batch sid b (OpRelease sid' b') \<longleftrightarrow> sid' = sid \<and> b' = b"
| "ends_batch sid b (OpClaim sid' b' resume) \<longleftrightarrow> sid' = sid \<and> b' = b"
| "ends_batch sid b (OpClaimOne sid' i n b') \<longleftrightarrow> sid' = sid \<and> b' = b"
| "ends_batch sid b _ \<longleftrightarrow> False"

definition same_in_batch :: "string \<Rightarrow> string \<Rightarrow> 'p queue_row \<Rightarrow> 'p queue_row \<Rightarrow> bool" where
  "same_in_batch sid b r r' \<longleftrightarrow>
     in_batch sid b r' = in_batch sid b r \<and> qi_ID r' = qi_ID r \<and>
     (in_batch sid b r \<longrightarrow> qi_Payload r' = qi_Payload r)"

lemma update_where_view:
  assumes "\<And>r. r \<in> set (qt_rows t) \<Longrightarrow> P r \<Longrightarrow> same_in_batch sid b r (f r)"
  shows "batch_view sid b (update_where P f t) = batch_view sid b t"
proof -
  have "map (\<lambda>r. (qi_ID r, qi_Payload r))
      (filter (in_batch sid b) (map (\<lambda>r. if P r then f r else r) rs))
    = map (\<lambda>r. (qi_ID r, qi_Payload r)) (filter (in_batch sid b) rs)"
    if "set rs \<subseteq> set (qt_rows t)" for rs
    using that assms by (induction rs) (auto simp: same_in_batch_def)
  then show ?thesis
    by (simp add: batch_view_def rows_matching_def update_where_def)
qed

lemma resume_paused_view: "b \<noteq> '''' \<Longrightarrow> batch_view sid b (resume_paused t sid') = batch_view sid b t"
  unfolding resume_paused_def
  by (rule update_where_view) (auto simp: same_in_batch_def row_op_defs)

lemma resume_batch_view: "batch_view sid b (resume_batch t sid' b') = batch_view sid b t"
  unfolding resume_batch_def
  by (rule update_where_view) (auto simp: same_in_batch_def row_op_defs)

lemma view_empty_unless_own:
  assumes inv: "queue_inv t" and r: "r \<in> set (qt_rows t)" "candidate sid r" "is_completion r"
    and s: "s \<in> set (qt_rows t)" "in_batch sid (qi_ID r) s"
  shows False
proof -
  have "row_ok s" using inv s(1) by (auto simp: queue_inv_def list_all_iff)
  then have "qi_ID s = qi_ID r"
    using s(2) r(3) by (auto simp: row_ok_def row_op_defs HasPrefix_def split: if_splits)
  then have "s = r"
    using queue_inv_unique [OF inv s(1) r(1)] s(2) r(2) by (simp add: row_op_defs)
  then show False
    using s(2) r(2,3) by (auto simp: row_op_defs HasPrefix_def)
qed

lemma claim_prefix_view:
  assumes inv: "queue_inv t" and first: "find (candidate sid') (qt_rows t) = Some first"
    and ne: "batch_view sid b t \<noteq> []" "b \<noteq> ''''" "\<not> (sid' = sid \<and> b' = b)"
  shows "batch_view sid b (snd (claim_prefix t sid' b' first)) = batch_view sid b t"
proof -
  have f: "first \<in> set (qt_rows t)" "candidate sid' first"
    using first by (auto simp: find_Some_iff)
  show ?thesis
  proof (cases "is_completion first")
    case True
    obtain s where s: "s \<in> set (qt_rows t)" "in_batch sid b s"
      using ne(1) by (auto simp: batch_view_def rows_matching_def filter_empty_conv)
    have "same_in_batch sid b r (claim_row (qi_ID first) r)"
      if "r \<in> set (qt_rows t)" "qr_session r = sid' \<and> qi_ID r = qi_ID first" for r
    proof -
      have "r = first"
        using queue_inv_unique [OF inv that(1) f(1)] that(2) f(2)
        by (simp add: row_key_def candidate_def)
      moreover have "sid' = sid \<Longrightarrow> qi_ID first \<noteq> b"
        using view_empty_unless_own [OF inv f True s(1)] s(2) by auto
      ultimately show ?thesis
        using f(2) ne(2) by (auto simp: same_in_batch_def row_op_defs)
    qed
    then show ?thesis
      using True by (simp add: claim_prefix_def update_where_view)
  next
    case False
    then show ?thesis
      using ne unfolding claim_prefix_def
      by (simp, intro update_where_view) (auto simp: same_in_batch_def row_op_defs)
  qed
qed

lemma ClaimQueuedInputs_view:
  assumes inv: "queue_inv t"
    and ne: "batch_view sid b t \<noteq> []" "b \<noteq> ''''" "\<not> (sid' = sid \<and> b' = b)"
  shows "batch_view sid b (snd (ClaimQueuedInputs t sid' b' resume)) = batch_view sid b t"
proof (cases rule: ClaimQueuedInputs_cases [of t sid' b' resume])
  case kept
  then show ?thesis by simp
next
  case (again bid)
  then show ?thesis using ne by (simp add: resume_batch_view resume_paused_view)
next
  case (fresh t1 first)
  have "queue_inv t1" "batch_view sid b t1 = batch_view sid b t"
    using fresh(1) ne(2) inv table_advances_inv [OF inv resume_paused_advances]
    by (auto simp: resume_paused_view)
  then have "batch_view sid b (snd (claim_prefix t1 sid' b' first)) = batch_view sid b t"
    using claim_prefix_view [OF _ fresh(3)] ne by simp
  then show ?thesis
    by (simp add: fresh(4) case_prod_beta)
qed

lemma update_one_view:
  assumes "\<And>r. P r \<Longrightarrow> same_in_batch sid b r (f r)"
  shows "batch_view sid b (snd (update_one P f t)) = batch_view sid b t"
  using assms by (simp add: update_one_def update_where_view)

lemma run_op_view:
  assumes "queue_inv t" "op_allowed op" "batch_view sid b t \<noteq> []" "b \<noteq> ''''" "\<not> ends_batch sid b op"
  shows "batch_view sid b (run_op op t) = batch_view sid b t"
proof (cases op)
  case (OpQueue sid' i p)
  have "\<not> in_batch sid b (new_row t sid' i p)"
    using assms(4) by (simp add: new_row_def in_batch_def)
  then show ?thesis
    by (simp add: OpQueue QueueInput_def insert_row_def batch_view_def rows_matching_def)
next
  case (OpClaim sid' b' resume)
  then show ?thesis
    using assms ClaimQueuedInputs_view by simp
qed (use assms in \<open>auto simp: UpdateQueuedInput_def ClaimQueuedInput_def FinishQueuedBatch_def
      ReleaseQueuedBatch_def PauseQueuedInputs_def RecoverQueuedInputs_def same_in_batch_def
      row_op_defs split: if_splits intro!: update_one_view update_where_view
      dest: queue_inv_queued\<close>)

lemma run_ops_view:
  assumes "queue_inv t" "list_all op_allowed ops" "batch_view sid b t \<noteq> []" "b \<noteq> ''''"
    "list_all (\<lambda>op. \<not> ends_batch sid b op) ops"
  shows "batch_view sid b (fold run_op ops t) = batch_view sid b t"
  using assms
proof (induction ops arbitrary: t)
  case (Cons op ops)
  then show ?case
    using run_op_view [of t op sid b] run_op_inv [of t op] by simp
qed simp

lemma batch_rows_view:
  "map (\<lambda>q. (qi_ID q, qi_Payload q)) (batch_rows t sid b) = batch_view sid b t"
  by (simp add: batch_rows_def batch_view_def QueuedInput.truncate_def comp_def)

lemma batch_rows_BatchID: "q \<in> set (batch_rows t sid b) \<Longrightarrow> qi_BatchID q = b"
  by (auto simp: batch_rows_def rows_matching_def in_batch_def QueuedInput.truncate_def)

text \<open>Whatever a claim hands out is one open batch of the table it leaves behind.\<close>

lemma ClaimQueuedInputs_result:
  assumes "ClaimQueuedInputs t sid b resume = (rows, t')" "rows \<noteq> []"
    and "b \<noteq> ''''"
  shows "rows = batch_rows t' sid (qi_BatchID (hd rows)) \<and> qi_BatchID (hd rows) \<noteq> ''''"
proof -
  have "\<exists>bid. rows = batch_rows t' sid bid \<and> bid \<noteq> ''''"
    using assms
    by (cases rule: ClaimQueuedInputs_cases [of t sid b resume])
      (auto simp: claim_prefix_def is_completion_def HasPrefix_def split: if_splits)
  then obtain bid where "rows = batch_rows t' sid bid" "bid \<noteq> ''''" by blast
  moreover from this have "qi_BatchID (hd rows) = bid"
    using assms(2) batch_rows_BatchID by (metis hd_in_set)
  ultimately show ?thesis by simp
qed

lemma row_at_in_rows: "row_at t k = Some r \<Longrightarrow> r \<in> set (qt_rows t) \<and> row_key r = k"
  by (auto simp: row_at_def find_Some_iff)

lemma queue_inv_row_at:
  "queue_inv t \<Longrightarrow> r \<in> set (qt_rows t) \<Longrightarrow> row_at t (row_key r) = Some r"
  using queue_inv_unique [of t r]
  by (cases "row_at t (row_key r)") (auto simp: row_at_def find_None_iff find_Some_iff)

lemma ClaimQueuedInputs_open:
  assumes "ClaimQueuedInputs t sid b resume = (rows, t')" "q \<in> set rows"
  shows "\<exists>r \<in> set (qt_rows t'). q = select_cols r \<and> qr_session r = sid \<and> open_row r"
proof -
  have "\<exists>bid. rows = [] \<or> rows = batch_rows t' sid bid"
    using assms(1)
    by (cases rule: ClaimQueuedInputs_cases [of t sid b resume]) (auto split: prod.splits)
  then show ?thesis
    using assms(2) by (auto simp: batch_rows_def rows_matching_def in_batch_def open_row_def)
qed

lemma row_at_update_where:
  assumes "\<And>r. row_key (f r) = row_key r"
  shows "row_at (update_where P f t) k = map_option (\<lambda>r. if P r then f r else r) (row_at t k)"
  unfolding row_at_def update_where_def using assms by (simp add: find_map_same)

lemma UpdateQueuedInput_ok:
  assumes inv: "queue_inv t" and ok: "UpdateQueuedInput t sid i n p del = (Inr (), t')"
  obtains r where "row_at t (sid, i) = Some r" "qi_Revision r = n"
    "\<And>k. row_at t' k = (if k = (sid, i)
       then Some (if del then bump (r\<lparr>qi_State := Cancelled\<rparr>) else bump (r\<lparr>qi_Payload := p\<rparr>))
       else row_at t k)"
proof -
  let ?P = "at_revision sid i n"
  let ?f = "\<lambda>r. if del then bump (r\<lparr>qi_State := Cancelled\<rparr>) else bump (r\<lparr>qi_Payload := p\<rparr>)"
  have t': "t' = update_where ?P ?f t" and one: "length (rows_matching ?P t) = 1"
    using ok by (auto simp: UpdateQueuedInput_def update_one_def split: if_splits)
  then obtain r where r: "r \<in> set (qt_rows t)" "?P r"
    unfolding rows_matching_def by (metis One_nat_def length_0_conv filter_False zero_neq_one)
  then have at: "row_at t (sid, i) = Some r"
    using queue_inv_row_at [OF inv r(1)] by (simp add: at_revision_def row_key_def)
  have "row_at t' k = (if k = (sid, i) then Some (?f r) else row_at t k)" for k
  proof (cases "row_at t k")
    case (Some s)
    then have "?P s \<longrightarrow> k = (sid, i)"
      by (auto dest!: row_at_in_rows simp: at_revision_def row_key_def)
    then show ?thesis
      using at r(2) Some unfolding t'
      by (auto simp: row_at_update_where row_key_def bump_def)
  qed (use at in \<open>auto simp: t' row_at_update_where row_key_def bump_def\<close>)
  then show thesis
    using that [OF at] r(2) by (simp add: at_revision_def)
qed

lemma UpdateQueuedInput_stale:
  assumes "queue_inv t" "row_at t (sid, i) = Some r" "qi_Revision r \<noteq> n"
  shows "fst (UpdateQueuedInput t sid i n p del) = Inl ErrQueueConflict"
proof -
  have "\<not> at_revision sid i n s" if "s \<in> set (qt_rows t)" for s
    using queue_inv_row_at [OF assms(1) that] assms(2,3)
    by (auto simp: at_revision_def row_key_def)
  then have "rows_matching (at_revision sid i n) t = []"
    by (simp add: rows_matching_def filter_empty_conv)
  then show ?thesis
    by (simp add: UpdateQueuedInput_def update_one_def)
qed

section \<open>Properties\<close>

text \<open>
  An edit or removal of a queued input that was prepared against some revision succeeds only
  if no operation of any client has changed the input since that revision was read; it then changes
  that input alone, and a second edit prepared against the same revision is refused.
\<close>

theorem queued_edit_not_lost:
  assumes inv: "queue_inv t" and ops: "list_all op_allowed ops"
    and r: "row_at t (sid, i) = Some r"
    and ok: "UpdateQueuedInput (fold run_op ops t) sid i (qi_Revision r) p del = (Inr (), t')"
  shows "row_at (fold run_op ops t) (sid, i) = Some r \<and>
    row_at t' (sid, i) =
      Some (if del then r\<lparr>qi_State := Cancelled, qi_Revision := qi_Revision r + 1\<rparr>
            else r\<lparr>qi_Payload := p, qi_Revision := qi_Revision r + 1\<rparr>) \<and>
    (\<forall>k. k \<noteq> (sid, i) \<longrightarrow> row_at t' k = row_at (fold run_op ops t) k) \<and>
    fst (UpdateQueuedInput t' sid i (qi_Revision r) p2 del2) = Inl ErrQueueConflict"
proof -
  have u: "queue_inv (fold run_op ops t)"
    using inv ops by (rule iq.consistent_run)
  obtain s where s: "row_at (fold run_op ops t) (sid, i) = Some s" "qi_Revision s = qi_Revision r"
    and t': "\<And>k. row_at t' k = (if k = (sid, i)
       then Some (if del then bump (s\<lparr>qi_State := Cancelled\<rparr>) else bump (s\<lparr>qi_Payload := p\<rparr>))
       else row_at (fold run_op ops t) k)"
    using UpdateQueuedInput_ok [OF u ok] by blast
  have "s = r"
    using iq.same_version_same_row [OF inv ops r s] .
  moreover have "queue_inv t'"
    using run_op_inv [OF u, of "OpUpdate sid i (qi_Revision r) p del"] ok by simp
  ultimately show ?thesis
    using s t' UpdateQueuedInput_stale [of t' sid i] by (auto simp: bump_def)
qed

text \<open>
  An input that was sent or cancelled is final: whatever any client, the dispatcher or a restart
  does afterwards, its row stays as it is, and no claim hands it out again.
\<close>

theorem sent_input_final:
  assumes inv: "queue_inv t" and ops: "list_all op_allowed ops"
    and r: "row_at t (sid, i) = Some r" "qi_State r = Sent \<or> qi_State r = Cancelled"
    and b: "b \<noteq> ''''" "\<not> HasPrefix b ''completion:''"
  shows "row_at (fold run_op ops t) (sid, i) = Some r \<and>
    i \<notin> set (map qi_ID (fst (ClaimQueuedInputs (fold run_op ops t) sid b resume)))"
proof -
  let ?u = "fold run_op ops t" and ?claim = "OpClaim sid b resume"
  have closed: "\<not> open_row r" using r(2) by (auto simp: open_row_def)
  have kept: "row_at (fold run_op os t) (sid, i) = Some r" if "list_all op_allowed os" for os
    using iq.closed_row_kept [OF inv that r(1)] closed by simp
  have claim: "row_at (run_op ?claim ?u) (sid, i) = Some r" "queue_inv (run_op ?claim ?u)"
    using kept [of "ops @ [?claim]"] iq.consistent_run [OF inv, of "ops @ [?claim]"] ops b
    by simp_all
  have "i \<noteq> qi_ID q" if q: "q \<in> set (fst (ClaimQueuedInputs ?u sid b resume))" for q
  proof
    assume i: "i = qi_ID q"
    obtain s where s: "s \<in> set (qt_rows (run_op ?claim ?u))" "q = select_cols s"
      "qr_session s = sid" "open_row s"
      using ClaimQueuedInputs_open [OF prod.collapse [symmetric] q] by auto
    then have "row_at (run_op ?claim ?u) (sid, i) = Some s"
      using queue_inv_row_at [OF claim(2) s(1)] i
      by (simp add: row_key_def QueuedInput.truncate_def)
    with claim(1) closed s(4) show False by simp
  qed
  then show ?thesis using kept [OF ops] by auto
qed

text \<open>
  C33. A claimed batch is frozen.  Until it is released or acknowledged, and whatever happens in
  between (edits, pauses, other claims, a restart), resuming the queue with that batch open hands
  out the same inputs with the same payloads, in the same order and under the same batch id.
\<close>

theorem resumed_claim_repeats_batch:
  assumes inv: "queue_inv t" and b: "b \<noteq> ''''" "\<not> HasPrefix b ''completion:''"
    and claim: "ClaimQueuedInputs t sid b resume = (rows, t')" "rows \<noteq> []"
    and bid: "bid = qi_BatchID (hd rows)"
    and ops: "list_all op_allowed ops" "list_all (\<lambda>op. \<not> ends_batch sid bid op) ops"
    and again: "existing_batch (fold run_op ops t') sid = bid"
  shows "map (\<lambda>q. (qi_ID q, qi_Payload q)) (fst (ClaimQueuedInputs (fold run_op ops t') sid b2 True))
      = map (\<lambda>q. (qi_ID q, qi_Payload q)) rows \<and>
    (\<forall>q \<in> set (fst (ClaimQueuedInputs (fold run_op ops t') sid b2 True)). qi_BatchID q = bid)"
proof -
  let ?u = "fold run_op ops t'"
  have rows: "rows = batch_rows t' sid bid" "bid \<noteq> ''''"
    using ClaimQueuedInputs_result [OF claim b(1)] bid by auto
  have t': "queue_inv t'"
    using run_op_inv [OF inv, of "OpClaim sid b resume"] b claim(1) by simp
  have "batch_view sid bid t' \<noteq> []"
    using claim(2) rows(1) by (simp flip: batch_rows_view)
  then have "batch_view sid bid ?u = batch_view sid bid t'"
    by (rule run_ops_view [OF t' ops(1) _ rows(2) ops(2)])
  moreover have "fst (ClaimQueuedInputs ?u sid b2 True)
      = batch_rows (resume_batch (resume_paused ?u sid) sid bid) sid bid"
    using again rows(2)
    by (simp add: ClaimQueuedInputs_def Let_def existing_batch_resume_paused)
  ultimately show ?thesis
    using rows batch_rows_view [of t' sid bid]
    by (simp add: batch_rows_view resume_batch_view resume_paused_view batch_rows_BatchID)
qed

text \<open>A queue with two messages and a completion notification, for the witnesses.\<close>

definition sample_queue :: "string queue_table" where
  "sample_queue =
     fold run_op
       [OpQueue ''s'' ''a'' ''hello'', OpQueue ''s'' ''b'' ''world'',
        OpQueue ''s'' ''completion:x'' ''done'', OpQueue ''other'' ''a'' ''hi'']
       \<lparr>qt_rows = [], qt_last = 0\<rparr>"

lemma sample_queue_inv: "queue_inv sample_queue"
  unfolding sample_queue_def
  by (rule iq.consistent_run) (auto simp: queue_inv_def)

theorem queued_edit_not_lost_witness:
  "row_at (snd (UpdateQueuedInput (run_op (OpPause ''other'') sample_queue) ''s'' ''a'' 1 ''bye'' False))
     (''s'', ''a'') =
   Some \<lparr>qi_ID = ''a'', qi_Payload = ''bye'', qi_State = Queued, qi_BatchID = '''', qi_Revision = 2,
         qr_session = ''s'', qr_sequence = 1\<rparr>"
proof -
  define r :: "string queue_row" where
    "r = \<lparr>qi_ID = ''a'', qi_Payload = ''hello'', qi_State = Queued, qi_BatchID = '''', qi_Revision = 1,
         qr_session = ''s'', qr_sequence = 1\<rparr>"
  have "row_at sample_queue (''s'', ''a'') = Some r"
    unfolding r_def by code_simp
  moreover have "fst (UpdateQueuedInput (run_op (OpPause ''other'') sample_queue) ''s'' ''a'' 1 ''bye'' False)
      = Inr ()"
    by code_simp
  ultimately show ?thesis
    using queued_edit_not_lost [OF sample_queue_inv, of "[OpPause ''other'']" "''s''" "''a''" r "''bye''" False
        "snd (UpdateQueuedInput (run_op (OpPause ''other'') sample_queue) ''s'' ''a'' 1 ''bye'' False)"]
    by (simp add: r_def prod_eq_iff del: run_op.simps)
qed

theorem sent_input_final_witness:
  "''a'' \<notin> set (map qi_ID (fst (ClaimQueuedInputs
     (fold run_op [OpClaim ''s'' ''q1'' False, OpFinish ''s'' ''q1'' True, OpRecover] sample_queue)
     ''s'' ''q2'' True)))"
proof -
  define ops :: "string queue_op list" where
    "ops = [OpClaim ''s'' ''q1'' False, OpFinish ''s'' ''q1'' True]"
  define r :: "string queue_row" where
    "r = \<lparr>qi_ID = ''a'', qi_Payload = ''hello'', qi_State = Sent, qi_BatchID = ''q1'', qi_Revision = 3,
         qr_session = ''s'', qr_sequence = 1\<rparr>"
  have "queue_inv (fold run_op ops sample_queue)"
    by (rule iq.consistent_run [OF sample_queue_inv]) (simp add: ops_def HasPrefix_def)
  moreover have "row_at (fold run_op ops sample_queue) (''s'', ''a'') = Some r"
    unfolding r_def ops_def by code_simp
  ultimately show ?thesis
    using sent_input_final [of "fold run_op ops sample_queue" "[OpRecover]" "''s''" "''a''" r "''q2''" True]
    by (simp add: r_def ops_def HasPrefix_def)
qed

theorem resumed_claim_repeats_batch_witness:
  "map (\<lambda>q. (qi_ID q, qi_Payload q))
     (fst (ClaimQueuedInputs
       (fold run_op [OpRecover, OpUpdate ''s'' ''a'' 2 ''edited'' False]
         (snd (ClaimQueuedInputs sample_queue ''s'' ''q1'' False))) ''s'' ''q2'' True))
   = [(''a'', ''hello''), (''b'', ''world'')]"
proof -
  let ?claim = "ClaimQueuedInputs sample_queue ''s'' ''q1'' False"
  define ops :: "string queue_op list" where
    "ops = [OpRecover, OpUpdate ''s'' ''a'' 2 ''edited'' False]"
  have view: "map (\<lambda>q. (qi_ID q, qi_Payload q, qi_BatchID q)) (fst ?claim)
      = [(''a'', ''hello'', ''q1''), (''b'', ''world'', ''q1'')]"
    by code_simp
  have again: "existing_batch (fold run_op ops (snd ?claim)) ''s'' = ''q1''"
    unfolding ops_def by code_simp
  have rows: "fst ?claim \<noteq> []" "qi_BatchID (hd (fst ?claim)) = ''q1''"
    "map (\<lambda>q. (qi_ID q, qi_Payload q)) (fst ?claim) = [(''a'', ''hello''), (''b'', ''world'')]"
    using view by auto
  show ?thesis
    using resumed_claim_repeats_batch [OF sample_queue_inv _ _ prod.collapse [symmetric] rows(1)
        rows(2) [symmetric], of ops "''q2''"] again rows(3)
    by (simp add: ops_def HasPrefix_def)
qed

end
