(* ===== verification/Completion_Triggers.thy ===== *)
theory Completion_Triggers
  imports Input_Queue Base64 "HOL-Library.Char_ord" "HOL-Library.List_Lexorder"
    "HOL-Library.Product_Lexorder"
begin

text \<open>
  Completion triggers (\<open>core/workspace/completion_triggers.go\<close>): one-shot callbacks that put a
  notification into the input queue of a session.

  The catalog is the table of triggers, the input queue and the signing key of the \<open>metadata\<close>
  table.  A payload column holds what \<open>json.Unmarshal\<close> makes of it, an error text or a
  \<open>CompletionTrigger\<close>; the keyed hash \<open>HMAC-SHA256\<close> and the random seed are arguments.  A catalog
  moves by the operations of this file and of the input queue while the clock advances
  (\<open>cat_step\<close>).  Shown: a callback is queued at most once however often it is retried, the token
  given out at registration stays valid and is the only one accepted, and the number of live
  triggers of a session is bounded.
\<close>

section \<open>State\<close>

record CompletionTrigger =
  ct_ID :: string
  ct_SessionID :: string
  ct_WorkspaceID :: string
  ct_Title :: string
  ct_OnFire :: string
  ct_Policy :: string
  ct_TTL :: int
  ct_ExpiresAt :: time
  ct_State :: string
  ct_CallbackText :: string
  ct_DeliveryMode :: string

record trigger_row =
  tr_id :: string
  tr_session :: string
  tr_payload :: "string + CompletionTrigger"
  tr_expires :: int
  tr_state :: string

record 'p catalog =
  cat_queue :: "'p queue_table"
  cat_triggers :: "trigger_row list"
  cat_key :: "string option"

datatype trigger_error =
    ErrNoRows
  | ErrTriggerUnavailable
  | ErrTriggerContentConflict
  | ErrTrigger string

text \<open>\<open>Time.Unix\<close> of an instant counted from Go's zero time.\<close>

definition unix_seconds :: "time \<Rightarrow> int" where
  "unix_seconds t = t div 1000000000 - 62135596800"

section \<open>Operations\<close>

definition trigger_row_at :: "'p catalog \<Rightarrow> string \<Rightarrow> trigger_row option" where
  "trigger_row_at c i = find (\<lambda>r. tr_id r = i) (cat_triggers c)"

definition default_delivery :: "CompletionTrigger \<Rightarrow> CompletionTrigger" where
  "default_delivery v = (if ct_DeliveryMode v = '''' then v\<lparr>ct_DeliveryMode := ''queue''\<rparr> else v)"

definition lookup_trigger :: "'p catalog \<Rightarrow> string \<Rightarrow> trigger_error + CompletionTrigger" where
  "lookup_trigger c i =
     (case trigger_row_at c i of
        None \<Rightarrow> Inl ErrNoRows
      | Some r \<Rightarrow>
          (case tr_payload r of
             Inl e \<Rightarrow> Inl (ErrTrigger e)
           | Inr v \<Rightarrow> Inr (default_delivery (v\<lparr>ct_State := tr_state r\<rparr>))))"

definition completionToken ::
  "(string \<Rightarrow> string \<Rightarrow> string) \<Rightarrow> string \<Rightarrow> 'p catalog \<Rightarrow> string
     \<Rightarrow> (trigger_error + string) \<times> 'p catalog"
where
  "completionToken hmac seed c i =
     (let c' = (if cat_key c = None then c\<lparr>cat_key := Some (b64_raw_url seed)\<rparr> else c);
          encoded = the (cat_key c')
      in case b64_decode encoded of
           None \<Rightarrow> (Inl (ErrTrigger ''illegal base64 data''), c')
         | Some key \<Rightarrow>
             if length key \<noteq> 32 then (Inl (ErrTrigger ''invalid completion signing key''), c')
             else (Inr (b64_raw_url (hmac key i)), c'))"

definition same_registration :: "CompletionTrigger \<Rightarrow> CompletionTrigger \<Rightarrow> bool" where
  "same_registration a b \<longleftrightarrow>
     ct_SessionID a = ct_SessionID b \<and> ct_WorkspaceID a = ct_WorkspaceID b \<and>
     ct_Title a = ct_Title b \<and> ct_OnFire a = ct_OnFire b \<and> ct_Policy a = ct_Policy b \<and>
     ct_TTL a = ct_TTL b \<and> ct_DeliveryMode a = ct_DeliveryMode b"

definition live_trigger :: "int \<Rightarrow> trigger_row \<Rightarrow> bool" where
  "live_trigger now r \<longleftrightarrow> tr_state r = ''pending'' \<and> tr_expires r > now"

definition drop_expired :: "int \<Rightarrow> 'p catalog \<Rightarrow> 'p catalog" where
  "drop_expired before c =
     c\<lparr>cat_triggers := filter (\<lambda>r. \<not> (tr_state r \<noteq> ''fired'' \<and> tr_expires r < before)) (cat_triggers c)\<rparr>"

definition week_before :: "time \<Rightarrow> int" where
  "week_before now = unix_seconds (now - 7 * 24 * 3600 * 1000000000)"

definition pending_row :: "CompletionTrigger \<Rightarrow> trigger_row" where
  "pending_row value =
     \<lparr>tr_id = ct_ID value, tr_session = ct_SessionID value, tr_payload = Inr value,
      tr_expires = unix_seconds (ct_ExpiresAt value), tr_state = ''pending''\<rparr>"

text \<open>
  The clock is read twice, for the clean-up and for the count; both readings are arguments.
\<close>

definition CreateCompletionTrigger ::
  "(string \<Rightarrow> string \<Rightarrow> string) \<Rightarrow> string \<Rightarrow> time \<Rightarrow> time \<Rightarrow> 'p catalog \<Rightarrow> CompletionTrigger
     \<Rightarrow> (trigger_error + CompletionTrigger \<times> string) \<times> 'p catalog"
where
  "CreateCompletionTrigger hmac seed now1 now2 c value0 =
     (let value = default_delivery value0
      in case lookup_trigger c (ct_ID value) of
           Inr existing \<Rightarrow>
             if \<not> same_registration existing value
             then (Inl (ErrTrigger ''completion trigger call ID conflict''), c)
             else (case completionToken hmac seed c (ct_ID value) of
                     (Inl e, c') \<Rightarrow> (Inl e, c')
                   | (Inr token, c') \<Rightarrow> (Inr (existing, token), c'))
         | Inl ErrNoRows \<Rightarrow>
             (let c1 = drop_expired (week_before now1) c
              in if length (filter (\<lambda>r. tr_session r = ct_SessionID value \<and>
                        live_trigger (unix_seconds now2) r) (cat_triggers c1)) \<ge> 16
                 then (Inl (ErrTrigger ''at most 16 pending completion triggers per session''), c1)
                 else
                   (let value = value\<lparr>ct_State := ''pending''\<rparr>
                    in case completionToken hmac seed c1 (ct_ID value) of
                         (Inl e, c2) \<Rightarrow> (Inl e, c2)
                       | (Inr token, c2) \<Rightarrow>
                           (Inr (value, token),
                            c2\<lparr>cat_triggers := cat_triggers c2 @ [pending_row value]\<rparr>)))
         | Inl e \<Rightarrow> (Inl e, c))"

definition AuthenticateCompletionTrigger ::
  "(string \<Rightarrow> string \<Rightarrow> string) \<Rightarrow> string \<Rightarrow> 'p catalog \<Rightarrow> string \<Rightarrow> string
     \<Rightarrow> (trigger_error + CompletionTrigger) \<times> 'p catalog"
where
  "AuthenticateCompletionTrigger hmac seed c i token =
     (case lookup_trigger c i of
        Inl _ \<Rightarrow> (Inl ErrTriggerUnavailable, c)
      | Inr value \<Rightarrow>
          (case completionToken hmac seed c i of
             (Inl e, c') \<Rightarrow> (Inl e, c')
           | (Inr expected, c') \<Rightarrow>
               if token \<noteq> expected then (Inl ErrTriggerUnavailable, c') else (Inr value, c')))"

definition set_trigger :: "string \<Rightarrow> (trigger_row \<Rightarrow> trigger_row) \<Rightarrow> 'p catalog \<Rightarrow> 'p catalog" where
  "set_trigger i f c = c\<lparr>cat_triggers := map (\<lambda>r. if tr_id r = i then f r else r) (cat_triggers c)\<rparr>"

text \<open>
  Insertion into the queue has no conflict clause here: a row with the same id is a constraint
  violation and aborts the transaction.
\<close>

definition FireCompletionTrigger ::
  "time \<Rightarrow> 'p catalog \<Rightarrow> string \<Rightarrow> string \<Rightarrow> 'p \<Rightarrow> (trigger_error + bool) \<times> 'p catalog"
where
  "FireCompletionTrigger now c i callbackText payload =
     (case trigger_row_at c i of
        None \<Rightarrow> (Inl ErrNoRows, c)
      | Some r \<Rightarrow>
          (case tr_payload r of
             Inl e \<Rightarrow> (Inl (ErrTrigger e), c)
           | Inr value \<Rightarrow>
               if tr_state r = ''fired'' then
                 (if ct_CallbackText value \<noteq> callbackText then (Inl ErrTriggerContentConflict, c)
                  else (Inr False, c))
               else if tr_state r \<noteq> ''pending'' \<or> tr_expires r \<le> unix_seconds now
               then (Inl ErrTriggerUnavailable, c)
               else if QueuedInputByID (cat_queue c) (tr_session r) (''completion:'' @ i) \<noteq> None
               then (Inl (ErrTrigger ''UNIQUE constraint failed''), c)
               else
                 (Inr True,
                  (set_trigger i
                     (\<lambda>r. r\<lparr>tr_state := ''fired'',
                             tr_payload := Inr (value\<lparr>ct_CallbackText := callbackText,
                                                       ct_State := ''fired''\<rparr>)\<rparr>) c)
                    \<lparr>cat_queue := QueueInput (cat_queue c) (tr_session r) (''completion:'' @ i) payload\<rparr>)))"

definition CancelCompletionTrigger ::
  "'p catalog \<Rightarrow> string \<Rightarrow> string \<Rightarrow> (trigger_error + unit) \<times> 'p catalog"
where
  "CancelCompletionTrigger c sid i =
     (let P = (\<lambda>r. tr_session r = sid \<and> tr_id r = i \<and> tr_state r = ''pending'');
          c' = c\<lparr>cat_triggers := map (\<lambda>r. if P r then r\<lparr>tr_state := ''cancelled''\<rparr> else r) (cat_triggers c)\<rparr>
      in if length (filter P (cat_triggers c)) \<noteq> 1 then (Inl ErrTriggerUnavailable, c')
         else (Inr (), c'))"

subsection \<open>Listing\<close>

text \<open>
  The rows a listing reads: the live ones by expiry, or with history also the hundred latest
  others and one explicitly requested, live ones first and then the latest expiry.
\<close>

definition listed_rows :: "int \<Rightarrow> 'p catalog \<Rightarrow> string \<Rightarrow> bool \<Rightarrow> string \<Rightarrow> trigger_row list" where
  "listed_rows now c sid hist target =
     (let own = filter (\<lambda>r. tr_session r = sid) (cat_triggers c);
          ended = sort_key (\<lambda>r. (- tr_expires r, tr_id r)) (filter (\<lambda>r. \<not> live_trigger now r) own);
          ids = map tr_id (filter (live_trigger now) own) @ map tr_id (take 100 ended) @
                map tr_id (filter (\<lambda>r. tr_id r = target) own)
      in if hist
         then sort_key (\<lambda>r. (if live_trigger now r then 0 else 1 :: int, - tr_expires r, tr_id r))
                (filter (\<lambda>r. tr_id r \<in> set ids) own)
         else sort_key tr_expires (filter (live_trigger now) own))"

fun decode_listed :: "time \<Rightarrow> trigger_row list \<Rightarrow> trigger_error + CompletionTrigger list" where
  "decode_listed now [] = Inr []"
| "decode_listed now (r # rs) =
     (case tr_payload r of
        Inl e \<Rightarrow> Inl (ErrTrigger e)
      | Inr v \<Rightarrow>
          bind_res (decode_listed now rs)
            (\<lambda>vs. Inr (v\<lparr>ct_State := if tr_state r = ''pending'' \<and> \<not> ct_ExpiresAt v > now
                           then ''expired'' else tr_state r\<rparr> # vs)))"

definition listCompletionTriggers ::
  "time \<Rightarrow> time \<Rightarrow> 'p catalog \<Rightarrow> string \<Rightarrow> bool \<Rightarrow> string \<Rightarrow> trigger_error + CompletionTrigger list"
where
  "listCompletionTriggers now now' c sid hist target =
     decode_listed now' (listed_rows (unix_seconds now) c sid hist target)"

definition ListCompletionTriggers ::
  "time \<Rightarrow> time \<Rightarrow> 'p catalog \<Rightarrow> string \<Rightarrow> trigger_error + CompletionTrigger list"
where
  "ListCompletionTriggers now now' c sid = listCompletionTriggers now now' c sid False ''''"

definition CompletionTriggerHistory ::
  "time \<Rightarrow> time \<Rightarrow> 'p catalog \<Rightarrow> string \<Rightarrow> string \<Rightarrow> trigger_error + CompletionTrigger list"
where
  "CompletionTriggerHistory now now' c sid target = listCompletionTriggers now now' c sid True target"

section \<open>Histories of the catalog\<close>

text \<open>
  A configuration is a catalog and the time.  Seeds are the 32 random bytes the code draws; the
  handler of queued messages refuses ids that look like completion notifications, so those enter
  the queue only by firing a trigger.
\<close>

fun queue_op_external :: "'p queue_op \<Rightarrow> bool" where
  "queue_op_external (OpQueue sid i p) \<longleftrightarrow> \<not> HasPrefix i ''completion:''"
| "queue_op_external op \<longleftrightarrow> op_allowed op"

inductive cat_step ::
  "(string \<Rightarrow> string \<Rightarrow> string) \<Rightarrow> 'p catalog \<times> time \<Rightarrow> 'p catalog \<times> time \<Rightarrow> bool" for hmac
where
  tick: "now \<le> now' \<Longrightarrow> cat_step hmac (c, now) (c, now')"
| create: "now \<le> now1 \<Longrightarrow> now1 \<le> now2 \<Longrightarrow> length seed = 32 \<Longrightarrow>
    cat_step hmac (c, now) (snd (CreateCompletionTrigger hmac seed now1 now2 c v), now2)"
| authenticate: "length seed = 32 \<Longrightarrow>
    cat_step hmac (c, now) (snd (AuthenticateCompletionTrigger hmac seed c i token), now)"
| fire: "cat_step hmac (c, now) (snd (FireCompletionTrigger now c i callbackText payload), now)"
| cancel: "cat_step hmac (c, now) (snd (CancelCompletionTrigger c sid i), now)"
| queue: "queue_op_external op \<Longrightarrow>
    cat_step hmac (c, now) (c\<lparr>cat_queue := run_op op (cat_queue c)\<rparr>, now)"

abbreviation cat_steps ::
  "(string \<Rightarrow> string \<Rightarrow> string) \<Rightarrow> 'p catalog \<times> time \<Rightarrow> 'p catalog \<times> time \<Rightarrow> bool"
where
  "cat_steps hmac \<equiv> (cat_step hmac)\<^sup>*\<^sup>*"

definition empty_catalog :: "'p catalog" where
  "empty_catalog = \<lparr>cat_queue = \<lparr>qt_rows = [], qt_last = 0\<rparr>, cat_triggers = [], cat_key = None\<rparr>"

definition cat_reachable ::
  "(string \<Rightarrow> string \<Rightarrow> string) \<Rightarrow> 'p catalog \<times> time \<Rightarrow> bool" where
  "cat_reachable hmac s \<longleftrightarrow> cat_steps hmac (empty_catalog, 0) s"

section \<open>Invariant\<close>

definition live_count :: "'p catalog \<Rightarrow> time \<Rightarrow> string \<Rightarrow> nat" where
  "live_count c now sid =
     length (filter (\<lambda>r. tr_session r = sid \<and> live_trigger (unix_seconds now) r) (cat_triggers c))"

definition key_ok :: "string option \<Rightarrow> bool" where
  "key_ok k \<longleftrightarrow> (\<forall>e. k = Some e \<longrightarrow> (\<exists>key. b64_decode e = Some key \<and> length key = 32))"

definition fired_in :: "'p catalog \<Rightarrow> string \<Rightarrow> string \<Rightarrow> bool" where
  "fired_in c sid i \<longleftrightarrow>
     (\<exists>r \<in> set (cat_triggers c). tr_id r = i \<and> tr_session r = sid \<and> tr_state r = ''fired'')"

definition cat_inv :: "'p catalog \<times> time \<Rightarrow> bool" where
  "cat_inv = (\<lambda>(c, now).
     queue_inv (cat_queue c) \<and>
     distinct (map tr_id (cat_triggers c)) \<and>
     (\<forall>r \<in> set (cat_triggers c). \<exists>v. tr_payload r = Inr v) \<and>
     key_ok (cat_key c) \<and>
     (\<forall>sid i. (sid, ''completion:'' @ i) \<in> row_key ` set (qt_rows (cat_queue c)) \<longrightarrow> fired_in c sid i) \<and>
     (\<forall>sid. live_count c now sid \<le> 16))"

lemma completionToken_cases:
  assumes "key_ok (cat_key c)" "length seed = 32"
  obtains key where "completionToken hmac seed c i = (Inr (b64_raw_url (hmac key i)),
      c\<lparr>cat_key := Some (case cat_key c of None \<Rightarrow> b64_raw_url seed | Some e \<Rightarrow> e)\<rparr>)"
    "b64_decode (case cat_key c of None \<Rightarrow> b64_raw_url seed | Some e \<Rightarrow> e) = Some key" "length key = 32"
proof (cases "cat_key c")
  case None
  then show thesis
    using that [of seed] assms(2) by (simp add: completionToken_def b64_roundtrip)
next
  case (Some e)
  then obtain key where "b64_decode e = Some key" "length key = 32"
    using assms(1) by (auto simp: key_ok_def)
  then show thesis
    using that [of key] Some by (simp add: completionToken_def)
qed

lemma live_count_antimono:
  assumes "now \<le> now'"
  shows "live_count c now' sid \<le> live_count c now sid"
proof -
  have "unix_seconds now \<le> unix_seconds now'"
    using assms by (simp add: unix_seconds_def zdiv_mono1)
  then have "length (filter (\<lambda>r. tr_session r = sid \<and> live_trigger (unix_seconds now') r) rs)
    \<le> length (filter (\<lambda>r. tr_session r = sid \<and> live_trigger (unix_seconds now) r) rs)" for rs
    by (induction rs) (auto simp: live_trigger_def)
  then show ?thesis by (simp add: live_count_def)
qed

lemma live_count_drop: "live_count (drop_expired n c) now sid \<le> live_count c now sid"
proof -
  have "length (filter P (filter Q rs)) \<le> length (filter P rs)" for P Q and rs :: "trigger_row list"
    by (induction rs) auto
  then show ?thesis by (simp add: live_count_def drop_expired_def)
qed

lemma live_count_map:
  assumes "\<And>r. r \<in> set (cat_triggers c) \<Longrightarrow> tr_session (f r) = tr_session r \<and>
    (live_trigger n (f r) \<longrightarrow> live_trigger n r)" "n = unix_seconds now"
  shows "live_count (c\<lparr>cat_triggers := map f (cat_triggers c)\<rparr>) now sid \<le> live_count c now sid"
proof -
  have "length (filter (\<lambda>r. tr_session r = sid \<and> live_trigger n r) (map f rs))
    \<le> length (filter (\<lambda>r. tr_session r = sid \<and> live_trigger n r) rs)"
    if "set rs \<subseteq> set (cat_triggers c)" for rs
    using that assms(1) by (induction rs) auto
  then show ?thesis by (simp add: live_count_def assms(2))
qed

text \<open>Computing a token changes nothing but an absent key.\<close>

definition key_extends :: "'p catalog \<Rightarrow> 'p catalog \<Rightarrow> bool" where
  "key_extends c c' \<longleftrightarrow>
     cat_queue c' = cat_queue c \<and> key_ok (cat_key c') \<and> (cat_key c \<noteq> None \<longrightarrow> cat_key c' = cat_key c)"

lemma completionToken_extends:
  assumes "key_ok (cat_key c)" "length seed = 32"
  shows "key_extends c (snd (completionToken hmac seed c i)) \<and>
    cat_triggers (snd (completionToken hmac seed c i)) = cat_triggers c"
  by (rule completionToken_cases [OF assms, of hmac i])
    (auto simp: key_extends_def key_ok_def split: option.splits)

lemma drop_expired_simps [simp]:
  "cat_queue (drop_expired n c) = cat_queue c" "cat_key (drop_expired n c) = cat_key c"
  by (simp_all add: drop_expired_def)

text \<open>
  The possible effects of a registration: no trigger changes, old ones are dropped, or a new one
  is added after the old ones were dropped and the limit was checked.
\<close>

lemma CreateCompletionTrigger_cases:
  assumes key: "key_ok (cat_key c)" "length seed = 32"
    and c'_def: "c' = snd (CreateCompletionTrigger hmac seed now1 now2 c v)"
  obtains (kept) "key_extends c c'" "cat_triggers c' = cat_triggers c"
  | (dropped) n where "key_extends c c'" "cat_triggers c' = cat_triggers (drop_expired n c)"
  | (added) n r where "key_extends c c'" "cat_triggers c' = cat_triggers (drop_expired n c) @ [r]"
      "trigger_row_at c (tr_id r) = None" "tr_state r = ''pending''" "\<exists>v. tr_payload r = Inr v"
      "live_count (drop_expired n c) now2 (tr_session r) < 16"
proof (cases "lookup_trigger c (ct_ID (default_delivery v))")
  case (Inr existing)
  have "c' = c \<or> c' = snd (completionToken hmac seed c (ct_ID (default_delivery v)))"
    unfolding c'_def CreateCompletionTrigger_def by (simp add: Inr Let_def split: prod.split sum.split)
  then show thesis
    using completionToken_extends [OF key] key by (auto intro!: kept simp: key_extends_def)
next
  case (Inl e)
  define c1 where "c1 = drop_expired (week_before now1) c"
  define w where "w = (default_delivery v)\<lparr>ct_State := ''pending''\<rparr>"
  have w: "ct_ID w = ct_ID (default_delivery v)" "ct_SessionID w = ct_SessionID (default_delivery v)"
    by (simp_all add: w_def)
  have ext: "key_extends c (snd (completionToken hmac seed c1 (ct_ID w)))"
    "cat_triggers (snd (completionToken hmac seed c1 (ct_ID w))) = cat_triggers c1"
    using completionToken_extends [of c1] key by (simp_all add: c1_def key_extends_def)
  show thesis
  proof (cases "e = ErrNoRows")
    case False
    then have "c' = c"
      unfolding c'_def CreateCompletionTrigger_def using Inl
      by (simp add: Let_def split: trigger_error.split)
    then show thesis using kept key by (simp add: key_extends_def)
  next
    case True
    have new: "trigger_row_at c (tr_id (pending_row w)) = None"
      using Inl True by (simp add: lookup_trigger_def w pending_row_def split: option.splits sum.splits)
    obtain res c2 where tok: "completionToken hmac seed c1 (ct_ID w) = (res, c2)"
      by fastforce
    have "c' = (if 16 \<le> live_count c1 now2 (ct_SessionID w) then c1
        else case res of Inl e \<Rightarrow> c2 | Inr t \<Rightarrow> c2\<lparr>cat_triggers := cat_triggers c2 @ [pending_row w]\<rparr>)"
      using Inl True tok
      by (simp add: c'_def CreateCompletionTrigger_def Let_def w c1_def live_count_def flip: w_def
          split: sum.split)
    then consider "c' = c1" | "c' = c2"
      | "c' = c2\<lparr>cat_triggers := cat_triggers c2 @ [pending_row w]\<rparr>" "live_count c1 now2 (ct_SessionID w) < 16"
      by (cases res) (auto split: if_splits)
    then show thesis
    proof cases
      case 1
      then show thesis using dropped key by (simp add: c1_def key_extends_def)
    next
      case 2
      then show thesis using dropped ext tok by (simp add: c1_def)
    next
      case 3
      then show thesis
        using added [OF _ _ new] ext tok
        by (simp add: c1_def key_extends_def pending_row_def)
    qed
  qed
qed

lemma cat_inv_keep:
  assumes inv: "cat_inv (c, now)" and now: "now \<le> now'"
    and ext: "key_extends c c'" and sub: "set (cat_triggers c') \<subseteq> set (cat_triggers c)"
    and dist: "distinct (map tr_id (cat_triggers c'))"
    and fired: "\<And>sid i. fired_in c sid i \<Longrightarrow> fired_in c' sid i"
    and live: "\<And>sid. live_count c' now' sid \<le> live_count c now' sid"
  shows "cat_inv (c', now')"
proof -
  have "live_count c' now' sid \<le> 16" for sid
    using live [of sid] live_count_antimono [OF now, of c sid] inv
    by (force simp: cat_inv_def intro: order_trans)
  then show ?thesis
    using inv ext sub dist fired by (auto simp: cat_inv_def key_extends_def)
qed

lemma fired_in_drop: "fired_in (drop_expired n c) sid i = fired_in c sid i"
  by (auto simp: fired_in_def drop_expired_def)

lemma fired_in_cong: "cat_triggers c' = cat_triggers c \<Longrightarrow> fired_in c' sid i = fired_in c sid i"
  by (simp add: fired_in_def)

lemma live_count_cong: "cat_triggers c' = cat_triggers c \<Longrightarrow> live_count c' now sid = live_count c now sid"
  by (simp add: live_count_def)

lemma cat_inv_dropped:
  assumes "cat_inv (c, now)" "now \<le> now'" "key_extends c c'"
    "cat_triggers c' = cat_triggers (drop_expired n c)"
  shows "cat_inv (c', now')"
proof (rule cat_inv_keep [OF assms(1-3)])
  show "distinct (map tr_id (cat_triggers c'))"
    using assms(1) by (simp add: assms(4) drop_expired_def cat_inv_def distinct_map_filter)
qed (use assms(4) fired_in_drop fired_in_cong [OF assms(4)] live_count_cong [OF assms(4)] live_count_drop
    in \<open>auto simp: drop_expired_def\<close>)

lemma cat_inv_added:
  assumes inv: "cat_inv (c, now)" and r: "trigger_row_at c (tr_id r) = None"
    "\<exists>v. tr_payload r = Inr v" "live_count c now (tr_session r) < 16"
  shows "cat_inv (c\<lparr>cat_triggers := cat_triggers c @ [r]\<rparr>, now)"
proof -
  let ?c = "c\<lparr>cat_triggers := cat_triggers c @ [r]\<rparr>"
  have "tr_id r \<notin> set (map tr_id (cat_triggers c))"
    using r(1) by (auto simp: trigger_row_at_def find_None_iff)
  moreover have "live_count ?c now sid \<le> 16" for sid
    using inv r(3) by (auto simp: cat_inv_def live_count_def)
  moreover have "fired_in c sid i \<Longrightarrow> fired_in ?c sid i" for sid i
    by (auto simp: fired_in_def)
  ultimately show ?thesis
    using inv r(2) by (auto simp: cat_inv_def)
qed

lemma cat_inv_create:
  assumes inv: "cat_inv (c, now)" and t: "now \<le> now1" "now1 \<le> now2" and seed: "length seed = 32"
  shows "cat_inv (snd (CreateCompletionTrigger hmac seed now1 now2 c v), now2)"
proof -
  have key: "key_ok (cat_key c)" and now: "now \<le> now2"
    using inv t by (auto simp: cat_inv_def)
  define c' where "c' = snd (CreateCompletionTrigger hmac seed now1 now2 c v)"
  show ?thesis
    unfolding c'_def [symmetric]
  proof (rule CreateCompletionTrigger_cases [OF key seed c'_def])
    assume kept: "key_extends c c'" "cat_triggers c' = cat_triggers c"
    show "cat_inv (c', now2)"
      by (rule cat_inv_keep [OF inv now kept(1)])
        (use inv kept(2) in \<open>auto simp: cat_inv_def live_count_cong [OF kept(2)] fired_in_cong [OF kept(2)]\<close>)
  next
    fix n
    assume "key_extends c c'" "cat_triggers c' = cat_triggers (drop_expired n c)"
    then show "cat_inv (c', now2)" using cat_inv_dropped [OF inv now] by blast
  next
    fix n r
    assume r: "key_extends c c'" "cat_triggers c' = cat_triggers (drop_expired n c) @ [r]"
      "trigger_row_at c (tr_id r) = None" "\<exists>v. tr_payload r = Inr v"
      "live_count (drop_expired n c) now2 (tr_session r) < 16"
    let ?d = "c'\<lparr>cat_triggers := cat_triggers (drop_expired n c)\<rparr>"
    have "cat_inv (?d, now2)"
      by (rule cat_inv_dropped [OF inv now]) (use r(1) in \<open>auto simp: key_extends_def\<close>)
    moreover have "trigger_row_at ?d (tr_id r) = None" "live_count ?d now2 (tr_session r) < 16"
      using r(3,5) by (auto simp: trigger_row_at_def find_None_iff drop_expired_def live_count_def)
    ultimately have "cat_inv (?d\<lparr>cat_triggers := cat_triggers ?d @ [r]\<rparr>, now2)"
      using cat_inv_added r(4) by blast
    moreover have "?d\<lparr>cat_triggers := cat_triggers ?d @ [r]\<rparr> = c'"
      using r(2) by (cases c') simp
    ultimately show "cat_inv (c', now2)" by simp
  qed
qed

lemma cat_inv_authenticate:
  assumes inv: "cat_inv (c, now)" and seed: "length seed = 32"
  shows "cat_inv (snd (AuthenticateCompletionTrigger hmac seed c i token), now)"
proof -
  define c' where "c' = snd (AuthenticateCompletionTrigger hmac seed c i token)"
  have "key_ok (cat_key c)" using inv by (simp add: cat_inv_def)
  moreover have "c' = c \<or> c' = snd (completionToken hmac seed c i)"
    by (simp add: c'_def AuthenticateCompletionTrigger_def split: sum.split prod.split)
  ultimately have c': "key_extends c c'" "cat_triggers c' = cat_triggers c"
    using completionToken_extends [OF _ seed, of c hmac i] by (auto simp: key_extends_def)
  have "cat_inv (c', now)"
    by (rule cat_inv_keep [OF inv order_refl c'(1)])
      (use inv c'(2) in \<open>auto simp: cat_inv_def live_count_cong [OF c'(2)] fired_in_cong [OF c'(2)]\<close>)
  then show ?thesis by (simp add: c'_def)
qed

text \<open>Changing triggers in place, without reviving one or undoing a delivery.\<close>

lemma cat_inv_map:
  assumes inv: "cat_inv (c, now)"
    and f: "\<And>r. r \<in> set (cat_triggers c) \<Longrightarrow> tr_id (f r) = tr_id r \<and> tr_session (f r) = tr_session r \<and>
      (\<exists>v. tr_payload (f r) = Inr v) \<and> (tr_state r = ''fired'' \<longrightarrow> tr_state (f r) = ''fired'') \<and>
      (live_trigger (unix_seconds now) (f r) \<longrightarrow> live_trigger (unix_seconds now) r)"
  shows "cat_inv (c\<lparr>cat_triggers := map f (cat_triggers c)\<rparr>, now)"
proof -
  let ?c = "c\<lparr>cat_triggers := map f (cat_triggers c)\<rparr>"
  have "live_count ?c now sid \<le> 16" for sid
    using live_count_map [of c f "unix_seconds now" now sid] f inv
    by (force simp: cat_inv_def intro: order_trans)
  moreover have "map tr_id (cat_triggers ?c) = map tr_id (cat_triggers c)"
    using f by simp
  moreover have "fired_in c sid i \<Longrightarrow> fired_in ?c sid i" for sid i
    using f by (force simp: fired_in_def)
  ultimately show ?thesis
    using inv f unfolding cat_inv_def by (auto simp del: map_map)
qed

lemma cat_inv_cancel:
  assumes "cat_inv (c, now)"
  shows "cat_inv (snd (CancelCompletionTrigger c sid i), now)"
proof -
  have "snd (CancelCompletionTrigger c sid i) = c\<lparr>cat_triggers :=
      map (\<lambda>r. if tr_session r = sid \<and> tr_id r = i \<and> tr_state r = ''pending''
             then r\<lparr>tr_state := ''cancelled''\<rparr> else r) (cat_triggers c)\<rparr>"
    by (simp add: CancelCompletionTrigger_def Let_def)
  moreover have "cat_inv (\<dots>, now)"
    by (rule cat_inv_map [OF assms]) (use assms in \<open>auto simp: cat_inv_def live_trigger_def\<close>)
  ultimately show ?thesis by simp
qed

lemma queue_op_external_allowed: "queue_op_external op \<Longrightarrow> op_allowed op"
  by (cases op) auto

lemma run_op_keys:
  assumes inv: "queue_inv t" and op: "op_allowed op"
  shows "row_key ` set (qt_rows (run_op op t)) =
    row_key ` set (qt_rows t) \<union> (case op of OpQueue sid i p \<Rightarrow> {(sid, i)} | _ \<Rightarrow> {})"
proof (cases "\<exists>sid i p. op = OpQueue sid i p")
  case True
  then obtain sid i p where o: "op = OpQueue sid i p" by blast
  show ?thesis
  proof (cases "QueuedInputByID t sid i")
    case None
    then show ?thesis by (auto simp: o QueueInput_def insert_row_def new_row_def row_key_def)
  next
    case (Some q)
    then have "(sid, i) \<in> row_key ` set (qt_rows t)"
      using QueuedInputByID_None [of t sid i] by auto
    then show ?thesis using Some by (auto simp: o QueueInput_def)
  qed
next
  case False
  then obtain f where f: "qt_rows (run_op op t) = map f (qt_rows t)"
    "\<forall>r \<in> set (qt_rows t). row_advances r (f r)"
    using run_op_advances [OF inv op] by (auto simp: table_advances_def)
  then have "row_key ` set (qt_rows (run_op op t)) = row_key ` set (qt_rows t)"
    by (auto simp: image_image row_advances_def)
  then show ?thesis
    using False by (cases op) auto
qed

lemma cat_inv_queue:
  assumes inv: "cat_inv (c, now)" and op: "queue_op_external op"
  shows "cat_inv (c\<lparr>cat_queue := run_op op (cat_queue c)\<rparr>, now)"
proof -
  have ok: "queue_inv (cat_queue c)" "op_allowed op"
    using inv op by (auto simp: cat_inv_def queue_op_external_allowed)
  have keys: "(sid, ''completion:'' @ i) \<in> row_key ` set (qt_rows (cat_queue c))"
    if "(sid, ''completion:'' @ i) \<in> row_key ` set (qt_rows (run_op op (cat_queue c)))" for sid i
    using that op unfolding run_op_keys [OF ok] by (cases op) (auto simp: HasPrefix_def)
  have "fired_in (c\<lparr>cat_queue := q\<rparr>) = fired_in c" "live_count (c\<lparr>cat_queue := q\<rparr>) = live_count c" for q
    by (simp_all add: fun_eq_iff fired_in_def live_count_def)
  then show ?thesis
    using inv run_op_inv [OF ok] keys unfolding cat_inv_def by auto
qed

text \<open>The trigger after its callback was accepted.\<close>

definition fired_row :: "string \<Rightarrow> trigger_row \<Rightarrow> trigger_row" where
  "fired_row callbackText r =
     r\<lparr>tr_state := ''fired'',
       tr_payload := map_sum id
         (\<lambda>v. v\<lparr>ct_CallbackText := callbackText, ct_State := ''fired''\<rparr>) (tr_payload r)\<rparr>"

lemma trigger_row_at_in: "trigger_row_at c i = Some r \<Longrightarrow> r \<in> set (cat_triggers c) \<and> tr_id r = i"
  by (auto simp: trigger_row_at_def find_Some_iff)

lemma trigger_row_unique:
  assumes "distinct (map tr_id (cat_triggers c))" "r \<in> set (cat_triggers c)"
  shows "trigger_row_at c (tr_id r) = Some r"
proof -
  obtain s where s: "trigger_row_at c (tr_id r) = Some s"
    using assms(2) by (cases "trigger_row_at c (tr_id r)") (auto simp: trigger_row_at_def find_None_iff)
  then show ?thesis
    using trigger_row_at_in [OF s] assms by (auto simp: distinct_map dest: inj_onD)
qed

lemma FireCompletionTrigger_accepts:
  assumes inv: "cat_inv (c, now)" and fire: "FireCompletionTrigger now c i ctext p = (Inr True, c')"
  obtains r where "trigger_row_at c i = Some r" "live_trigger (unix_seconds now) r"
    "c' = c\<lparr>cat_triggers := map (\<lambda>s. if tr_id s = i then fired_row ctext s else s) (cat_triggers c),
           cat_queue := QueueInput (cat_queue c) (tr_session r) (''completion:'' @ i) p\<rparr>"
proof -
  obtain r v where r: "trigger_row_at c i = Some r" "tr_payload r = Inr v" "live_trigger (unix_seconds now) r"
    and c': "c' = (set_trigger i (\<lambda>r. r\<lparr>tr_state := ''fired'',
        tr_payload := Inr (v\<lparr>ct_CallbackText := ctext, ct_State := ''fired''\<rparr>)\<rparr>) c)
      \<lparr>cat_queue := QueueInput (cat_queue c) (tr_session r) (''completion:'' @ i) p\<rparr>"
    using fire by (auto simp: FireCompletionTrigger_def live_trigger_def split: option.splits sum.splits if_splits)
  have "s = r" if "s \<in> set (cat_triggers c)" "tr_id s = i" for s
    using trigger_row_unique [of c s] that r(1) inv by (simp add: cat_inv_def)
  then have "map (\<lambda>s. if tr_id s = i then s\<lparr>tr_state := ''fired'',
        tr_payload := Inr (v\<lparr>ct_CallbackText := ctext, ct_State := ''fired''\<rparr>)\<rparr> else s) (cat_triggers c)
      = map (\<lambda>s. if tr_id s = i then fired_row ctext s else s) (cat_triggers c)"
    using r(2) by (intro map_cong) (auto simp: fired_row_def)
  then show thesis using that r by (simp add: c' set_trigger_def)
qed

lemma FireCompletionTrigger_changes:
  "snd (FireCompletionTrigger now c i ctext p) \<noteq> c \<Longrightarrow>
   FireCompletionTrigger now c i ctext p = (Inr True, snd (FireCompletionTrigger now c i ctext p))"
  by (auto simp: FireCompletionTrigger_def split: option.splits sum.splits if_splits)

lemma cat_inv_fire:
  assumes inv: "cat_inv (c, now)"
  shows "cat_inv (snd (FireCompletionTrigger now c i ctext p), now)"
proof (cases "snd (FireCompletionTrigger now c i ctext p) = c")
  case False
  then obtain r where r: "trigger_row_at c i = Some r"
    and c': "snd (FireCompletionTrigger now c i ctext p) =
      c\<lparr>cat_triggers := map (\<lambda>s. if tr_id s = i then fired_row ctext s else s) (cat_triggers c),
        cat_queue := QueueInput (cat_queue c) (tr_session r) (''completion:'' @ i) p\<rparr>"
    by (rule FireCompletionTrigger_accepts [OF inv FireCompletionTrigger_changes])
  let ?d = "c\<lparr>cat_triggers := map (\<lambda>s. if tr_id s = i then fired_row ctext s else s) (cat_triggers c)\<rparr>"
  let ?q = "QueueInput (cat_queue c) (tr_session r) (''completion:'' @ i) p"
  have d: "cat_inv (?d, now)"
    by (rule cat_inv_map [OF inv]) (use inv in \<open>force simp: fired_row_def live_trigger_def cat_inv_def\<close>)
  have q: "queue_inv (cat_queue c)" using inv by (simp add: cat_inv_def)
  have "fired_row ctext r \<in> set (cat_triggers ?d)"
    using trigger_row_at_in [OF r] by force
  then have "fired_in ?d (tr_session r) i"
    unfolding fired_in_def using trigger_row_at_in [OF r]
    by (intro bexI [of _ "fired_row ctext r"]) (simp_all add: fired_row_def)
  moreover have "row_key ` set (qt_rows ?q) =
      row_key ` set (qt_rows (cat_queue c)) \<union> {(tr_session r, ''completion:'' @ i)}"
    using run_op_keys [OF q, of "OpQueue (tr_session r) (''completion:'' @ i) p"] by simp
  moreover have "fired_in (?d\<lparr>cat_queue := ?q\<rparr>) = fired_in ?d"
    "live_count (?d\<lparr>cat_queue := ?q\<rparr>) = live_count ?d"
    by (simp_all add: fun_eq_iff fired_in_def live_count_def)
  ultimately have "cat_inv (?d\<lparr>cat_queue := ?q\<rparr>, now)"
    using d QueueInput_inv [OF q] unfolding cat_inv_def by auto
  then show ?thesis by (simp add: c')
qed (use inv in simp)

lemma cat_step_inv: "cat_step hmac s s' \<Longrightarrow> cat_inv s \<Longrightarrow> cat_inv s'"
proof (induction rule: cat_step.induct)
  case (tick now now' c)
  from tick.prems show ?case
    by (rule cat_inv_keep [OF _ tick.hyps]) (use tick.prems in \<open>auto simp: key_extends_def cat_inv_def\<close>)
qed (auto intro: cat_inv_create cat_inv_authenticate cat_inv_fire cat_inv_cancel cat_inv_queue)

lemma cat_steps_inv: "cat_steps hmac s s' \<Longrightarrow> cat_inv s \<Longrightarrow> cat_inv s'"
  by (induction rule: rtranclp_induct) (auto intro: cat_step_inv)

lemma cat_reachable_inv: "cat_reachable hmac s \<Longrightarrow> cat_inv s"
proof -
  have "cat_inv (empty_catalog, 0)"
    by (simp add: cat_inv_def empty_catalog_def queue_inv_def key_ok_def live_count_def)
  then show "cat_reachable hmac s \<Longrightarrow> cat_inv s"
    unfolding cat_reachable_def using cat_steps_inv by blast
qed

section \<open>What later steps keep\<close>

definition queued_keys :: "'p catalog \<Rightarrow> (string \<times> string) set" where
  "queued_keys c = row_key ` set (qt_rows (cat_queue c))"

text \<open>Fired triggers, queue entries and the key stay, and no row of another trigger is forged.\<close>

definition cat_keeps :: "'p catalog \<Rightarrow> 'p catalog \<Rightarrow> bool" where
  "cat_keeps c c' \<longleftrightarrow>
     (\<forall>r \<in> set (cat_triggers c). tr_state r = ''fired'' \<longrightarrow> r \<in> set (cat_triggers c')) \<and>
     queued_keys c \<subseteq> queued_keys c' \<and> (cat_key c \<noteq> None \<longrightarrow> cat_key c' = cat_key c)"

lemma cat_keeps_refl [simp]: "cat_keeps c c"
  by (simp add: cat_keeps_def)

lemma cat_keeps_trans: "cat_keeps a b \<Longrightarrow> cat_keeps b c \<Longrightarrow> cat_keeps a c"
  by (auto simp: cat_keeps_def)

lemma key_extends_keeps:
  assumes "key_extends c c'"
    "\<And>r. r \<in> set (cat_triggers c) \<Longrightarrow> tr_state r = ''fired'' \<Longrightarrow> r \<in> set (cat_triggers c')"
  shows "cat_keeps c c'"
  using assms by (auto simp: cat_keeps_def key_extends_def queued_keys_def)

lemma cat_keeps_map:
  assumes "\<And>r. r \<in> set (cat_triggers c) \<Longrightarrow> tr_state r = ''fired'' \<Longrightarrow> f r = r"
    "queued_keys c \<subseteq> row_key ` set (qt_rows q)"
  shows "cat_keeps c (c\<lparr>cat_triggers := map f (cat_triggers c), cat_queue := q\<rparr>)"
  using assms by (force simp: cat_keeps_def queued_keys_def image_iff)

lemma cat_keeps_create:
  assumes "key_ok (cat_key c)" "length seed = 32"
  shows "cat_keeps c (snd (CreateCompletionTrigger hmac seed now1 now2 c v))"
  by (rule CreateCompletionTrigger_cases [OF assms refl])
    (auto intro!: key_extends_keeps simp: drop_expired_def)

lemma cat_keeps_authenticate:
  assumes "key_ok (cat_key c)" "length seed = 32"
  shows "cat_keeps c (snd (AuthenticateCompletionTrigger hmac seed c i token))"
proof -
  have "cat_keeps c (snd (completionToken hmac seed c i))"
    using completionToken_extends [OF assms, of hmac i] by (intro key_extends_keeps) auto
  then show ?thesis
    by (auto simp: AuthenticateCompletionTrigger_def split: sum.split prod.split)
qed

lemma cat_keeps_fire:
  assumes inv: "cat_inv (c, now)"
  shows "cat_keeps c (snd (FireCompletionTrigger now c i ctext p))"
proof (cases "snd (FireCompletionTrigger now c i ctext p) = c")
  case False
  then obtain r where r: "trigger_row_at c i = Some r" "live_trigger (unix_seconds now) r"
    and c': "snd (FireCompletionTrigger now c i ctext p) =
      c\<lparr>cat_triggers := map (\<lambda>s. if tr_id s = i then fired_row ctext s else s) (cat_triggers c),
        cat_queue := QueueInput (cat_queue c) (tr_session r) (''completion:'' @ i) p\<rparr>"
    by (rule FireCompletionTrigger_accepts [OF inv FireCompletionTrigger_changes])
  have "tr_state s \<noteq> ''fired''" if "s \<in> set (cat_triggers c)" "tr_id s = i" for s
    using trigger_row_unique [of c s] that r inv by (auto simp: cat_inv_def live_trigger_def)
  moreover have "queued_keys c \<subseteq> row_key ` set (qt_rows (QueueInput (cat_queue c) (tr_session r) (''completion:'' @ i) p))"
    using inv run_op_keys [of "cat_queue c" "OpQueue (tr_session r) (''completion:'' @ i) p"]
    by (auto simp: cat_inv_def queued_keys_def)
  ultimately show ?thesis
    unfolding c' by (intro cat_keeps_map) auto
qed simp

lemma cat_keeps_cancel: "cat_keeps c (snd (CancelCompletionTrigger c sid i))"
  using cat_keeps_map [of c "\<lambda>r. if tr_session r = sid \<and> tr_id r = i \<and> tr_state r = ''pending''
    then r\<lparr>tr_state := ''cancelled''\<rparr> else r" "cat_queue c"]
  by (simp add: CancelCompletionTrigger_def Let_def queued_keys_def)

lemma cat_keeps_queue:
  assumes "queue_inv (cat_queue c)" "queue_op_external op"
  shows "cat_keeps c (c\<lparr>cat_queue := run_op op (cat_queue c)\<rparr>)"
  using run_op_keys [OF assms(1) queue_op_external_allowed [OF assms(2)]]
  by (auto simp: cat_keeps_def queued_keys_def)

lemma cat_step_keeps: "cat_step hmac s s' \<Longrightarrow> cat_inv s \<Longrightarrow> cat_keeps (fst s) (fst s')"
  by (induction rule: cat_step.induct)
    (auto intro: cat_keeps_create cat_keeps_authenticate cat_keeps_fire cat_keeps_cancel cat_keeps_queue
      simp: cat_inv_def)

lemma cat_steps_keep: "cat_steps hmac s s' \<Longrightarrow> cat_inv s \<Longrightarrow> cat_keeps (fst s) (fst s')"
proof (induction rule: rtranclp_induct)
  case (step y z)
  then show ?case
    using cat_step_keeps cat_steps_inv cat_keeps_trans by blast
qed simp

lemma distinct_filter_key:
  assumes "distinct (map f xs)" "k \<in> f ` set xs"
  shows "length (filter (\<lambda>x. f x = k) xs) = 1"
  using assms
proof (induction xs)
  case (Cons x xs)
  show ?case
  proof (cases "f x = k")
    case True
    then have "filter (\<lambda>x. f x = k) xs = []"
      using Cons.prems(1) by (auto simp: filter_empty_conv image_iff)
    then show ?thesis using True by simp
  next
    case False
    then show ?thesis using Cons by simp
  qed
qed simp

lemma QueuedInputByID_QueueInput:
  assumes "QueuedInputByID t sid i = None"
  shows "QueuedInputByID (QueueInput t sid i p) sid i =
    Some \<lparr>qi_ID = i, qi_Payload = p, qi_State = Queued, qi_BatchID = '''', qi_Revision = 1\<rparr>"
proof -
  have "find P (xs @ [x]) = Some x" if "find P xs = None" "P x" for P and x :: "'a queue_row" and xs
    using that by (induction xs) (auto split: if_splits)
  then have "find (\<lambda>r. qr_session r = sid \<and> qi_ID r = i) (qt_rows t @ [new_row t sid i p]) = Some (new_row t sid i p)"
    using assms by (simp add: QueuedInputByID_def new_row_def)
  then show ?thesis
    using assms by (simp add: QueueInput_def insert_row_def QueuedInputByID_def new_row_def
        QueuedInput.truncate_def)
qed

lemma CreateCompletionTrigger_token:
  assumes key: "key_ok (cat_key c)" "length seed = 32"
    and create: "CreateCompletionTrigger hmac seed now1 now2 c v = (Inr (w, token), c')"
  shows "\<exists>e k. cat_key c' = Some e \<and> b64_decode e = Some k \<and> length k = 32 \<and>
    token = b64_raw_url (hmac k (ct_ID v))"
proof -
  have tok: "\<exists>e k. cat_key d' = Some e \<and> b64_decode e = Some k \<and> length k = 32 \<and> t = b64_raw_url (hmac k i)"
    if "completionToken hmac seed d i = (Inr t, d')" "cat_key d = cat_key c" for d d' :: "'a catalog" and i t
    by (rule completionToken_cases [of d seed hmac i]) (use that key in auto)
  have "ct_ID (default_delivery v) = ct_ID v" by (simp add: default_delivery_def)
  then show ?thesis
    using create
    by (auto simp: CreateCompletionTrigger_def Let_def
        split: sum.splits trigger_error.splits if_splits prod.splits dest!: tok)
qed

section \<open>Properties\<close>

text \<open>
  C32. Once a callback was accepted, every retry is answered without effect, whatever happens to the
  catalog in between: with the same text it is acknowledged, with another text it is a conflict,
  and the notification stays in the queue of the session exactly once.
\<close>

theorem fired_callback_idempotent:
  assumes reach: "cat_reachable hmac (c, now)"
    and fire: "FireCompletionTrigger now c i ctext p = (Inr True, c')"
    and later: "cat_steps hmac (c', now) (c'', now'')"
  shows "FireCompletionTrigger now'' c'' i ctext' p' =
      (if ctext' = ctext then Inr False else Inl ErrTriggerContentConflict, c'') \<and>
    (\<exists>sid. length (filter (\<lambda>r. row_key r = (sid, ''completion:'' @ i)) (qt_rows (cat_queue c''))) = 1)"
proof -
  have inv: "cat_inv (c, now)" using reach by (rule cat_reachable_inv)
  obtain r where r: "trigger_row_at c i = Some r"
    and c': "c' = c\<lparr>cat_triggers := map (\<lambda>s. if tr_id s = i then fired_row ctext s else s) (cat_triggers c),
      cat_queue := QueueInput (cat_queue c) (tr_session r) (''completion:'' @ i) p\<rparr>"
    by (rule FireCompletionTrigger_accepts [OF inv fire])
  have step: "cat_inv (c', now)"
    using cat_inv_fire [OF inv, of i ctext p] fire by simp
  then have inv'': "cat_inv (c'', now'')" using later cat_steps_inv by blast
  have keeps: "cat_keeps c' c''" using cat_steps_keep [OF later step] by simp
  have ri: "r \<in> set (cat_triggers c)" "tr_id r = i" using trigger_row_at_in [OF r] by auto
  obtain v where v: "tr_payload r = Inr v" using inv ri(1) by (auto simp: cat_inv_def)
  have "fired_row ctext r \<in> set (cat_triggers c')" using ri by (force simp: c')
  then have "fired_row ctext r \<in> set (cat_triggers c'')"
    using keeps by (simp add: cat_keeps_def fired_row_def)
  then have "trigger_row_at c'' i = Some (fired_row ctext r)"
    using trigger_row_unique [of c'' "fired_row ctext r"] inv'' ri(2)
    by (simp add: cat_inv_def fired_row_def)
  then have "FireCompletionTrigger now'' c'' i ctext' p' =
      (if ctext' = ctext then Inr False else Inl ErrTriggerContentConflict, c'')"
    by (simp add: FireCompletionTrigger_def fired_row_def v)
  moreover have "(tr_session r, ''completion:'' @ i) \<in> queued_keys c'"
    using inv run_op_keys [of "cat_queue c" "OpQueue (tr_session r) (''completion:'' @ i) p"]
    by (simp add: queued_keys_def c' cat_inv_def)
  then have "(tr_session r, ''completion:'' @ i) \<in> queued_keys c''"
    using keeps by (auto simp: cat_keeps_def)
  then have "length (filter (\<lambda>q. row_key q = (tr_session r, ''completion:'' @ i)) (qt_rows (cat_queue c''))) = 1"
    using inv'' by (intro distinct_filter_key) (auto simp: cat_inv_def queue_inv_def queued_keys_def)
  ultimately show ?thesis by blast
qed

text \<open>
  The first callback of a live trigger is never lost: it is accepted and its notification waits
  in the queue of the session the trigger was registered for, ready to be claimed.
\<close>

theorem live_trigger_delivers:
  assumes reach: "cat_reachable hmac (c, now)"
    and r: "trigger_row_at c i = Some r" "live_trigger (unix_seconds now) r"
  shows "fst (FireCompletionTrigger now c i ctext p) = Inr True \<and>
    QueuedInputByID (cat_queue (snd (FireCompletionTrigger now c i ctext p))) (tr_session r) (''completion:'' @ i) =
      Some \<lparr>qi_ID = ''completion:'' @ i, qi_Payload = p, qi_State = Queued, qi_BatchID = '''', qi_Revision = 1\<rparr>"
proof -
  have inv: "cat_inv (c, now)" using reach by (rule cat_reachable_inv)
  have ri: "r \<in> set (cat_triggers c)" "tr_id r = i" using trigger_row_at_in [OF r(1)] by auto
  obtain v where v: "tr_payload r = Inr v" using inv ri(1) by (auto simp: cat_inv_def)
  have pending: "tr_state r = ''pending''" "tr_expires r > unix_seconds now"
    using r(2) by (auto simp: live_trigger_def)
  have "\<not> fired_in c (tr_session r) i"
    using trigger_row_unique [of c] inv r(1) pending(1) by (force simp: cat_inv_def fired_in_def)
  then have fresh: "(tr_session r, ''completion:'' @ i) \<notin> row_key ` set (qt_rows (cat_queue c))"
    using inv by (auto simp: cat_inv_def)
  then have "QueuedInputByID (cat_queue c) (tr_session r) (''completion:'' @ i) = None"
    by (simp only: QueuedInputByID_None not_False_eq_True)
  moreover from this have "QueuedInputByID (QueueInput (cat_queue c) (tr_session r) (''completion:'' @ i) p)
      (tr_session r) (''completion:'' @ i) =
      Some \<lparr>qi_ID = ''completion:'' @ i, qi_Payload = p, qi_State = Queued, qi_BatchID = '''', qi_Revision = 1\<rparr>"
    by (rule QueuedInputByID_QueueInput)
  ultimately show ?thesis
    using r(1) v pending by (simp add: FireCompletionTrigger_def)
qed

text \<open>
  The token returned when a trigger is registered authenticates that trigger for as long as the
  trigger exists, across restarts and other registrations, and no other token does.
\<close>

theorem callback_token_stable:
  assumes reach: "cat_reachable hmac (c, now)" and t: "now \<le> now1" "now1 \<le> now2"
    and seed: "length seed = 32" "length seed' = 32"
    and create: "CreateCompletionTrigger hmac seed now1 now2 c v = (Inr (w, token), c')"
    and later: "cat_steps hmac (c', now2) (c'', now'')"
    and still: "lookup_trigger c'' (ct_ID v) = Inr w'"
  shows "fst (AuthenticateCompletionTrigger hmac seed' c'' (ct_ID v) token') =
    (if token' = token then Inr w' else Inl ErrTriggerUnavailable)"
proof -
  have inv: "cat_inv (c, now)" using reach by (rule cat_reachable_inv)
  have inv': "cat_inv (c', now2)" using cat_inv_create [OF inv t seed(1), of hmac v] create by simp
  obtain e key where e: "cat_key c' = Some e" "b64_decode e = Some key" "length key = 32"
    "token = b64_raw_url (hmac key (ct_ID v))"
    using CreateCompletionTrigger_token [OF _ seed(1) create] inv by (auto simp: cat_inv_def)
  have "cat_key c'' = Some e"
    using cat_steps_keep [OF later inv'] e(1) by (simp add: cat_keeps_def)
  then show ?thesis
    using still e(2-4) by (simp add: AuthenticateCompletionTrigger_def completionToken_def)
qed

text \<open>
  However registrations, callbacks and cancellations are interleaved, no session ever has more
  than sixteen triggers that are pending and not expired.
\<close>

theorem live_triggers_bounded:
  assumes "cat_reachable hmac (c, now)"
  shows "length (filter (\<lambda>r. tr_session r = sid \<and> live_trigger (unix_seconds now) r) (cat_triggers c)) \<le> 16"
  using cat_reachable_inv [OF assms] by (simp add: cat_inv_def live_count_def)

text \<open>A registered trigger, for the witnesses; the hash is a concrete function.\<close>

definition sample_hmac :: "string \<Rightarrow> string \<Rightarrow> string" where
  "sample_hmac key i = take 4 key @ i"

definition sample_seed :: string where
  "sample_seed = replicate 32 (CHR ''k'')"

definition sample_trigger :: CompletionTrigger where
  "sample_trigger =
     \<lparr>ct_ID = ''cb'', ct_SessionID = ''s'', ct_WorkspaceID = ''w'', ct_Title = ''build'', ct_OnFire = ''report'',
      ct_Policy = ''p'', ct_TTL = 60, ct_ExpiresAt = 60000000000, ct_State = '''', ct_CallbackText = '''',
      ct_DeliveryMode = ''''\<rparr>"

definition sample_catalog :: "string catalog" where
  "sample_catalog = snd (CreateCompletionTrigger sample_hmac sample_seed 1 2 empty_catalog sample_trigger)"

lemma sample_seed_length: "length sample_seed = 32"
  by (simp add: sample_seed_def)

lemma sample_catalog_reachable: "cat_reachable sample_hmac (sample_catalog, 2)"
  unfolding cat_reachable_def sample_catalog_def
  by (intro r_into_rtranclp create) (simp_all add: sample_seed_length)

abbreviation (input) sample_fired :: "(trigger_error + bool) \<times> string catalog" where
  "sample_fired \<equiv> FireCompletionTrigger 2 sample_catalog ''cb'' ''ok'' ''payload''"

theorem fired_callback_idempotent_witness:
  "fst (FireCompletionTrigger 90000000000 (snd sample_fired) ''cb'' ''ok'' ''again'') = Inr False"
proof -
  have "fst sample_fired = Inr True"
    by code_simp
  then have fire: "sample_fired = (Inr True, snd sample_fired)"
    by (metis prod.collapse)
  have "cat_steps sample_hmac (snd sample_fired, 2) (snd sample_fired, 90000000000)"
    by (intro r_into_rtranclp tick) simp
  from fired_callback_idempotent [OF sample_catalog_reachable fire this, of "''ok''" "''again''"]
  show ?thesis
    by (simp only: fst_conv if_True refl simp_thms)
qed

theorem live_trigger_delivers_witness:
  "fst (FireCompletionTrigger 2 sample_catalog ''cb'' ''done'' ''payload'') = Inr True"
proof -
  obtain r where "trigger_row_at sample_catalog ''cb'' = Some r" "live_trigger (unix_seconds 2) r"
  proof -
    have "map_option (live_trigger (unix_seconds 2)) (trigger_row_at sample_catalog ''cb'') = Some True"
      by code_simp
    then show thesis using that by (auto simp: map_option_eq_Some)
  qed
  then show ?thesis
    using live_trigger_delivers [OF sample_catalog_reachable] by simp
qed

theorem callback_token_stable_witness:
  "map_sum (\<lambda>e. e) ct_Title (fst (AuthenticateCompletionTrigger sample_hmac sample_seed sample_catalog ''cb''
     (b64_raw_url ''kkkkcb''))) = Inr ''build''"
proof -
  let ?create = "CreateCompletionTrigger sample_hmac sample_seed 1 2 (empty_catalog :: string catalog) sample_trigger"
  have "map_sum (\<lambda>e. e) snd (fst ?create) = Inr (b64_raw_url ''kkkkcb'')"
    by code_simp
  then obtain w where "fst ?create = Inr (w, b64_raw_url ''kkkkcb'')"
    by (cases "fst ?create") auto
  then have create: "?create = (Inr (w, b64_raw_url ''kkkkcb''), sample_catalog)"
    unfolding sample_catalog_def by (metis prod.collapse)
  have "map_sum (\<lambda>e. e) ct_Title (lookup_trigger sample_catalog ''cb'') = Inr ''build''"
    by code_simp
  then obtain w' where w': "lookup_trigger sample_catalog (ct_ID sample_trigger) = Inr w'" "ct_Title w' = ''build''"
    by (cases "lookup_trigger sample_catalog ''cb''") (auto simp: sample_trigger_def)
  have "cat_reachable sample_hmac (empty_catalog :: string catalog, 0)"
    by (simp add: cat_reachable_def)
  then have "fst (AuthenticateCompletionTrigger sample_hmac sample_seed sample_catalog (ct_ID sample_trigger)
      (b64_raw_url ''kkkkcb'')) = Inr w'"
    using callback_token_stable [OF _ _ _ sample_seed_length sample_seed_length create
        rtranclp.rtrancl_refl w'(1), of 0 "b64_raw_url ''kkkkcb''"]
    by (simp del: b64_raw_url.simps)
  moreover have "ct_ID sample_trigger = ''cb''" by (simp add: sample_trigger_def)
  ultimately show ?thesis
    using w'(2) by (simp del: b64_raw_url.simps)
qed

theorem live_triggers_bounded_witness:
  "length (filter (\<lambda>r. tr_session r = ''s'' \<and> live_trigger (unix_seconds 2) r) (cat_triggers sample_catalog)) \<le> 16"
  using live_triggers_bounded [OF sample_catalog_reachable] by simp

end
