(* ===== verification/Display_Log.thy ===== *)
theory Display_Log
  imports Protocol
begin

text \<open>
  The display log of a session (\<open>core/session/display_log.go\<close>, \<open>display_content.go\<close>): the items a
  session shows to its clients, their classification and paging, and what the daemon derives from
  the log alone: the open turn (\<open>internal/zotigod/control_handlers.go\<close>) and the approvals that wait
  for a human (\<open>internal/zotigod/approvals.go\<close>).

  The log is append-only, so its items carry increasing sequence numbers.  Shown: following the
  cursors in either direction visits every item of a kind exactly once, an approval is pending exactly
  between its request and its decision, and accepted decisions answer the pending calls one to one.
\<close>

section \<open>Items\<close>

datatype DisplayItemType =
    DisplayItemUserMessage | DisplayItemSteeringMessage | DisplayItemSessionCommand
  | DisplayItemAssistantMessage | DisplayItemError | DisplayItemTurnStarted
  | DisplayItemTurnPaused | DisplayItemTurnCompleted | DisplayItemTurnFailed
  | DisplayItemTurnInterrupted | DisplayItemApprovalRequest | DisplayItemApprovalDecision
  | DisplayItemInteractionRequest | DisplayItemInteractionResponse
  | DisplayItemContextCompacted | DisplayItemProfileChanged | DisplayItemProfileFailed
  | DisplayItemApprovalPolicyChanged | DisplayItemToolExecutionStarted
  | DisplayItemContextUsageUpdated | DisplayItemRequestRetry | DisplayItemModelUsageUpdated
  | DisplayItemOther string

record DisplayMediaPart =
  dm_Data :: string
  dm_URL :: string
  dm_FileID :: string
  dm_MediaType :: string
  dm_SizeBytes :: int
  dm_Width :: int
  dm_Height :: int

record DisplayToolCall =
  dtc_ID :: string
  dtc_Name :: string
  dtc_Arguments :: string

record DisplayToolResultContentPart =
  drc_Type :: string
  drc_Text :: string
  drc_Image :: "DisplayMediaPart option"

record DisplayToolResult =
  dtr_ToolCallID :: string
  dtr_ToolName :: string
  dtr_ResultType :: string
  dtr_Text :: string
  dtr_JSON :: goany
  dtr_Reason :: string
  dtr_Content :: "DisplayToolResultContentPart list"
  dtr_IsError :: bool
  dtr_Metadata :: "(string \<times> goany) list"

record DisplayContentPart =
  dp_Type :: string
  dp_Text :: string
  dp_Image :: "DisplayMediaPart option"
  dp_ToolCall :: "DisplayToolCall option"
  dp_ToolResult :: "DisplayToolResult option"

record DisplayToolExecution =
  dte_TurnID :: string
  dte_ToolCallID :: string
  dte_ToolName :: string

record DisplayTurn =
  dt_ID :: string
  dt_Reason :: string
  dt_Status :: string
  dt_ProviderFinishReason :: string
  dt_LastAgentMessage :: string
  dt_DurationMS :: int
  dt_Usage :: "Usage option"

record DisplayPendingApproval =
  dpa_ToolCallID :: string
  dpa_ToolName :: string
  dpa_Arguments :: string
  dpa_Description :: string
  dpa_Reason :: string
  dpa_RiskLevel :: string
  dpa_Source :: string
  dpa_RequiresSnapshot :: bool

record DisplayApprovalDecision =
  dad_ToolCallID :: string
  dad_Approved :: bool
  dad_Reason :: string
  dad_ModifiedArgs :: string

record DisplayApproval =
  da_ID :: string
  da_TurnID :: string
  da_Pending :: "DisplayPendingApproval list"
  da_Decisions :: "DisplayApprovalDecision list"

text \<open>Of an interaction only what the functions below read.\<close>

record DisplayInteraction =
  dx_ID :: string
  dx_TurnID :: string
  dx_IsBlocking :: bool

record DisplayCommandImage =
  dci_MimeType :: string
  dci_SizeBytes :: int
  dci_Width :: int
  dci_Height :: int
  dci_BlobPath :: string
  dci_Data :: string

record DisplayCommand =
  dc_Type :: string
  dc_Text :: string
  dc_Skills :: "string list"
  dc_Images :: "DisplayCommandImage list"
  dc_TurnID :: string
  dc_Reason :: string
  dc_Profile :: string
  dc_ApprovalPolicy :: string
  dc_RequestContext :: "RequestContext option"

text \<open>
  The item, without the payloads (context usage, retries, compaction, profile changes) that are
  only shown and never read back.
\<close>

record DisplayItem =
  di_BeforeInputID :: string
  di_ID :: string
  di_Sequence :: int
  di_Type :: DisplayItemType
  di_Role :: string
  di_Content :: "DisplayContentPart list"
  di_Turn :: "DisplayTurn option"
  di_Approval :: "DisplayApproval option"
  di_Interaction :: "DisplayInteraction option"
  di_Command :: "DisplayCommand option"
  di_ToolExecution :: "DisplayToolExecution option"
  di_Error :: string
  di_CreatedAt :: time

definition empty_item :: "DisplayItemType \<Rightarrow> DisplayItem" where
  "empty_item ty =
     \<lparr>di_BeforeInputID = '''', di_ID = '''', di_Sequence = 0, di_Type = ty, di_Role = '''', di_Content = [],
      di_Turn = None, di_Approval = None, di_Interaction = None, di_Command = None,
      di_ToolExecution = None, di_Error = '''', di_CreatedAt = 0\<rparr>"

section \<open>Content kinds\<close>

datatype DisplayContentKind =
  DisplayContentConversation | DisplayContentTool | DisplayContentEvent

definition IsTool :: "DisplayContentPart \<Rightarrow> bool" where
  "IsTool part \<longleftrightarrow> dp_Type part = ''tool_call'' \<or> dp_Type part = ''tool_result''"

fun assistant_kind :: "bool \<Rightarrow> DisplayContentPart list \<Rightarrow> DisplayContentKind" where
  "assistant_kind hasTool [] = (if hasTool then DisplayContentTool else DisplayContentEvent)"
| "assistant_kind hasTool (part # parts) =
     (if IsTool part then assistant_kind True parts
      else if dp_Type part \<noteq> ''reasoning'' \<and> dp_Type part \<noteq> ''thinking''
      then DisplayContentConversation
      else assistant_kind hasTool parts)"

definition ContentKind :: "DisplayItem \<Rightarrow> DisplayContentKind" where
  "ContentKind item =
     (case di_Type item of
        DisplayItemUserMessage \<Rightarrow> DisplayContentConversation
      | DisplayItemSteeringMessage \<Rightarrow> DisplayContentConversation
      | DisplayItemAssistantMessage \<Rightarrow> assistant_kind False (di_Content item)
      | DisplayItemToolExecutionStarted \<Rightarrow> DisplayContentTool
      | _ \<Rightarrow> DisplayContentEvent)"

section \<open>Paging\<close>

record DisplayPageQuery =
  pq_ContentKind :: "DisplayContentKind option"
  pq_IncludeTools :: bool
  pq_Limit :: int
  pq_After :: int
  pq_Before :: int
  pq_HasAfter :: bool
  pq_HasBefore :: bool

record DisplayPage =
  pg_Items :: "DisplayItem list"
  pg_NextCursor :: string
  pg_PrevCursor :: string
  pg_HasMore :: bool

definition firstDisplayIndexAfter :: "DisplayItem list \<Rightarrow> int \<Rightarrow> int" where
  "firstDisplayIndexAfter items sequence =
     int (length (takeWhile (\<lambda>item. \<not> di_Sequence item > sequence) items))"

definition firstDisplayIndexAtOrAfter :: "DisplayItem list \<Rightarrow> int \<Rightarrow> int" where
  "firstDisplayIndexAtOrAfter items sequence =
     int (length (takeWhile (\<lambda>item. \<not> di_Sequence item \<ge> sequence) items))"

definition displayWindow :: "DisplayItem list \<Rightarrow> DisplayPageQuery \<Rightarrow> int \<times> int" where
  "displayWindow items query =
     (let total = int (length items)
      in if items = [] then (0, 0)
         else if pq_HasAfter query then
           (let start = firstDisplayIndexAfter items (pq_After query)
            in (start, min (start + pq_Limit query) total))
         else
           (let stop = (if pq_HasBefore query then firstDisplayIndexAtOrAfter items (pq_Before query)
                        else total);
                start = stop - pq_Limit query
            in (if start < 0 then 0 else start, stop)))"

definition kind_selected :: "DisplayPageQuery \<Rightarrow> DisplayItem \<Rightarrow> bool" where
  "kind_selected query item \<longleftrightarrow>
     (case pq_ContentKind query of
        None \<Rightarrow> True
      | Some k \<Rightarrow> ContentKind item = k \<or> pq_IncludeTools query \<and> ContentKind item = DisplayContentTool)"

text \<open>\<open>None\<close> is the panic of \<open>make\<close> with a negative length, which a negative limit causes.\<close>

definition PageDisplayItems :: "DisplayItem list \<Rightarrow> DisplayPageQuery \<Rightarrow> DisplayPage option" where
  "PageDisplayItems items0 query =
     (let items = filter (kind_selected query) items0;
          (start, stop) = displayWindow items query;
          pageItems = take (nat (stop - start)) (drop (nat start) items)
      in if stop < start then None
         else if pageItems = [] then
           Some \<lparr>pg_Items = [], pg_NextCursor = '''', pg_PrevCursor = '''', pg_HasMore = False\<rparr>
         else
           (let first = di_Sequence (hd pageItems);
                lastSeq = di_Sequence (last pageItems);
                prev = (if first > di_Sequence (hd items) then show_int first else '''');
                nextC = (if lastSeq < di_Sequence (last items) then show_int lastSeq else '''')
            in Some \<lparr>pg_Items = pageItems, pg_NextCursor = nextC, pg_PrevCursor = prev,
                      pg_HasMore = prev \<noteq> '''' \<or> nextC \<noteq> ''''\<rparr>))"

section \<open>The open turn\<close>

definition turn_ends :: "DisplayItemType \<Rightarrow> bool" where
  "turn_ends ty \<longleftrightarrow>
     ty = DisplayItemTurnCompleted \<or> ty = DisplayItemTurnFailed \<or> ty = DisplayItemTurnInterrupted"

definition open_turn_step :: "DisplayItem \<Rightarrow> string \<times> time \<Rightarrow> string \<times> time" where
  "open_turn_step item = (\<lambda>(opened, started).
     case di_Turn item of
       None \<Rightarrow> (opened, started)
     | Some turn \<Rightarrow>
         if dt_ID turn = '''' then (opened, started)
         else if di_Type item = DisplayItemTurnStarted then (dt_ID turn, di_CreatedAt item)
         else if di_Type item = DisplayItemTurnPaused then (dt_ID turn, started)
         else if turn_ends (di_Type item) \<and> opened = dt_ID turn then ('''', 0)
         else (opened, started))"

definition lastOpenTurn :: "DisplayItem list \<Rightarrow> string \<times> time" where
  "lastOpenTurn items = fold open_turn_step items ('''', 0)"

definition lastOpenTurnID :: "DisplayItem list \<Rightarrow> string" where
  "lastOpenTurnID items = fst (lastOpenTurn items)"

definition sessionCommandMessage :: string where "sessionCommandMessage = ''message''"
definition sessionCommandSteering :: string where "sessionCommandSteering = ''steering''"

definition is_message_command :: "DisplayItem \<Rightarrow> bool" where
  "is_message_command item \<longleftrightarrow>
     (case di_Command item of None \<Rightarrow> False | Some c \<Rightarrow> dc_Type c = sessionCommandMessage)"

definition hasPendingMessageCommand :: "DisplayItem list \<Rightarrow> bool" where
  "hasPendingMessageCommand items =
     fold (\<lambda>item pending.
        if di_Type item = DisplayItemTurnStarted then False
        else is_message_command item \<or> pending) items False"

section \<open>Approvals\<close>

text \<open>Pending ids are a set; a map with empty values is one.\<close>

definition approval_turn_step ::
  "string \<Rightarrow> DisplayItem \<Rightarrow> bool \<times> string set \<Rightarrow> bool \<times> string set"
where
  "approval_turn_step turnID item = (\<lambda>(byTurn, pending).
     case di_Approval item of
       None \<Rightarrow> (byTurn, pending)
     | Some a \<Rightarrow>
         if da_TurnID a \<noteq> turnID then (byTurn, pending)
         else if di_Type item = DisplayItemApprovalRequest then
           (if da_ID a = '''' then (True, pending) else (byTurn, insert (da_ID a) pending))
         else if di_Type item = DisplayItemApprovalDecision then
           (if da_ID a = '''' then (False, pending) else (byTurn, pending - {da_ID a}))
         else (byTurn, pending))"

definition hasPendingApprovalForTurn :: "DisplayItem list \<Rightarrow> string \<Rightarrow> bool" where
  "hasPendingApprovalForTurn items turnID =
     (case fold (approval_turn_step turnID) items (False, {}) of
        (byTurn, pending) \<Rightarrow> byTurn \<or> pending \<noteq> {})"

definition hasPendingApproval :: "DisplayItem list \<Rightarrow> bool" where
  "hasPendingApproval items =
     (let turnID = lastOpenTurnID items in turnID \<noteq> '''' \<and> hasPendingApprovalForTurn items turnID)"

text \<open>Where the open turn starts: after the last turn end, or later at its own start item.\<close>

definition human_request_start :: "DisplayItem list \<Rightarrow> string \<Rightarrow> nat" where
  "human_request_start items turnID =
     (let n = length items;
          is_start = (\<lambda>item. di_Type item = DisplayItemTurnStarted \<and>
             (case di_Turn item of None \<Rightarrow> False | Some t \<Rightarrow> dt_ID t = turnID));
          ended = n - length (takeWhile (\<lambda>item. \<not> turn_ends (di_Type item)) (rev items));
          after_start = length (takeWhile (\<lambda>item. \<not> is_start item) (rev items))
      in if after_start < n \<and> n - after_start - 1 > ended then n - after_start - 1 else ended)"

definition human_request_step ::
  "DisplayItem \<Rightarrow> string set \<times> string set \<Rightarrow> string set \<times> string set"
where
  "human_request_step item = (\<lambda>(approvals, interactions).
     let approvals' =
           (case di_Approval item of
              None \<Rightarrow> approvals
            | Some a \<Rightarrow>
                let key = (if da_ID a = '''' then ''turn:'' @ da_TurnID a else da_ID a)
                in if di_Type item = DisplayItemApprovalRequest then insert key approvals
                   else if di_Type item = DisplayItemApprovalDecision then approvals - {key}
                   else approvals)
     in case di_Interaction item of
          None \<Rightarrow> (approvals', interactions)
        | Some x \<Rightarrow>
            if \<not> dx_IsBlocking x \<or> dx_ID x = '''' then (approvals', interactions)
            else if di_Type item = DisplayItemInteractionRequest
            then (approvals', insert (dx_ID x) interactions)
            else if di_Type item = DisplayItemInteractionResponse
            then (approvals', interactions - {dx_ID x})
            else (approvals', interactions))"

definition hasPendingHumanRequest :: "DisplayItem list \<Rightarrow> bool" where
  "hasPendingHumanRequest items =
     (let turnID = lastOpenTurnID items
      in if turnID = '''' then False
         else case fold human_request_step (drop (human_request_start items turnID) items) ({}, {}) of
                (approvals, interactions) \<Rightarrow> approvals \<noteq> {} \<or> interactions \<noteq> {})"

subsection \<open>Requests and decisions\<close>

datatype approvalStatus = approvalStatusNone | approvalStatusPending | approvalStatusResolved

record approvalRequest =
  ar_ID :: string
  ar_SessionID :: string
  ar_TurnID :: string
  ar_Status :: approvalStatus
  ar_Pending :: "DisplayPendingApproval list"
  ar_Decisions :: "DisplayApprovalDecision list"
  ar_CreatedAt :: time
  ar_ResolvedAt :: "time option"

datatype approval_error =
    TurnRequired | PendingRequired | CallIDRequired | ToolNameRequired
  | DuplicateCallID string | UnknownCallID string | DecisionCount int int

definition copyPendingApprovals :: "DisplayPendingApproval list \<Rightarrow> DisplayPendingApproval list" where
  "copyPendingApprovals items =
     map (\<lambda>p. p\<lparr>dpa_ToolCallID := TrimSpace (dpa_ToolCallID p),
                dpa_ToolName := TrimSpace (dpa_ToolName p)\<rparr>) items"

definition copyApprovalDecisions :: "DisplayApprovalDecision list \<Rightarrow> DisplayApprovalDecision list" where
  "copyApprovalDecisions items =
     map (\<lambda>d. d\<lparr>dad_ToolCallID := TrimSpace (dad_ToolCallID d)\<rparr>) items"

fun pending_loop :: "string set \<Rightarrow> DisplayPendingApproval list \<Rightarrow> approval_error option" where
  "pending_loop seen [] = None"
| "pending_loop seen (item # items) =
     (let toolCallID = TrimSpace (dpa_ToolCallID item)
      in if toolCallID = '''' then Some CallIDRequired
         else if TrimSpace (dpa_ToolName item) = '''' then Some ToolNameRequired
         else if toolCallID \<in> seen then Some (DuplicateCallID toolCallID)
         else pending_loop (insert toolCallID seen) items)"

definition validatePendingApprovals ::
  "string \<Rightarrow> DisplayPendingApproval list \<Rightarrow> approval_error option"
where
  "validatePendingApprovals turnID pending =
     (if TrimSpace turnID = '''' then Some TurnRequired
      else if pending = [] then Some PendingRequired
      else pending_loop {} pending)"

fun decision_loop ::
  "string set \<Rightarrow> string set \<Rightarrow> DisplayApprovalDecision list \<Rightarrow> approval_error option"
where
  "decision_loop expected seen [] = None"
| "decision_loop expected seen (d # ds) =
     (let toolCallID = TrimSpace (dad_ToolCallID d)
      in if toolCallID = '''' then Some CallIDRequired
         else if toolCallID \<notin> expected then Some (UnknownCallID toolCallID)
         else if toolCallID \<in> seen then Some (DuplicateCallID toolCallID)
         else decision_loop expected (insert toolCallID seen) ds)"

definition validateApprovalDecisions ::
  "DisplayPendingApproval list \<Rightarrow> DisplayApprovalDecision list \<Rightarrow> approval_error option"
where
  "validateApprovalDecisions pending decisions =
     (if length decisions \<noteq> length pending
      then Some (DecisionCount (int (length pending)) (int (length decisions)))
      else decision_loop (set (map dpa_ToolCallID pending)) {} decisions)"

definition newApprovalRequest ::
  "string \<Rightarrow> time \<Rightarrow> string \<Rightarrow> string \<Rightarrow> DisplayPendingApproval list \<Rightarrow> approval_error + approvalRequest"
where
  "newApprovalRequest newID now sessionID turnID pending =
     (case validatePendingApprovals turnID pending of
        Some e \<Rightarrow> Inl e
      | None \<Rightarrow>
          Inr \<lparr>ar_ID = newID, ar_SessionID = sessionID, ar_TurnID = TrimSpace turnID,
               ar_Status = approvalStatusPending, ar_Pending = copyPendingApprovals pending,
               ar_Decisions = [], ar_CreatedAt = now, ar_ResolvedAt = None\<rparr>)"

definition resolvedApprovalFromDecision ::
  "approvalRequest \<Rightarrow> DisplayApprovalDecision list \<Rightarrow> time \<Rightarrow> approvalRequest"
where
  "resolvedApprovalFromDecision req decisions resolvedAt =
     req\<lparr>ar_Status := approvalStatusResolved, ar_Decisions := copyApprovalDecisions decisions,
         ar_ResolvedAt := Some resolvedAt\<rparr>"

definition empty_request :: approvalRequest where
  "empty_request =
     \<lparr>ar_ID = '''', ar_SessionID = '''', ar_TurnID = '''', ar_Status = approvalStatusNone,
      ar_Pending = [], ar_Decisions = [], ar_CreatedAt = 0, ar_ResolvedAt = None\<rparr>"

definition approval_item_step ::
  "string \<Rightarrow> string \<Rightarrow> DisplayItem \<Rightarrow> approvalRequest \<Rightarrow> approvalRequest"
where
  "approval_item_step sessionID approvalID item req =
     (case di_Approval item of
        None \<Rightarrow> req
      | Some a \<Rightarrow>
          if da_ID a \<noteq> approvalID then req
          else if di_Type item = DisplayItemApprovalRequest then
            \<lparr>ar_ID = da_ID a, ar_SessionID = sessionID, ar_TurnID = da_TurnID a,
             ar_Status = approvalStatusPending, ar_Pending = copyPendingApprovals (da_Pending a),
             ar_Decisions = [], ar_CreatedAt = di_CreatedAt item, ar_ResolvedAt = None\<rparr>
          else if di_Type item = DisplayItemApprovalDecision then
            (if ar_ID req = '''' then req
             else req\<lparr>ar_Status := approvalStatusResolved,
                      ar_Decisions := copyApprovalDecisions (da_Decisions a),
                      ar_ResolvedAt := Some (di_CreatedAt item)\<rparr>)
          else req)"

definition approvalFromDisplayItems ::
  "string \<Rightarrow> string \<Rightarrow> DisplayItem list \<Rightarrow> approvalRequest \<times> bool"
where
  "approvalFromDisplayItems sessionID approvalID items =
     (let req = fold (approval_item_step sessionID approvalID) items empty_request
      in (req, ar_ID req \<noteq> ''''))"

section \<open>Paging visits everything once\<close>

definition log_ordered :: "DisplayItem list \<Rightarrow> bool" where
  "log_ordered items \<longleftrightarrow> sorted_wrt (<) (map di_Sequence items)"

lemma log_ordered_filter: "log_ordered items \<Longrightarrow> log_ordered (filter P items)"
  by (simp add: log_ordered_def sorted_wrt_map sorted_wrt_filter)

lemma log_ordered_drop_takeWhile:
  assumes "log_ordered items" "\<And>x y. P y \<Longrightarrow> di_Sequence x < di_Sequence y \<Longrightarrow> P x"
  shows "takeWhile P items = filter P items" "dropWhile P items = filter (\<lambda>x. \<not> P x) items"
proof -
  have "takeWhile P items = filter P items \<and> dropWhile P items = filter (\<lambda>x. \<not> P x) items"
    using assms(1)
  proof (induction items)
    case (Cons a items)
    have "\<not> P a \<Longrightarrow> filter P items = [] \<and> filter (\<lambda>x. \<not> P x) items = items"
      using Cons.prems assms(2) by (force simp: log_ordered_def filter_empty_conv filter_id_conv)
    then show ?case
      using Cons.IH Cons.prems by (cases "P a") (simp_all add: log_ordered_def)
  qed simp
  then show "takeWhile P items = filter P items" "dropWhile P items = filter (\<lambda>x. \<not> P x) items"
    by auto
qed

lemma drop_length_takeWhile: "drop (length (takeWhile P xs)) xs = dropWhile P xs"
  by (induction xs) auto

lemma filter_after_last:
  assumes "log_ordered (xs @ ys)" "xs \<noteq> []"
  shows "filter (\<lambda>x. di_Sequence x > di_Sequence (last xs)) (xs @ ys) = ys"
proof (cases xs rule: rev_cases)
  case (snoc zs z)
  have "\<forall>y \<in> set ys. di_Sequence z < di_Sequence y" "\<forall>x \<in> set zs. \<not> di_Sequence z < di_Sequence x"
    using assms(1) by (force simp: snoc log_ordered_def sorted_wrt_append sorted_wrt_map)+
  then have "filter (\<lambda>x. di_Sequence x > di_Sequence z) ys = ys"
    "filter (\<lambda>x. di_Sequence x > di_Sequence z) zs = []"
    by (simp_all add: filter_id_conv filter_empty_conv)
  then show ?thesis by (simp add: snoc)
qed (use assms in simp)

lemma filter_before_hd:
  assumes "log_ordered (xs @ ys)" "ys \<noteq> []"
  shows "filter (\<lambda>x. di_Sequence x < di_Sequence (hd ys)) (xs @ ys) = xs"
proof (cases ys)
  case (Cons y zs)
  have "filter (\<lambda>x. di_Sequence x < di_Sequence y) xs = xs" "filter (\<lambda>x. di_Sequence x < di_Sequence y) ys = []"
    using assms Cons by (auto simp: log_ordered_def sorted_wrt_append filter_id_conv filter_empty_conv)
  then show ?thesis by (simp add: Cons)
qed (use assms in simp)

text \<open>A page cut out of the selected items, with its cursors.\<close>

definition page_of :: "DisplayItem list \<Rightarrow> DisplayItem list \<Rightarrow> DisplayItem list \<Rightarrow> DisplayPage" where
  "page_of xs page ys =
     (let prev = (if page = [] \<or> xs = [] then '''' else show_int (di_Sequence (hd page)));
          nextC = (if page = [] \<or> ys = [] then '''' else show_int (di_Sequence (last page)))
      in \<lparr>pg_Items = page, pg_NextCursor = nextC, pg_PrevCursor = prev,
          pg_HasMore = prev \<noteq> '''' \<or> nextC \<noteq> ''''\<rparr>)"

lemma PageDisplayItems_cut:
  assumes ord: "log_ordered items" and sel: "filter (kind_selected q) items = xs @ page @ ys"
    and win: "displayWindow (xs @ page @ ys) q = (int (length xs), int (length xs) + int (length page))"
  shows "PageDisplayItems items q = Some (page_of xs page ys)"
proof -
  have "log_ordered (xs @ page @ ys)"
    using log_ordered_filter [OF ord] sel by metis
  then have first: "page \<noteq> [] \<Longrightarrow> (di_Sequence (hd page) > di_Sequence (hd (xs @ page @ ys))) = (xs \<noteq> [])"
    and last: "page \<noteq> [] \<Longrightarrow> (di_Sequence (last page) < di_Sequence (last (xs @ page @ ys))) = (ys \<noteq> [])"
    by (cases xs; cases page; force simp: log_ordered_def sorted_wrt_append hd_append last_append)+
  show ?thesis
    unfolding PageDisplayItems_def Let_def sel win
    using first last by (auto simp: page_of_def Let_def)
qed

lemma PageDisplayItems_after:
  assumes ord: "log_ordered items" and q: "pq_HasAfter q" "pq_Limit q \<ge> 0"
  defines "rest \<equiv> filter (\<lambda>x. kind_selected q x \<and> di_Sequence x > pq_After q) items"
  shows "\<exists>xs. filter (kind_selected q) items = xs @ rest \<and>
    PageDisplayItems items q = Some (page_of xs (take (nat (pq_Limit q)) rest) (drop (nat (pq_Limit q)) rest))"
proof -
  define sel where "sel = filter (kind_selected q) items"
  have osel: "log_ordered sel" using ord by (simp add: sel_def log_ordered_filter)
  let ?P = "\<lambda>x. \<not> di_Sequence x > pq_After q"
  define xs where "xs = takeWhile ?P sel"
  have "dropWhile ?P sel = rest"
    using log_ordered_drop_takeWhile(2) [OF osel, of ?P]
    by (simp add: rest_def sel_def conj_commute)
  then have sel: "sel = xs @ rest"
    unfolding xs_def by (metis takeWhile_dropWhile_id)
  have "firstDisplayIndexAfter sel (pq_After q) = int (length xs)"
    by (simp add: firstDisplayIndexAfter_def xs_def)
  then have "displayWindow sel q = (int (length xs), int (length xs) + int (length (take (nat (pq_Limit q)) rest)))"
    using q sel by (auto simp: displayWindow_def Let_def)
  then show ?thesis
    using PageDisplayItems_cut [OF ord, of q xs "take (nat (pq_Limit q)) rest" "drop (nat (pq_Limit q)) rest"] sel
    by (auto simp: sel_def)
qed

lemma PageDisplayItems_before:
  assumes ord: "log_ordered items" and q: "\<not> pq_HasAfter q" "pq_HasBefore q" "pq_Limit q \<ge> 0"
  defines "rest \<equiv> filter (\<lambda>x. kind_selected q x \<and> di_Sequence x < pq_Before q) items"
    and "n \<equiv> length (filter (\<lambda>x. kind_selected q x \<and> di_Sequence x < pq_Before q) items) - nat (pq_Limit q)"
  shows "\<exists>ys. filter (kind_selected q) items = rest @ ys \<and>
    PageDisplayItems items q = Some (page_of (take n rest) (drop n rest) ys)"
proof -
  define sel where "sel = filter (kind_selected q) items"
  have osel: "log_ordered sel" using ord by (simp add: sel_def log_ordered_filter)
  let ?P = "\<lambda>x. \<not> di_Sequence x \<ge> pq_Before q"
  define ys where "ys = dropWhile ?P sel"
  have rest: "takeWhile ?P sel = rest"
    using log_ordered_drop_takeWhile(1) [OF osel, of ?P]
    by (simp add: rest_def sel_def conj_commute not_le)
  then have sel: "sel = rest @ ys"
    unfolding ys_def by (metis takeWhile_dropWhile_id)
  have "firstDisplayIndexAtOrAfter sel (pq_Before q) = int (length rest)"
    using rest by (simp add: firstDisplayIndexAtOrAfter_def)
  then have "displayWindow sel q = (int (length (take n rest)), int (length (take n rest)) + int (length (drop n rest)))"
    using q by (auto simp: displayWindow_def Let_def sel n_def rest_def [symmetric])
  then show ?thesis
    using PageDisplayItems_cut [OF ord, of q "take n rest" "drop n rest" ys] sel
    by (auto simp: sel_def simp flip: append_assoc)
qed

text \<open>
  C23. Following the forward cursor visits every item exactly once: a page holds the next items
  after its cursor, it is empty only when none are left, its cursor is present exactly when more
  follow, and the query with that cursor is about exactly the items that follow.
\<close>

theorem forward_paging_complete:
  assumes ord: "log_ordered items" and q: "pq_HasAfter q" "pq_Limit q > 0"
  shows "\<exists>pg. PageDisplayItems items q = Some pg \<and>
    length (pg_Items pg) \<le> nat (pq_Limit q) \<and>
    (let rest = filter (\<lambda>x. kind_selected q x \<and> di_Sequence x > pq_After q) items;
         more = filter (\<lambda>x. kind_selected q x \<and> di_Sequence x > di_Sequence (last (pg_Items pg))) items
     in if rest = [] then pg_Items pg = [] \<and> pg_NextCursor pg = ''''
        else pg_Items pg \<noteq> [] \<and> rest = pg_Items pg @ more \<and>
             pg_NextCursor pg = (if more = [] then '''' else show_int (di_Sequence (last (pg_Items pg)))))"
proof -
  define rest where "rest = filter (\<lambda>x. kind_selected q x \<and> di_Sequence x > pq_After q) items"
  let ?page = "take (nat (pq_Limit q)) rest" and ?more = "drop (nat (pq_Limit q)) rest"
  obtain xs where xs: "filter (kind_selected q) items = xs @ rest"
    and page: "PageDisplayItems items q = Some (page_of xs ?page ?more)"
    using PageDisplayItems_after [OF ord q(1)] q(2) by (auto simp: rest_def)
  have "filter (\<lambda>x. kind_selected q x \<and> di_Sequence x > di_Sequence (last ?page)) items = ?more" if "rest \<noteq> []"
  proof -
    have "?page \<noteq> []" using that q(2) by simp
    moreover have "log_ordered ((xs @ ?page) @ ?more)"
      using log_ordered_filter [OF ord, of "kind_selected q"] xs by simp
    ultimately have "filter (\<lambda>x. di_Sequence x > di_Sequence (last (xs @ ?page))) ((xs @ ?page) @ ?more) = ?more"
      by (intro filter_after_last) auto
    then show ?thesis
      using xs \<open>?page \<noteq> []\<close> by (simp flip: filter_filter add: conj_commute)
  qed
  then show ?thesis
    using page q(2)
    by (cases "rest = []") (simp_all add: page_of_def Let_def rest_def [symmetric])
qed

text \<open>The same for the backward cursor: a page holds the items just before it.\<close>

lemma backward_paging_complete:
  assumes ord: "log_ordered items" and q: "\<not> pq_HasAfter q" "pq_HasBefore q" "pq_Limit q > 0"
  shows "\<exists>pg. PageDisplayItems items q = Some pg \<and>
    length (pg_Items pg) \<le> nat (pq_Limit q) \<and>
    (let rest = filter (\<lambda>x. kind_selected q x \<and> di_Sequence x < pq_Before q) items;
         more = filter (\<lambda>x. kind_selected q x \<and> di_Sequence x < di_Sequence (hd (pg_Items pg))) items
     in if rest = [] then pg_Items pg = [] \<and> pg_PrevCursor pg = ''''
        else pg_Items pg \<noteq> [] \<and> rest = more @ pg_Items pg \<and>
             pg_PrevCursor pg = (if more = [] then '''' else show_int (di_Sequence (hd (pg_Items pg)))))"
proof -
  define rest where "rest = filter (\<lambda>x. kind_selected q x \<and> di_Sequence x < pq_Before q) items"
  define n where "n = length rest - nat (pq_Limit q)"
  obtain ys where ys: "filter (kind_selected q) items = rest @ ys"
    and page: "PageDisplayItems items q = Some (page_of (take n rest) (drop n rest) ys)"
    using PageDisplayItems_before [OF ord q(1,2)] q(3) by (auto simp: rest_def n_def)
  have more: "filter (\<lambda>x. kind_selected q x \<and> di_Sequence x < di_Sequence (hd (drop n rest))) items = take n rest"
    and ne: "drop n rest \<noteq> []" if "rest \<noteq> []"
  proof -
    show ne: "drop n rest \<noteq> []" using that q(3) by (cases rest) (auto simp: n_def)
    have "log_ordered (take n rest @ (drop n rest @ ys))"
      using log_ordered_filter [OF ord, of "kind_selected q"] ys by (simp flip: append_assoc)
    then have "filter (\<lambda>x. di_Sequence x < di_Sequence (hd (drop n rest @ ys))) (take n rest @ (drop n rest @ ys)) = take n rest"
      using ne by (intro filter_before_hd) auto
    then show "filter (\<lambda>x. kind_selected q x \<and> di_Sequence x < di_Sequence (hd (drop n rest))) items = take n rest"
      using ys ne by (simp flip: filter_filter append_assoc add: conj_commute)
  qed
  show ?thesis
  proof (cases "rest = []")
    case False
    have "length (drop n rest) \<le> nat (pq_Limit q)" by (simp add: n_def)
    then show ?thesis
      using page more [OF False] ne [OF False] False
      by (simp add: page_of_def Let_def rest_def [symmetric])
  qed (use page in \<open>simp add: page_of_def Let_def rest_def [symmetric]\<close>)
qed

theorem forward_paging_complete_witness:
  "map_option (\<lambda>pg. (map di_Sequence (pg_Items pg), pg_NextCursor pg))
     (PageDisplayItems (map (\<lambda>n. (empty_item DisplayItemUserMessage)\<lparr>di_Sequence := n\<rparr>) [1, 2, 5, 8])
        \<lparr>pq_ContentKind = None, pq_IncludeTools = False, pq_Limit = 2, pq_After = 1, pq_Before = 0,
         pq_HasAfter = True, pq_HasBefore = False\<rparr>) = Some ([2, 5], ''5'')"
proof -
  define items where "items = map (\<lambda>n. (empty_item DisplayItemUserMessage)\<lparr>di_Sequence := n\<rparr>) [1, 2, 5, 8]"
  define q where "q = \<lparr>pq_ContentKind = None, pq_IncludeTools = False, pq_Limit = 2, pq_After = 1, pq_Before = 0,
         pq_HasAfter = True, pq_HasBefore = False\<rparr>"
  have ord: "log_ordered items" by (simp add: items_def log_ordered_def empty_item_def)
  obtain pg where pg: "PageDisplayItems items q = Some pg" "length (pg_Items pg) \<le> 2"
    using forward_paging_complete [OF ord, of q] by (auto simp: q_def)
  have "map_option (\<lambda>pg. (map di_Sequence (pg_Items pg), pg_NextCursor pg)) (PageDisplayItems items q)
      = Some ([2, 5], ''5'')"
    unfolding items_def q_def by code_simp
  then show ?thesis using pg by (simp add: items_def q_def)
qed

section \<open>Approvals are answered one to one\<close>

lemma pending_loop_ok:
  assumes "pending_loop seen items = None"
  shows "distinct (map (\<lambda>p. TrimSpace (dpa_ToolCallID p)) items) \<and>
    set (map (\<lambda>p. TrimSpace (dpa_ToolCallID p)) items) \<inter> seen = {}"
  using assms by (induction seen items rule: pending_loop.induct) (auto simp: Let_def split: if_splits)

lemma decision_loop_ok:
  assumes "decision_loop expected seen ds = None"
  shows "distinct (map (\<lambda>d. TrimSpace (dad_ToolCallID d)) ds) \<and>
    set (map (\<lambda>d. TrimSpace (dad_ToolCallID d)) ds) \<inter> seen = {} \<and>
    set (map (\<lambda>d. TrimSpace (dad_ToolCallID d)) ds) \<subseteq> expected"
  using assms by (induction expected seen ds rule: decision_loop.induct) (auto simp: Let_def split: if_splits)

text \<open>
  Decisions that pass validation against a request answer every pending tool call exactly once
  and nothing else.
\<close>

theorem decisions_answer_pending:
  assumes req: "newApprovalRequest newID now sessionID turnID pending = Inr req"
    and ok: "validateApprovalDecisions (ar_Pending req) decisions = None"
  shows "mset (map dad_ToolCallID (ar_Decisions (resolvedApprovalFromDecision req decisions t)))
    = mset (map dpa_ToolCallID (ar_Pending req)) \<and>
    distinct (map dpa_ToolCallID (ar_Pending req)) \<and> pending \<noteq> []"
proof -
  let ?ids = "map dpa_ToolCallID (ar_Pending req)"
  let ?answers = "map (\<lambda>d. TrimSpace (dad_ToolCallID d)) decisions"
  have val: "validatePendingApprovals turnID pending = None"
    and pend: "ar_Pending req = copyPendingApprovals pending"
    using req by (auto simp: newApprovalRequest_def split: option.splits)
  then have ids: "distinct ?ids" "pending \<noteq> []"
    using pending_loop_ok [of "{}" pending]
    by (auto simp: validatePendingApprovals_def copyPendingApprovals_def comp_def split: if_splits)
  have answers: "distinct ?answers" "set ?answers \<subseteq> set ?ids" "length ?answers = length ?ids"
    using ok decision_loop_ok by (auto simp: validateApprovalDecisions_def split: if_splits)
  then have "set ?answers = set ?ids"
    using ids(1) by (metis card_subset_eq distinct_card finite_set)
  then have "mset ?answers = mset ?ids"
    using answers(1) ids(1) set_eq_iff_mset_eq_distinct by blast
  then show ?thesis
    using ids by (simp add: resolvedApprovalFromDecision_def copyApprovalDecisions_def comp_def)
qed

theorem decisions_answer_pending_witness:
  "mset (map dad_ToolCallID (ar_Decisions (resolvedApprovalFromDecision
     \<lparr>ar_ID = ''apr'', ar_SessionID = ''s'', ar_TurnID = ''t'', ar_Status = approvalStatusPending,
      ar_Pending = [\<lparr>dpa_ToolCallID = ''c1'', dpa_ToolName = ''shell'', dpa_Arguments = '''', dpa_Description = '''',
         dpa_Reason = '''', dpa_RiskLevel = '''', dpa_Source = '''', dpa_RequiresSnapshot = False\<rparr>],
      ar_Decisions = [], ar_CreatedAt = 5, ar_ResolvedAt = None\<rparr>
     [\<lparr>dad_ToolCallID = ''c1 '', dad_Approved = True, dad_Reason = '''', dad_ModifiedArgs = ''''\<rparr>] 7)))
   = {#''c1''#}"
proof -
  define p where "p = \<lparr>dpa_ToolCallID = ''c1'', dpa_ToolName = ''shell'', dpa_Arguments = '''', dpa_Description = '''',
         dpa_Reason = '''', dpa_RiskLevel = '''', dpa_Source = '''', dpa_RequiresSnapshot = False\<rparr>"
  define req where "req = \<lparr>ar_ID = ''apr'', ar_SessionID = ''s'', ar_TurnID = ''t'', ar_Status = approvalStatusPending,
      ar_Pending = [p], ar_Decisions = [], ar_CreatedAt = 5, ar_ResolvedAt = None\<rparr>"
  define d where "d = \<lparr>dad_ToolCallID = ''c1 '', dad_Approved = True, dad_Reason = '''', dad_ModifiedArgs = ''''\<rparr>"
  have "newApprovalRequest ''apr'' 5 ''s'' '' t'' [p] = Inr req"
    unfolding req_def p_def by code_simp
  moreover have "validateApprovalDecisions (ar_Pending req) [d] = None"
    unfolding req_def p_def d_def by code_simp
  ultimately show ?thesis
    using decisions_answer_pending [of "''apr''" 5 "''s''" "'' t''" "[p]" req "[d]" 7]
    by (simp add: req_def d_def p_def)
qed

definition approval_event :: "DisplayItemType \<Rightarrow> string \<Rightarrow> string \<Rightarrow> DisplayItem \<Rightarrow> bool" where
  "approval_event ty turnID i item \<longleftrightarrow>
     di_Type item = ty \<and> (\<exists>a. di_Approval item = Some a \<and> da_TurnID a = turnID \<and> da_ID a = i)"

definition unanswered :: "string \<Rightarrow> string \<Rightarrow> DisplayItem list \<Rightarrow> bool" where
  "unanswered turnID i items \<longleftrightarrow>
     (\<exists>xs req ys. items = xs @ req # ys \<and> approval_event DisplayItemApprovalRequest turnID i req \<and>
        (\<forall>item \<in> set ys. \<not> approval_event DisplayItemApprovalDecision turnID i item))"

lemma unanswered_Nil [simp]: "\<not> unanswered turnID i []"
  by (simp add: unanswered_def)

lemma unanswered_snoc:
  "unanswered turnID i (items @ [x]) \<longleftrightarrow>
     approval_event DisplayItemApprovalRequest turnID i x \<or>
     unanswered turnID i items \<and> \<not> approval_event DisplayItemApprovalDecision turnID i x"
proof
  assume "unanswered turnID i (items @ [x])"
  then obtain xs req ys where split: "items @ [x] = xs @ req # ys"
    and ev: "approval_event DisplayItemApprovalRequest turnID i req"
      "\<forall>item \<in> set ys. \<not> approval_event DisplayItemApprovalDecision turnID i item"
    by (auto simp: unanswered_def)
  show "approval_event DisplayItemApprovalRequest turnID i x \<or>
     unanswered turnID i items \<and> \<not> approval_event DisplayItemApprovalDecision turnID i x"
  proof (cases ys rule: rev_cases)
    case Nil
    then show ?thesis using split ev(1) by simp
  next
    case (snoc zs z)
    then have "items = xs @ req # zs" "z = x" using split by (auto simp flip: append_assoc append_Cons)
    then show ?thesis using ev snoc by (auto simp: unanswered_def)
  qed
next
  assume "approval_event DisplayItemApprovalRequest turnID i x \<or>
     unanswered turnID i items \<and> \<not> approval_event DisplayItemApprovalDecision turnID i x"
  then show "unanswered turnID i (items @ [x])"
  proof
    assume "unanswered turnID i items \<and> \<not> approval_event DisplayItemApprovalDecision turnID i x"
    then obtain xs req ys where "items = xs @ req # ys" "approval_event DisplayItemApprovalRequest turnID i req"
      "\<forall>item \<in> set (ys @ [x]). \<not> approval_event DisplayItemApprovalDecision turnID i item"
      by (auto simp: unanswered_def)
    then show ?thesis
      unfolding unanswered_def by (intro exI [of _ xs] exI [of _ req] exI [of _ "ys @ [x]"]) simp
  next
    assume "approval_event DisplayItemApprovalRequest turnID i x"
    then show ?thesis
      unfolding unanswered_def by (intro exI [of _ items] exI [of _ x] exI [of _ "[]"]) simp
  qed
qed

lemma approval_turn_fold:
  "fold (approval_turn_step turnID) items (False, {}) =
     (unanswered turnID '''' items, {i. i \<noteq> '''' \<and> unanswered turnID i items})"
proof (induction items rule: rev_induct)
  case (snoc x xs)
  then show ?case
    by (cases "di_Approval x")
      (auto simp: approval_turn_step_def unanswered_snoc approval_event_def)
qed simp

text \<open>
  A turn has a pending approval exactly when some approval request of that turn in the log is
  not followed by a decision on the same approval.
\<close>

theorem pending_approval_iff:
  "hasPendingApprovalForTurn items turnID \<longleftrightarrow>
     (\<exists>i xs req ys. items = xs @ req # ys \<and> approval_event DisplayItemApprovalRequest turnID i req \<and>
        \<not> (\<exists>item \<in> set ys. approval_event DisplayItemApprovalDecision turnID i item))"
proof -
  have "hasPendingApprovalForTurn items turnID \<longleftrightarrow> (\<exists>i. unanswered turnID i items)"
    unfolding hasPendingApprovalForTurn_def approval_turn_fold prod.case
    by (metis (mono_tags, lifting) empty_Collect_eq)
  then show ?thesis by (simp add: unanswered_def)
qed

end
