(* ===== verification/Tool_Recovery.thy ===== *)
theory Tool_Recovery
  imports Runtime_WAL Display_Log
begin

text \<open>
  Recovery of interrupted tool calls from the display log
  (\<open>internal/zotigod/worker_tool_recovery.go\<close>), which a starting worker runs after the recovery
  from the write-ahead log: which executions of the latest turn have no durable result, the message
  that tells the model about them, and the answers to tool calls the history leaves open.

  The outcome of a call of the session store is an argument: the listed items or an error, and the
  error of storing the session.  The maps of the code are association lists, newest entry first.
\<close>

section \<open>Conversions of tool results\<close>

definition content_type_of :: "string \<Rightarrow> ContentType" where
  "content_type_of s =
     (if s = ''text'' then ContentTypeText else if s = ''reasoning'' then ContentTypeReasoning
      else if s = ''image'' then ContentTypeImage else if s = ''audio'' then ContentTypeAudio
      else if s = ''video'' then ContentTypeVideo else if s = ''file'' then ContentTypeFile
      else if s = ''tool_call'' then ContentTypeToolCall
      else if s = ''tool_result'' then ContentTypeToolResult else ContentTypeOther s)"

definition tool_result_type_of :: "string \<Rightarrow> ToolResultType" where
  "tool_result_type_of s =
     (if s = ''text'' then ToolResultTypeText else if s = ''json'' then ToolResultTypeJSON
      else if s = ''error-text'' then ToolResultTypeErrorText
      else if s = ''error-json'' then ToolResultTypeErrorJSON
      else if s = ''execution-denied'' then ToolResultTypeExecutionDenied
      else if s = ''content'' then ToolResultTypeContent else ToolResultTypeOther s)"

definition protocolToolResultContent :: "DisplayToolResultContentPart list \<Rightarrow> ToolResultContentPart list" where
  "protocolToolResultContent content =
     map (\<lambda>part. \<lparr>trc_Type = content_type_of (drc_Type part), trc_Text = drc_Text part,
        trc_Image = map_option (\<lambda>im. \<lparr>media_Data = dm_Data im, media_URL = dm_URL im,
          media_FileID = dm_FileID im, media_MediaType = dm_MediaType im\<rparr>) (drc_Image part)\<rparr>) content"

definition protocolToolResult :: "DisplayToolResult \<Rightarrow> ToolResult" where
  "protocolToolResult r =
     \<lparr>tr_ToolCallID = dtr_ToolCallID r, tr_ToolName = dtr_ToolName r,
      tr_Type = tool_result_type_of (dtr_ResultType r), tr_Text = dtr_Text r, tr_JSON = dtr_JSON r,
      tr_Reason = dtr_Reason r, tr_Content = protocolToolResultContent (dtr_Content r),
      tr_IsError = dtr_IsError r, tr_Metadata = []\<rparr>"

section \<open>Executions without a result\<close>

record unknownToolExecution =
  ux_execution :: DisplayToolExecution
  ux_call :: DisplayToolCall

record toolExecutionRecovery =
  xr_turnID :: string
  xr_unknown :: "unknownToolExecution list"
  xr_results :: "(string \<times> ToolResult) list"

definition no_recovery :: toolExecutionRecovery where
  "no_recovery = \<lparr>xr_turnID = '''', xr_unknown = [], xr_results = []\<rparr>"

record turnExecutions =
  tx_id :: string
  tx_calls :: "(string \<times> DisplayToolCall) list"
  tx_started :: "DisplayToolExecution list"
  tx_results :: "(string \<times> ToolResult) list"

definition newTurn :: "string \<Rightarrow> turnExecutions" where
  "newTurn i = \<lparr>tx_id = i, tx_calls = [], tx_started = [], tx_results = []\<rparr>"

definition call_of_execution :: "turnExecutions \<Rightarrow> DisplayToolExecution \<Rightarrow> DisplayToolCall" where
  "call_of_execution turn e =
     (case map_of (tx_calls turn) (dte_ToolCallID e) of
        Some call \<Rightarrow> if dtc_ID call = '''' then \<lparr>dtc_ID = dte_ToolCallID e, dtc_Name = dte_ToolName e, dtc_Arguments = ''''\<rparr>
                     else call
      | None \<Rightarrow> \<lparr>dtc_ID = dte_ToolCallID e, dtc_Name = dte_ToolName e, dtc_Arguments = ''''\<rparr>)"

fun unknown_loop ::
  "turnExecutions \<Rightarrow> string set \<Rightarrow> DisplayToolExecution list \<Rightarrow> unknownToolExecution list"
where
  "unknown_loop turn seen [] = []"
| "unknown_loop turn seen (e # es) =
     (if map_of (tx_results turn) (dte_ToolCallID e) \<noteq> None \<or> dte_ToolCallID e \<in> seen
      then unknown_loop turn seen es
      else \<lparr>ux_execution = e, ux_call = call_of_execution turn e\<rparr> #
           unknown_loop turn (insert (dte_ToolCallID e) seen) es)"

definition finish :: "turnExecutions \<Rightarrow> toolExecutionRecovery" where
  "finish turn =
     (let unknown = unknown_loop turn {} (tx_started turn)
      in if unknown = [] \<and> tx_results turn = [] then no_recovery
         else \<lparr>xr_turnID = tx_id turn, xr_unknown = unknown, xr_results = tx_results turn\<rparr>)"

definition content_step :: "DisplayContentPart \<Rightarrow> turnExecutions \<Rightarrow> turnExecutions" where
  "content_step part turn =
     (let turn = (case dp_ToolCall part of None \<Rightarrow> turn
                  | Some c \<Rightarrow> turn\<lparr>tx_calls := (dtc_ID c, c) # tx_calls turn\<rparr>)
      in case dp_ToolResult part of None \<Rightarrow> turn
         | Some r \<Rightarrow> turn\<lparr>tx_results := (dtr_ToolCallID r, protocolToolResult r) # tx_results turn\<rparr>)"

definition item_turn_is :: "string \<Rightarrow> DisplayItem \<Rightarrow> bool" where
  "item_turn_is i item \<longleftrightarrow> (case di_Turn item of None \<Rightarrow> False | Some t \<Rightarrow> dt_ID t = i)"

definition item_in_turn :: "DisplayItem \<Rightarrow> turnExecutions \<Rightarrow> turnExecutions" where
  "item_in_turn item turn0 =
     (let turn = fold content_step (di_Content item) turn0
      in case di_ToolExecution item of
           None \<Rightarrow> turn
         | Some e \<Rightarrow>
             if di_Type item = DisplayItemToolExecutionStarted \<and> dte_TurnID e = tx_id turn
             then turn\<lparr>tx_started := tx_started turn @ [e]\<rparr> else turn)"

definition starts_turn :: "DisplayItem \<Rightarrow> string option" where
  "starts_turn item =
     (if di_Type item = DisplayItemTurnStarted then map_option dt_ID (di_Turn item) else None)"

fun recovery_step ::
  "DisplayItem \<Rightarrow> turnExecutions option \<times> toolExecutionRecovery
     \<Rightarrow> turnExecutions option \<times> toolExecutionRecovery"
where
  "recovery_step item (current, latest) =
     (case starts_turn item of
        Some i \<Rightarrow> (Some (newTurn i), case current of None \<Rightarrow> latest | Some turn \<Rightarrow> finish turn)
      | None \<Rightarrow>
          (case current of
             None \<Rightarrow> (None, latest)
           | Some turn0 \<Rightarrow>
               let turn = item_in_turn item turn0
               in if item_turn_is (tx_id turn) item \<and> turn_ends (di_Type item)
                  then (None, finish turn)
                  else (Some turn, latest)))"

definition latestUnknownToolExecutions :: "DisplayItem list \<Rightarrow> toolExecutionRecovery" where
  "latestUnknownToolExecutions items =
     (case fold recovery_step items (None, no_recovery) of
        (Some turn, latest) \<Rightarrow> finish turn
      | (None, latest) \<Rightarrow> latest)"

section \<open>Messages\<close>

definition recoveryToolArgumentsLimit :: nat where "recoveryToolArgumentsLimit = 2048"

definition ux_marker :: "unknownToolExecution \<Rightarrow> string" where
  "ux_marker x = toolRecoveryMarker (dte_TurnID (ux_execution x)) (dtc_ID (ux_call x))"

definition recovery_hint_line :: "unknownToolExecution \<Rightarrow> string" where
  "recovery_hint_line x =
     ''- '' @ ux_marker x @ '' tool='' @ dtc_Name (ux_call x) @ '' tool_call_id='' @ dtc_ID (ux_call x) @
     (let arguments = TrimSpace (dtc_Arguments (ux_call x))
      in if arguments = '''' then ''''
         else '' arguments='' @
           (if length arguments > recoveryToolArgumentsLimit
            then take recoveryToolArgumentsLimit arguments @ ''...'' else arguments)) @ [CHR 0x0A]"

definition toolRecoveryHint :: "unknownToolExecution list \<Rightarrow> string" where
  "toolRecoveryHint executions =
     ''<system-reminder>'' @ [CHR 0x0A] @
     ''A previous Zotigo worker stopped after starting the following tool calls but before recording durable results. Their outcomes are unknown: the operation may have completed and produced side effects. Do not repeat these calls automatically. First verify the current state with a read-only operation when possible, or ask the user before retrying.'' @
     [CHR 0x0A] @ concat (map recovery_hint_line executions) @ ''</system-reminder>''"

definition unknownToolResultText :: "unknownToolExecution \<Rightarrow> string" where
  "unknownToolResultText x = ux_marker x @ '' '' @ unknown_outcome_text"

definition unknown_for :: "unknownToolExecution list \<Rightarrow> string \<Rightarrow> unknownToolExecution option" where
  "unknown_for unknown i = map_of (rev (map (\<lambda>x. (dtc_ID (ux_call x), x)) unknown)) i"

definition named_result :: "ToolCall \<Rightarrow> string \<Rightarrow> ToolResult" where
  "named_result call text = (NewTextToolResult (tc_ID call) text True)\<lparr>tr_ToolName := tc_Name call\<rparr>"

definition answer_call :: "toolExecutionRecovery \<Rightarrow> string \<Rightarrow> ToolCall \<Rightarrow> ToolResult" where
  "answer_call recovery not_run call =
     (case map_of (xr_results recovery) (tc_ID call) of
        Some r \<Rightarrow> r
      | None \<Rightarrow>
          (case unknown_for (xr_unknown recovery) (tc_ID call) of
             Some x \<Rightarrow> named_result call (unknownToolResultText x)
           | None \<Rightarrow> named_result call not_run))"

definition toolRecoveryMessage :: "time \<Rightarrow> Snapshot \<Rightarrow> toolExecutionRecovery \<Rightarrow> Message" where
  "toolRecoveryMessage now snapshot recovery =
     (let hint = NewUserMessage now (toolRecoveryHint (xr_unknown recovery));
          hist = sn_History snapshot
      in if sn_State snapshot \<noteq> StatePaused \<or> hist = [] then hint
         else if msg_Role (last hist) \<noteq> RoleAssistant then hint
         else
           (let calls = tool_calls (last hist)
            in if list_all (\<lambda>c. unknown_for (xr_unknown recovery) (tc_ID c) = None) calls then hint
               else NewToolMessage now (map (answer_call recovery not_executed_text) calls)))"

definition historyHasToolRecovery :: "Message list \<Rightarrow> string \<Rightarrow> string \<Rightarrow> bool" where
  "historyHasToolRecovery hist turnID toolCallID =
     list_ex (\<lambda>m. Contains (Message_String m) (toolRecoveryMarker turnID toolCallID)) hist"

section \<open>Recovery\<close>

text \<open>An error, the session in memory, and the session that was stored, if any.\<close>

type_synonym recovery_outcome = "string option \<times> Session \<times> Session option"

definition settled :: "Session \<Rightarrow> Message \<Rightarrow> Session" where
  "settled sess m =
     sess\<lparr>se_AgentSnapshot := (se_AgentSnapshot sess)\<lparr>
       sn_History := sn_History (se_AgentSnapshot sess) @ [m], sn_State := StateIdle,
       sn_PendingActions := [], sn_DeferredActions := []\<rparr>\<rparr>"

definition put_session :: "string option \<Rightarrow> Session \<Rightarrow> recovery_outcome" where
  "put_session putErr sess = (putErr, sess, if putErr = None then Some sess else None)"

definition recoverInterruptedToolExecutions ::
  "time \<Rightarrow> string + DisplayItem list \<times> bool \<Rightarrow> string option \<Rightarrow> Session \<Rightarrow> recovery_outcome"
where
  "recoverInterruptedToolExecutions now listing putErr sess =
     (case listing of
        Inl e \<Rightarrow> (Some e, sess, None)
      | Inr (items, exists) \<Rightarrow>
          if \<not> exists then (None, sess, None)
          else
            (let recovery = latestUnknownToolExecutions items;
                 hist = sn_History (se_AgentSnapshot sess);
                 newUnknown = filter (\<lambda>x. \<not> historyHasToolRecovery hist
                    (dte_TurnID (ux_execution x)) (dtc_ID (ux_call x))) (xr_unknown recovery)
             in if newUnknown = [] then (None, sess, None)
                else put_session putErr
                  (settled sess (toolRecoveryMessage now (se_AgentSnapshot sess)
                     (recovery\<lparr>xr_unknown := newUnknown\<rparr>)))))"

definition not_started_text :: string where
  "not_started_text = ''The previous worker stopped before this tool execution was durably started. The tool was not executed.''"

definition recoverUnansweredToolCalls ::
  "time \<Rightarrow> string + DisplayItem list \<times> bool \<Rightarrow> string option \<Rightarrow> Session \<Rightarrow> recovery_outcome"
where
  "recoverUnansweredToolCalls now listing putErr sess =
     (let hist = sn_History (se_AgentSnapshot sess)
      in if hist = [] then (None, sess, None)
         else if msg_Role (last hist) \<noteq> RoleAssistant then (None, sess, None)
         else
           (case listing of
              Inl e \<Rightarrow> (Some e, sess, None)
            | Inr (items, _) \<Rightarrow>
                (let recovery = latestUnknownToolExecutions items;
                     results = map (answer_call recovery not_started_text) (tool_calls (last hist))
                 in if results = [] then (None, sess, None)
                    else put_session putErr (settled sess (NewToolMessage now results)))))"

section \<open>What the log of an interrupted turn says\<close>

definition recorded_results :: "DisplayItem list \<Rightarrow> DisplayToolResult list" where
  "recorded_results items = concat (map (\<lambda>item. List.map_filter dp_ToolResult (di_Content item)) items)"

definition started_executions :: "string \<Rightarrow> DisplayItem list \<Rightarrow> DisplayToolExecution list" where
  "started_executions t items =
     filter (\<lambda>e. dte_TurnID e = t)
       (List.map_filter di_ToolExecution (filter (\<lambda>item. di_Type item = DisplayItemToolExecutionStarted) items))"

text \<open>A log whose latest turn was started and never ended.\<close>

definition interrupted_turn :: "DisplayItem list \<Rightarrow> string \<Rightarrow> DisplayItem list \<Rightarrow> bool" where
  "interrupted_turn items t seg \<longleftrightarrow>
     (\<exists>pre start. items = pre @ start # seg \<and> starts_turn start = Some t) \<and>
     (\<forall>item \<in> set seg. starts_turn item = None \<and> \<not> (item_turn_is t item \<and> turn_ends (di_Type item)))"

definition result_entries :: "DisplayToolResult list \<Rightarrow> (string \<times> ToolResult) list" where
  "result_entries rs = map (\<lambda>r. (dtr_ToolCallID r, protocolToolResult r)) rs"

lemma content_step_simps [simp]:
  "tx_id (content_step part turn) = tx_id turn"
  "tx_started (content_step part turn) = tx_started turn"
  by (simp_all add: content_step_def Let_def split: option.split)

lemma fold_content_step:
  "tx_id (fold content_step ps turn) = tx_id turn"
  "tx_started (fold content_step ps turn) = tx_started turn"
  "tx_results (fold content_step ps turn) =
     rev (result_entries (List.map_filter dp_ToolResult ps)) @ tx_results turn"
proof (induction ps arbitrary: turn)
  case (Cons p ps)
  {
    case 3
    show ?case
      by (simp add: Cons.IH) (simp add: content_step_def Let_def result_entries_def split: option.split)
  }
qed (simp_all add: result_entries_def)

lemma item_in_turn_simps:
  "tx_id (item_in_turn item turn) = tx_id turn"
  "tx_results (item_in_turn item turn) = rev (result_entries (recorded_results [item])) @ tx_results turn"
  "tx_started (item_in_turn item turn) = tx_started turn @ started_executions (tx_id turn) [item]"
  by (simp_all add: item_in_turn_def Let_def fold_content_step recorded_results_def started_executions_def
      split: option.split)

lemma recorded_results_Cons: "recorded_results (x # xs) = recorded_results [x] @ recorded_results xs"
  by (simp add: recorded_results_def)

lemma started_executions_Cons: "started_executions t (x # xs) = started_executions t [x] @ started_executions t xs"
  by (auto simp: started_executions_def split: option.split)

lemma fold_item_in_turn:
  "tx_id (fold item_in_turn seg turn) = tx_id turn"
  "tx_results (fold item_in_turn seg turn) = rev (result_entries (recorded_results seg)) @ tx_results turn"
  "tx_started (fold item_in_turn seg turn) = tx_started turn @ started_executions (tx_id turn) seg"
proof (induction seg arbitrary: turn)
  case (Cons x xs)
  {
    case 1
    show ?case by (simp add: Cons.IH item_in_turn_simps)
  next
    case 2
    show ?case
      by (simp add: Cons.IH item_in_turn_simps recorded_results_Cons [of x xs] result_entries_def)
  next
    case 3
    show ?case
      by (simp add: Cons.IH item_in_turn_simps started_executions_Cons [of _ x xs])
  }
qed (simp_all add: recorded_results_def started_executions_def result_entries_def)

text \<open>Calls are filed under their own id.\<close>

definition calls_keyed :: "turnExecutions \<Rightarrow> bool" where
  "calls_keyed turn \<longleftrightarrow> (\<forall>(k, c) \<in> set (tx_calls turn). dtc_ID c = k)"

lemma item_in_turn_keyed: "calls_keyed turn \<Longrightarrow> calls_keyed (item_in_turn item turn)"
proof -
  have "calls_keyed (fold content_step ps turn)" if "calls_keyed turn" for ps turn
    using that
  proof (induction ps arbitrary: turn)
    case (Cons p ps)
    have "calls_keyed (content_step p turn)"
      using Cons.prems by (auto simp: content_step_def calls_keyed_def Let_def split: option.split)
    then show ?case using Cons.IH by simp
  qed simp
  then show "calls_keyed turn \<Longrightarrow> calls_keyed (item_in_turn item turn)"
    by (simp add: item_in_turn_def Let_def calls_keyed_def split: option.split)
qed

lemma fold_item_in_turn_keyed: "calls_keyed turn \<Longrightarrow> calls_keyed (fold item_in_turn seg turn)"
  by (induction seg arbitrary: turn) (auto intro: item_in_turn_keyed)

lemma call_of_execution_ID: "calls_keyed turn \<Longrightarrow> dtc_ID (call_of_execution turn e) = dte_ToolCallID e"
  by (auto simp: call_of_execution_def calls_keyed_def dest!: map_of_SomeD split: option.split)

lemma latest_of_interrupted:
  assumes "interrupted_turn items t seg"
  shows "latestUnknownToolExecutions items = finish (fold item_in_turn seg (newTurn t))"
proof -
  obtain pre start where items: "items = pre @ start # seg" and start: "starts_turn start = Some t"
    and seg: "\<forall>item \<in> set seg. starts_turn item = None \<and> \<not> (item_turn_is t item \<and> turn_ends (di_Type item))"
    using assms by (auto simp: interrupted_turn_def)
  have "fold recovery_step seg (Some turn, latest) = (Some (fold item_in_turn seg turn), latest)"
    if "tx_id turn = t" for turn latest
    using that seg
    by (induction seg arbitrary: turn) (auto simp: Let_def item_in_turn_simps)
  moreover have "\<exists>latest. recovery_step start s = (Some (newTurn t), latest)" for s
    using start by (cases s) simp
  ultimately have "\<exists>latest. fold recovery_step items (None, no_recovery) =
      (Some (fold item_in_turn seg (newTurn t)), latest)"
    unfolding items by (simp add: newTurn_def) (metis newTurn_def turnExecutions.select_convs(1))
  then show ?thesis by (auto simp: latestUnknownToolExecutions_def)
qed

lemma finish_fields:
  "xr_unknown (finish turn) = unknown_loop turn {} (tx_started turn)"
  "xr_results (finish turn) = tx_results turn"
  by (auto simp: finish_def Let_def no_recovery_def)

lemma unknown_loop_entries:
  assumes "calls_keyed turn" "x \<in> set (unknown_loop turn seen es)"
  shows "ux_execution x \<in> set es \<and> dtc_ID (ux_call x) = dte_ToolCallID (ux_execution x) \<and>
    map_of (tx_results turn) (dte_ToolCallID (ux_execution x)) = None"
  using assms(2)
proof (induction es arbitrary: seen)
  case (Cons e es)
  then show ?case
    by (auto simp: call_of_execution_ID [OF assms(1)] split: if_splits)
qed simp

lemma unknown_loop_ids:
  assumes "calls_keyed turn"
  shows "(\<lambda>x. dtc_ID (ux_call x)) ` set (unknown_loop turn seen es) =
    {i \<in> dte_ToolCallID ` set es. map_of (tx_results turn) i = None \<and> i \<notin> seen}"
proof (induction es arbitrary: seen)
  case (Cons e es)
  then show ?case
    by (auto simp: call_of_execution_ID [OF assms])
qed simp

lemma unknown_for_None: "unknown_for xs i = None \<longleftrightarrow> i \<notin> (\<lambda>x. dtc_ID (ux_call x)) ` set xs"
  by (auto simp: unknown_for_def map_of_eq_None_iff image_iff)

lemma unknown_for_Some: "unknown_for xs i = Some x \<Longrightarrow> x \<in> set xs \<and> dtc_ID (ux_call x) = i"
  by (auto simp: unknown_for_def dest!: map_of_SomeD)

text \<open>The answer to a call, read off the log of the interrupted turn.\<close>

definition logged_answer :: "string \<Rightarrow> DisplayItem list \<Rightarrow> string \<Rightarrow> ToolCall \<Rightarrow> ToolResult" where
  "logged_answer t seg not_run call =
     (case map_of (rev (result_entries (recorded_results seg))) (tc_ID call) of
        Some r \<Rightarrow> r
      | None \<Rightarrow> named_result call
          (if tc_ID call \<in> dte_ToolCallID ` set (started_executions t seg)
           then toolRecoveryMarker t (tc_ID call) @ '' '' @ unknown_outcome_text else not_run))"

lemma answer_call_logged:
  assumes "interrupted_turn items t seg"
  shows "answer_call (latestUnknownToolExecutions items) not_run call = logged_answer t seg not_run call"
proof -
  define turn where "turn = fold item_in_turn seg (newTurn t)"
  have rec: "latestUnknownToolExecutions items = finish turn"
    using latest_of_interrupted [OF assms] by (simp add: turn_def)
  have keyed: "calls_keyed turn"
    unfolding turn_def by (rule fold_item_in_turn_keyed) (simp add: calls_keyed_def newTurn_def)
  have res: "tx_results turn = rev (result_entries (recorded_results seg))"
    and st: "tx_started turn = started_executions t seg"
    by (simp_all add: turn_def fold_item_in_turn newTurn_def)
  let ?xs = "unknown_loop turn {} (tx_started turn)"
  show ?thesis
  proof (cases "map_of (tx_results turn) (tc_ID call)")
    case None
    show ?thesis
    proof (cases "unknown_for ?xs (tc_ID call)")
      case un: None
      then have "tc_ID call \<notin> dte_ToolCallID ` set (started_executions t seg)"
        using None st unknown_loop_ids [OF keyed, of "{}" "tx_started turn"]
        by (auto simp: unknown_for_None)
      then show ?thesis
        using None un res by (simp add: answer_call_def logged_answer_def rec finish_fields)
    next
      case (Some x)
      have x: "ux_execution x \<in> set (started_executions t seg)" "dtc_ID (ux_call x) = tc_ID call"
        "dte_ToolCallID (ux_execution x) = tc_ID call"
        using unknown_for_Some [OF Some] unknown_loop_entries [OF keyed] st by auto
      then have "dte_TurnID (ux_execution x) = t" by (auto simp: started_executions_def)
      then show ?thesis
        using None Some x res
        by (force simp: answer_call_def logged_answer_def rec finish_fields unknownToolResultText_def
            ux_marker_def)
    qed
  next
    case (Some r)
    then show ?thesis
      using res by (simp add: answer_call_def logged_answer_def rec finish_fields)
  qed
qed

lemma logged_answer_ID: "tr_ToolCallID (logged_answer t seg not_run call) = tc_ID call"
  by (auto simp: logged_answer_def named_result_def NewTextToolResult_def result_entries_def
      protocolToolResult_def dest!: map_of_SomeD split: option.split)

text \<open>
  C20. When a worker starts on a session whose history ends in unanswered tool calls, every call gets
  exactly one answer, in order: the result the display log recorded, a notice that the outcome is
  unknown when only its start was recorded, and a notice that it did not run otherwise.  Running
  the recovery again changes nothing.
\<close>

theorem unanswered_calls_recovered:
  assumes log: "interrupted_turn items t seg"
    and hist: "sn_History (se_AgentSnapshot sess) = h @ [m]" "msg_Role m = RoleAssistant" "tool_calls m \<noteq> []"
    and rec: "recoverUnansweredToolCalls now (Inr (items, exists)) None sess = (err, sess', stored)"
  shows "err = None \<and> stored = Some sess' \<and>
    sn_History (se_AgentSnapshot sess') =
      h @ [m, NewToolMessage now (map (logged_answer t seg not_started_text) (tool_calls m))] \<and>
    map tr_ToolCallID (map (logged_answer t seg not_started_text) (tool_calls m)) = map tc_ID (tool_calls m) \<and>
    sn_State (se_AgentSnapshot sess') = StateIdle \<and>
    recoverUnansweredToolCalls now' listing putErr sess' = (None, sess', None)"
proof -
  have "answer_call (latestUnknownToolExecutions items) not_started_text = logged_answer t seg not_started_text"
    using answer_call_logged [OF log] by (simp add: fun_eq_iff)
  then show ?thesis
    using rec hist
    by (auto simp: recoverUnansweredToolCalls_def Let_def put_session_def settled_def logged_answer_ID)
qed

section \<open>Announcing interrupted executions once\<close>

lemma string_of_user_message: "Message_String (NewUserMessage now text) = text"
  by (simp add: Message_String_def NewUserMessage_def message_of_def part_of_def)

lemma hint_contains_marker:
  assumes "x \<in> set xs"
  shows "Contains (toolRecoveryHint xs) (ux_marker x)"
proof -
  have "sublist (ux_marker x) (recovery_hint_line x)"
    unfolding recovery_hint_line_def by (intro sublist_left sublist_right) simp
  also have "sublist (recovery_hint_line x) (concat (map recovery_hint_line xs))"
    using assms by (induction xs) (auto intro: sublist_left)
  also have "sublist \<dots> (toolRecoveryHint xs)"
    unfolding toolRecoveryHint_def by (intro sublist_left sublist_right) simp
  finally show ?thesis by (simp add: Contains_iff)
qed

lemma string_step_result:
  "string_step s ((part_of ContentTypeToolResult)\<lparr>cp_ToolResult := Some r\<rparr>) =
     newline_unless_empty s @ ''[Result: '' @
     (if 100 < length (tr_Text r) then take 97 (tr_Text r) @ ''...'' else tr_Text r) @ '']''"
  by (simp add: part_of_def Let_def)

lemma tool_message_contains:
  assumes "r \<in> set rs" "tr_Text r = marker @ rest" "length marker \<le> 97"
  shows "Contains (Message_String (NewToolMessage now rs)) marker"
proof -
  let ?part = "\<lambda>res. (part_of ContentTypeToolResult)\<lparr>cp_ToolResult := Some res\<rparr>"
  obtain ys zs where rs: "rs = ys @ r # zs" using assms(1) by (auto simp: in_set_conv_decomp)
  let ?s = "foldl string_step '''' (map ?part ys)"
  have "prefix marker (take 97 (tr_Text r))" "prefix marker (tr_Text r)"
    using assms(2,3) by simp_all
  then have "sublist marker (if 100 < length (tr_Text r) then take 97 (tr_Text r) @ ''...'' else tr_Text r)"
    by (auto intro: prefix_imp_sublist sublist_right)
  then have "sublist marker (string_step ?s (?part r))"
    unfolding string_step_result by (intro sublist_left sublist_right)
  also have "sublist \<dots> (Message_String (NewToolMessage now rs))"
    using foldl_string_step_extends [of "string_step ?s (?part r)" "map ?part zs"]
    by (auto simp: Message_String_def NewToolMessage_def message_of_def rs intro: prefix_imp_sublist)
  finally show ?thesis by (simp add: Contains_iff)
qed

lemma answer_unknown_text:
  assumes "unknown_for (xr_unknown r) (tc_ID c) = Some x" "map_of (xr_results r) (tc_ID c) = None"
  shows "tr_Text (answer_call r not_run c) = ux_marker x @ '' '' @ unknown_outcome_text"
  using assms by (simp add: answer_call_def named_result_def NewTextToolResult_def unknownToolResultText_def)

lemma toolRecoveryMessage_marks:
  assumes x: "x \<in> set (xr_unknown r)" "unknown_for (xr_unknown r) (dtc_ID (ux_call x)) = Some x"
    "map_of (xr_results r) (dtc_ID (ux_call x)) = None"
    and ok: "sn_State sn = StatePaused \<Longrightarrow> length (ux_marker x) \<le> 97 \<and>
      dtc_ID (ux_call x) \<in> tc_ID ` set (lastHistoryToolCalls (sn_History sn))"
  shows "Contains (Message_String (toolRecoveryMessage now sn r)) (ux_marker x)"
proof (cases "toolRecoveryMessage now sn r = NewUserMessage now (toolRecoveryHint (xr_unknown r))")
  case True
  then show ?thesis
    using hint_contains_marker [OF x(1)] by (simp add: string_of_user_message)
next
  case False
  then have sn: "sn_State sn = StatePaused" "sn_History sn \<noteq> []" "msg_Role (last (sn_History sn)) = RoleAssistant"
    and msg: "toolRecoveryMessage now sn r =
      NewToolMessage now (map (answer_call r not_executed_text) (tool_calls (last (sn_History sn))))"
    by (auto simp: toolRecoveryMessage_def Let_def split: if_splits)
  obtain c where c: "c \<in> set (tool_calls (last (sn_History sn)))" "tc_ID c = dtc_ID (ux_call x)"
    using ok [OF sn(1)] sn(2,3) by (auto simp: lastHistoryToolCalls_def)
  have "tr_Text (answer_call r not_executed_text c) = ux_marker x @ '' '' @ unknown_outcome_text"
    by (rule answer_unknown_text) (use x c in simp_all)
  then show ?thesis
    unfolding msg using c(1) ok [OF sn(1)] by (intro tool_message_contains) auto
qed

lemma finish_unknown:
  assumes "calls_keyed turn" "x \<in> set (xr_unknown (finish turn))"
  shows "map_of (xr_results (finish turn)) (dtc_ID (ux_call x)) = None"
    and "distinct (map (\<lambda>x. dtc_ID (ux_call x)) (xr_unknown (finish turn)))"
proof -
  show "map_of (xr_results (finish turn)) (dtc_ID (ux_call x)) = None"
    using assms unknown_loop_entries by (fastforce simp: finish_fields)
  have "distinct (map (\<lambda>x. dtc_ID (ux_call x)) (unknown_loop turn seen es))" for seen es
  proof (induction es arbitrary: seen)
    case (Cons e es)
    then show ?case
      using unknown_loop_ids [OF assms(1), of "insert (dte_ToolCallID e) seen" es]
      by (auto simp: call_of_execution_ID [OF assms(1)])
  qed simp
  then show "distinct (map (\<lambda>x. dtc_ID (ux_call x)) (xr_unknown (finish turn)))"
    by (simp add: finish_fields)
qed

definition recovery_ok :: "toolExecutionRecovery \<Rightarrow> bool" where
  "recovery_ok r \<longleftrightarrow> r = no_recovery \<or> (\<exists>turn. calls_keyed turn \<and> r = finish turn)"

lemma recovery_step_ok:
  assumes "pred_option calls_keyed (fst s)" "recovery_ok (snd s)"
  shows "pred_option calls_keyed (fst (recovery_step item s)) \<and> recovery_ok (snd (recovery_step item s))"
proof (cases s)
  case (Pair current latest)
  have "calls_keyed (newTurn i)" for i by (simp add: calls_keyed_def newTurn_def)
  moreover have "recovery_ok (finish turn)" if "calls_keyed turn" for turn
    using that by (auto simp: recovery_ok_def)
  ultimately show ?thesis
    using assms by (auto simp: Pair Let_def item_in_turn_keyed split: option.split)
qed

lemma latest_unknown_ok: "recovery_ok (latestUnknownToolExecutions items)"
proof -
  define s where "s = fold recovery_step items (None, no_recovery)"
  have "pred_option calls_keyed (fst s) \<and> recovery_ok (snd s)"
    unfolding s_def
  proof (induction items rule: rev_induct)
    case (snoc x xs)
    then have "pred_option calls_keyed (fst (recovery_step x (fold recovery_step xs (None, no_recovery)))) \<and>
      recovery_ok (snd (recovery_step x (fold recovery_step xs (None, no_recovery))))"
      by (intro recovery_step_ok) auto
    then show ?case by simp
  qed (simp add: recovery_ok_def)
  then show ?thesis
    by (cases s; cases "fst s")
      (auto simp: latestUnknownToolExecutions_def s_def [symmetric] recovery_ok_def)
qed

lemma unknown_for_filter:
  assumes "distinct (map (\<lambda>x. dtc_ID (ux_call x)) xs)" "x \<in> set xs" "P x"
  shows "unknown_for (filter P xs) (dtc_ID (ux_call x)) = Some x"
proof -
  have "distinct (rev (map (\<lambda>x. dtc_ID (ux_call x)) (filter P xs)))"
    using assms(1) by (simp add: distinct_map_filter)
  then show ?thesis
    using assms(2,3) unfolding unknown_for_def
    by (subst map_of_eq_Some_iff) (auto simp: comp_def rev_map)
qed


section \<open>Concrete logs\<close>

text \<open>A paused session whose only call was started, with a given call id.\<close>

definition started_log :: "string \<Rightarrow> DisplayItem list" where
  "started_log i =
     [(empty_item DisplayItemTurnStarted)\<lparr>di_Turn := Some \<lparr>dt_ID = ''turn_1700000000000000000'', dt_Reason = '''', dt_Status = '''',
        dt_ProviderFinishReason = '''', dt_LastAgentMessage = '''', dt_DurationMS = 0, dt_Usage = None\<rparr>\<rparr>,
      (empty_item DisplayItemToolExecutionStarted)\<lparr>di_ToolExecution :=
        Some \<lparr>dte_TurnID = ''turn_1700000000000000000'', dte_ToolCallID = i, dte_ToolName = ''shell''\<rparr>\<rparr>]"

definition started_session :: "string \<Rightarrow> Session" where
  "started_session i =
     sample_session\<lparr>se_AgentSnapshot := (se_AgentSnapshot sample_session)\<lparr>sn_State := StatePaused,
       sn_History := [NewUserMessage 0 ''run'',
         AddToolCall (NewAssistantMessage 0 ''ok'')
           \<lparr>tc_Index = 0, tc_ID = i, tc_Name = ''shell'', tc_Arguments = ''''\<rparr>]\<rparr>\<rparr>"

lemma recover_outcome_stored:
  assumes "recoverInterruptedToolExecutions now listing putErr sess = (err, sess', stored)" "stored \<noteq> None"
  shows "err = None \<and> stored = Some sess'"
  using assms by (auto simp: recoverInterruptedToolExecutions_def put_session_def Let_def
      split: sum.splits prod.splits if_splits)


theorem unanswered_calls_recovered_witness:
  "map tr_Text (tool_results (last (sn_History (se_AgentSnapshot (fst (snd
     (recoverUnansweredToolCalls 1 (Inr (started_log ''call_1'', True)) None (started_session ''call_1''))))))))
   = [toolRecoveryMarker ''turn_1700000000000000000'' ''call_1'' @ '' '' @ unknown_outcome_text]"
proof -
  let ?out = "recoverUnansweredToolCalls 1 (Inr (started_log ''call_1'', True)) None (started_session ''call_1'')"
  define m where "m = AddToolCall (NewAssistantMessage 0 ''ok'')
    \<lparr>tc_Index = 0, tc_ID = ''call_1'', tc_Name = ''shell'', tc_Arguments = ''''\<rparr>"
  define e where "e = (empty_item DisplayItemToolExecutionStarted)\<lparr>di_ToolExecution :=
        Some \<lparr>dte_TurnID = ''turn_1700000000000000000'', dte_ToolCallID = ''call_1'', dte_ToolName = ''shell''\<rparr>\<rparr>"
  have log: "interrupted_turn (started_log ''call_1'') ''turn_1700000000000000000'' [e]"
    unfolding interrupted_turn_def
    by (intro conjI exI [of _ "[]"] exI [of _ "hd (started_log ''call_1'')"])
      (simp_all add: started_log_def starts_turn_def e_def empty_item_def item_turn_is_def)
  have hist: "sn_History (se_AgentSnapshot (started_session ''call_1'')) = [NewUserMessage 0 ''run''] @ [m]"
    "msg_Role m = RoleAssistant" "tool_calls m = [\<lparr>tc_Index = 0, tc_ID = ''call_1'', tc_Name = ''shell'', tc_Arguments = ''''\<rparr>]"
    by (simp_all add: started_session_def m_def AddToolCall_def NewAssistantMessage_def tool_calls_def
        message_of_def part_of_def List.map_filter_def)
  have "tool_calls m \<noteq> []" by (simp add: hist(3))
  note unanswered_calls_recovered [OF log hist(1,2) this, of 1 True "fst ?out" "fst (snd ?out)" "snd (snd ?out)"]
  moreover have "tr_Text (logged_answer ''turn_1700000000000000000'' [e] not_started_text
      \<lparr>tc_Index = 0, tc_ID = ''call_1'', tc_Name = ''shell'', tc_Arguments = ''''\<rparr>)
    = toolRecoveryMarker ''turn_1700000000000000000'' ''call_1'' @ '' '' @ unknown_outcome_text"
    by (simp add: logged_answer_def named_result_def NewTextToolResult_def recorded_results_def
        started_executions_def result_entries_def e_def empty_item_def List.map_filter_def)
  ultimately show ?thesis
    by (simp add: hist(3))
qed

text \<open>
  With a call id of 36 bytes, the length of a UUID, the marker of the recorded answer does not
  survive the shortening of tool results, so the next start announces the same execution again.
\<close>

theorem long_call_id_announced_again:
  "let i = ''0190d6a2-0000-7000-8000-000000000000'';
       listing = Inr (started_log i, True);
       first = fst (snd (recoverInterruptedToolExecutions 1 listing None (started_session i)));
       second = fst (snd (recoverInterruptedToolExecutions 2 listing None first))
   in length (sn_History (se_AgentSnapshot first)) = 3 \<and>
      length (sn_History (se_AgentSnapshot second)) = 4"
  by code_simp

end
