(* ===== verification/Session_Input.thy ===== *)
theory Session_Input
  imports Display_Log Base64
begin

text \<open>
  Session input: the commands clients submit (\<open>internal/zotigod/control_handlers.go\<close>), their
  admission by a worker (\<open>internal/zotigod/session_input.go\<close> and \<open>acceptInput\<close> of
  \<open>worker_client.go\<close>), and the display items that record admitted input durably.

  The display log of the session is the list of its items.  What the worker finds when it admits an
  input (open turn, policy, the outcome of the agent's queue and of starting a turn) is an
  environment record.  Shown: an admitted input read back from the log is the same input, and an
  input that was admitted is not recorded again by a retry.
\<close>

section \<open>Commands\<close>

record commandImageData =
  cid_MimeType :: string
  cid_SizeBytes :: int
  cid_Width :: int
  cid_Height :: int
  cid_DataBase64 :: string
  cid_BlobPath :: string

record messageCommandPayload =
  mcp_Text :: string
  mcp_Images :: "commandImageData list"
  mcp_Skills :: "string list"
  mcp_RequestContext :: "RequestContext option"

record steeringCommandPayload =
  scp_Text :: string
  scp_Images :: "commandImageData list"
  scp_Skills :: "string list"
  scp_TurnID :: string
  scp_RequestContext :: "RequestContext option"

record commandResponse =
  cmd_ID :: string
  cmd_Sequence :: int
  cmd_Type :: string
  cmd_CreatedAt :: time
  cmd_Message :: "messageCommandPayload option"
  cmd_Steering :: "steeringCommandPayload option"

record messageImage =
  mi_MimeType :: string
  mi_Data :: string
  mi_SizeBytes :: int
  mi_Width :: int
  mi_Height :: int
  mi_BlobPath :: string

record workerInputRequest =
  wi_Command :: commandResponse
  wi_SteeringOnly :: bool
  wi_StartOnly :: bool
  wi_ExpectedTurnID :: string
  wi_RequiredApprovalPolicy :: string
  wi_RequiredPromptRevision :: int
  wi_RequirePromptRevision :: bool

definition empty_message :: messageCommandPayload where
  "empty_message = \<lparr>mcp_Text = '''', mcp_Images = [], mcp_Skills = [], mcp_RequestContext = None\<rparr>"

section \<open>Input of a command\<close>

definition commandInput :: "commandResponse \<Rightarrow> string \<times> commandImageData list \<times> string list" where
  "commandInput command =
     (case cmd_Message command of
        Some m \<Rightarrow> (mcp_Text m, mcp_Images m, mcp_Skills m)
      | None \<Rightarrow>
          (case cmd_Steering command of
             Some s \<Rightarrow> (scp_Text s, scp_Images s, scp_Skills s)
           | None \<Rightarrow> ('''', [], [])))"

definition commandRequestContext :: "commandResponse \<Rightarrow> RequestContext option" where
  "commandRequestContext command =
     (case cmd_Steering command of
        Some s \<Rightarrow> scp_RequestContext s
      | None \<Rightarrow> (case cmd_Message command of None \<Rightarrow> None | Some m \<Rightarrow> mcp_RequestContext m))"

definition sameRequestContext :: "RequestContext option \<Rightarrow> RequestContext option \<Rightarrow> bool" where
  "sameRequestContext left right \<longleftrightarrow> left = right"

definition same_image :: "commandImageData \<Rightarrow> commandImageData \<Rightarrow> bool" where
  "same_image l r \<longleftrightarrow>
     cid_MimeType l = cid_MimeType r \<and> cid_SizeBytes l = cid_SizeBytes r \<and>
     cid_Width l = cid_Width r \<and> cid_Height l = cid_Height r \<and> cid_DataBase64 l = cid_DataBase64 r"

definition sameCommandInput :: "commandResponse \<Rightarrow> commandResponse \<Rightarrow> bool" where
  "sameCommandInput existing request \<longleftrightarrow>
     (case (commandInput existing, commandInput request) of
        ((et, ei, es), (rt, ri, rs)) \<Rightarrow>
          et = rt \<and> es = rs \<and>
          sameRequestContext (commandRequestContext existing) (commandRequestContext request) \<and>
          length ei = length ri \<and> list_all (\<lambda>(l, r). same_image l r) (zip ei ri))"

definition sameCommandImagePaths :: "commandResponse \<Rightarrow> commandResponse \<Rightarrow> bool" where
  "sameCommandImagePaths left right \<longleftrightarrow>
     map cid_BlobPath (fst (snd (commandInput left))) = map cid_BlobPath (fst (snd (commandInput right)))"

definition messageCommandForRequest :: "workerInputRequest \<Rightarrow> commandResponse" where
  "messageCommandForRequest request =
     (let command = (wi_Command request)\<lparr>cmd_Type := sessionCommandMessage\<rparr>;
          command = (case (cmd_Message command, cmd_Steering command) of
             (None, Some s) \<Rightarrow> command\<lparr>cmd_Message := Some \<lparr>mcp_Text = scp_Text s, mcp_Images = scp_Images s,
                mcp_Skills = scp_Skills s, mcp_RequestContext = scp_RequestContext s\<rparr>\<rparr>
           | _ \<Rightarrow> command)
      in command\<lparr>cmd_Steering := None\<rparr>)"

definition steeringCommandForRequest :: "workerInputRequest \<Rightarrow> string \<Rightarrow> commandResponse" where
  "steeringCommandForRequest request turnID =
     (let command = wi_Command request
      in case commandInput command of
           (text, images, skills) \<Rightarrow>
             command\<lparr>cmd_Type := sessionCommandSteering, cmd_Message := None,
               cmd_Steering := Some \<lparr>scp_Text = text, scp_Images = images, scp_Skills = skills,
                 scp_TurnID = turnID, scp_RequestContext = commandRequestContext command\<rparr>\<rparr>)"

definition isCompactCommand :: "messageCommandPayload option \<Rightarrow> bool" where
  "isCompactCommand command =
     (case command of
        None \<Rightarrow> False
      | Some m \<Rightarrow>
          mcp_Images m = [] \<and> mcp_Skills m = [] \<and> mcp_RequestContext m = None \<and>
          (TrimSpace (mcp_Text m) = ''/compact'' \<or> TrimSpace (mcp_Text m) = ''/compress''))"

section \<open>Display items of input\<close>

definition displayImagesFromCommand :: "commandImageData list \<Rightarrow> messageImage list" where
  "displayImagesFromCommand images =
     map (\<lambda>im. \<lparr>mi_MimeType = cid_MimeType im, mi_Data = '''', mi_SizeBytes = cid_SizeBytes im,
        mi_Width = cid_Width im, mi_Height = cid_Height im, mi_BlobPath = cid_BlobPath im\<rparr>) images"

definition displayCommandImages :: "messageImage list \<Rightarrow> DisplayCommandImage list" where
  "displayCommandImages images =
     map (\<lambda>im. \<lparr>dci_MimeType = mi_MimeType im, dci_SizeBytes = mi_SizeBytes im,
        dci_Width = mi_Width im, dci_Height = mi_Height im, dci_BlobPath = mi_BlobPath im,
        dci_Data = mi_Data im\<rparr>) images"

definition empty_part :: DisplayContentPart where
  "empty_part = \<lparr>dp_Type = '''', dp_Text = '''', dp_Image = None, dp_ToolCall = None, dp_ToolResult = None\<rparr>"

definition displayMessageItem :: "DisplayItemType \<Rightarrow> string \<Rightarrow> messageImage list \<Rightarrow> DisplayItem" where
  "displayMessageItem itemType text images =
     (empty_item itemType)\<lparr>di_Role := ''user'',
       di_Content := (if text \<noteq> '''' then [empty_part\<lparr>dp_Type := ''text'', dp_Text := text\<rparr>] else []) @
         map (\<lambda>im. empty_part\<lparr>dp_Type := ''image'',
            dp_Image := Some \<lparr>dm_Data = '''', dm_URL = '''', dm_FileID = '''', dm_MediaType = mi_MimeType im,
              dm_SizeBytes = mi_SizeBytes im, dm_Width = mi_Width im, dm_Height = mi_Height im\<rparr>\<rparr>) images\<rparr>"

definition displayItemForAcceptedInput :: "commandResponse \<Rightarrow> DisplayItem" where
  "displayItemForAcceptedInput command =
     (case commandInput command of
        (text, images, skills) \<Rightarrow>
          (let displayImages = displayImagesFromCommand images;
               itemType = (if cmd_Type command = sessionCommandSteering then DisplayItemSessionCommand
                           else DisplayItemUserMessage)
           in (displayMessageItem itemType text displayImages)\<lparr>
                di_ID := cmd_ID command, di_CreatedAt := cmd_CreatedAt command,
                di_Command := Some \<lparr>dc_Type = cmd_Type command, dc_Text = text, dc_Skills = skills,
                  dc_Images = displayCommandImages displayImages,
                  dc_TurnID = (case cmd_Steering command of None \<Rightarrow> '''' | Some s \<Rightarrow> scp_TurnID s),
                  dc_Reason = '''', dc_Profile = '''', dc_ApprovalPolicy = '''',
                  dc_RequestContext = commandRequestContext command\<rparr>\<rparr>))"

text \<open>
  Reading images back: a file is looked up by its path below the root of the store.  An error
  carries the index of the image.
\<close>

datatype image_error = ImagesNotConfigured | ImageUnreadable nat | ImageUnavailable nat

fun command_images_loop ::
  "(string \<Rightarrow> string option) \<Rightarrow> string \<Rightarrow> nat \<Rightarrow> DisplayCommandImage list
     \<Rightarrow> image_error + commandImageData list"
where
  "command_images_loop files rootDir idx [] = Inr []"
| "command_images_loop files rootDir idx (im # ims) =
     bind_res
       (if dci_Data im \<noteq> '''' then Inr (b64_std (dci_Data im))
        else if dci_BlobPath im \<noteq> '''' then
          (if rootDir = '''' then Inl ImagesNotConfigured
           else case files (dci_BlobPath im) of
                  None \<Rightarrow> Inl (ImageUnreadable idx)
                | Some d \<Rightarrow> Inr (b64_std d))
        else Inr '''')
       (\<lambda>enc. if enc = '''' then Inl (ImageUnavailable idx)
              else bind_res (command_images_loop files rootDir (Suc idx) ims)
                (\<lambda>rest. Inr (\<lparr>cid_MimeType = dci_MimeType im, cid_SizeBytes = dci_SizeBytes im,
                   cid_Width = dci_Width im, cid_Height = dci_Height im, cid_DataBase64 = enc,
                   cid_BlobPath = dci_BlobPath im\<rparr> # rest)))"

definition commandImagesFromDisplay ::
  "(string \<Rightarrow> string option) \<Rightarrow> string \<Rightarrow> DisplayCommandImage list \<Rightarrow> image_error + commandImageData list"
where
  "commandImagesFromDisplay files rootDir images = command_images_loop files rootDir 0 images"

definition messageCommandFromItem ::
  "(string \<Rightarrow> string option) \<Rightarrow> string \<Rightarrow> DisplayItem \<Rightarrow> image_error + commandResponse"
where
  "messageCommandFromItem files rootDir item =
     (let command = \<lparr>cmd_ID = di_ID item, cmd_Sequence = di_Sequence item,
            cmd_Type = sessionCommandMessage, cmd_CreatedAt = di_CreatedAt item,
            cmd_Message = Some empty_message, cmd_Steering = None\<rparr>
      in case di_Command item of
           None \<Rightarrow> Inr command
         | Some c \<Rightarrow>
             bind_res (commandImagesFromDisplay files rootDir (dc_Images c))
               (\<lambda>images. Inr (command\<lparr>cmd_Message := Some \<lparr>mcp_Text = dc_Text c, mcp_Images = images,
                  mcp_Skills = dc_Skills c, mcp_RequestContext = dc_RequestContext c\<rparr>\<rparr>)))"

definition steeringCommandFromItem ::
  "(string \<Rightarrow> string option) \<Rightarrow> string \<Rightarrow> DisplayItem \<Rightarrow> image_error + commandResponse"
where
  "steeringCommandFromItem files rootDir item =
     (let command = \<lparr>cmd_ID = di_ID item, cmd_Sequence = di_Sequence item,
            cmd_Type = sessionCommandSteering, cmd_CreatedAt = di_CreatedAt item, cmd_Message = None,
            cmd_Steering = Some \<lparr>scp_Text = '''', scp_Images = [], scp_Skills = [], scp_TurnID = '''',
              scp_RequestContext = None\<rparr>\<rparr>
      in case di_Command item of
           None \<Rightarrow> Inr command
         | Some c \<Rightarrow>
             bind_res (commandImagesFromDisplay files rootDir (dc_Images c))
               (\<lambda>images. Inr (command\<lparr>cmd_Steering := Some \<lparr>scp_Text = dc_Text c, scp_Images = images,
                  scp_Skills = dc_Skills c, scp_TurnID = dc_TurnID c,
                  scp_RequestContext = dc_RequestContext c\<rparr>\<rparr>)))"

definition sessionInputCommandFromItem ::
  "(string \<Rightarrow> string option) \<Rightarrow> string \<Rightarrow> DisplayItem \<Rightarrow> image_error + commandResponse"
where
  "sessionInputCommandFromItem files rootDir item =
     (if (case di_Command item of None \<Rightarrow> False | Some c \<Rightarrow> dc_Type c = sessionCommandSteering)
      then steeringCommandFromItem files rootDir item
      else messageCommandFromItem files rootDir item)"

section \<open>Errors of admission\<close>

text \<open>\<open>ErrActiveTurn\<close> carries the text it was wrapped with, empty for the plain error.\<close>

datatype input_error =
    ErrNoActiveTurn
  | ErrActiveTurn string
  | ErrTurnMismatch
  | ErrCommandIDConflict
  | ErrInputPolicyMismatch
  | ErrImage image_error
  | ErrInput string

definition workerInputErrorDetails :: "input_error \<Rightarrow> string \<times> string" where
  "workerInputErrorDetails err =
     (case err of
        ErrNoActiveTurn \<Rightarrow> (''no_active_turn'', ''steering requires an active turn'')
      | ErrActiveTurn text \<Rightarrow>
          (''active_turn'', if text \<noteq> '''' then text else ''a turn is already active'')
      | ErrTurnMismatch \<Rightarrow> (''turn_mismatch'', ''expected_turn_id does not match active turn'')
      | ErrCommandIDConflict \<Rightarrow> (''command_id_conflict'', ''command id conflict'')
      | ErrInputPolicyMismatch \<Rightarrow> (''input_policy_mismatch'', ''input policy changed before admission'')
      | ErrImage _ \<Rightarrow> (''input_failed'', ''command image unavailable'')
      | ErrInput text \<Rightarrow> (''input_failed'', text))"

section \<open>The durable record\<close>

fun findExistingSessionInput ::
  "(string \<Rightarrow> string option) \<Rightarrow> string \<Rightarrow> DisplayItem list \<Rightarrow> commandResponse
     \<Rightarrow> input_error + commandResponse option"
where
  "findExistingSessionInput files rootDir [] request = Inr None"
| "findExistingSessionInput files rootDir (item # items) request =
     (if di_ID item \<noteq> cmd_ID request then findExistingSessionInput files rootDir items request
      else if (case di_Command item of None \<Rightarrow> True
               | Some c \<Rightarrow> dc_Type c \<noteq> sessionCommandMessage \<and> dc_Type c \<noteq> sessionCommandSteering)
      then Inl ErrCommandIDConflict
      else case sessionInputCommandFromItem files rootDir item of
             Inl e \<Rightarrow> Inl (ErrImage e)
           | Inr existing \<Rightarrow>
               if \<not> sameCommandInput existing request then Inl ErrCommandIDConflict
               else Inr (Some existing))"

text \<open>
  Appending to the log (\<open>AppendDisplayItemAtomically\<close> of \<open>core/session/file_store.go\<close>): the next
  sequence number, an id and a time where there is none.
\<close>

definition stored_item :: "string \<Rightarrow> time \<Rightarrow> DisplayItem list \<Rightarrow> DisplayItem \<Rightarrow> DisplayItem" where
  "stored_item sessionID now log item =
     (let sequence = (if log = [] then 0 else di_Sequence (last log)) + 1
      in item\<lparr>di_Sequence := sequence,
           di_ID := (if di_ID item = '''' then ''item_'' @ sessionID @ ''_'' @ show_int sequence else di_ID item),
           di_CreatedAt := (if di_CreatedAt item = 0 then now else di_CreatedAt item)\<rparr>)"

definition appendAcceptedSessionInput ::
  "string \<Rightarrow> time \<Rightarrow> string option \<Rightarrow> DisplayItem list \<Rightarrow> commandResponse
     \<Rightarrow> (input_error + commandResponse) \<times> DisplayItem list"
where
  "appendAcceptedSessionInput sessionID now writeErr log command =
     (if list_ex (\<lambda>item. di_ID item = cmd_ID command) log then (Inl ErrCommandIDConflict, log)
      else case writeErr of
             Some e \<Rightarrow> (Inl (ErrInput e), log)
           | None \<Rightarrow>
               (let item = stored_item sessionID now log (displayItemForAcceptedInput command)
                in (Inr (command\<lparr>cmd_Sequence := di_Sequence item, cmd_CreatedAt := di_CreatedAt item\<rparr>),
                    log @ [item])))"

section \<open>Messages for the agent\<close>

fun image_parts :: "nat \<Rightarrow> commandImageData list \<Rightarrow> input_error + ContentPart list" where
  "image_parts idx [] = Inr []"
| "image_parts idx (im # ims) =
     (if cid_DataBase64 im = '''' then Inl (ErrInput ''image payload unavailable'')
      else case b64_std_strict (cid_DataBase64 im) of
             None \<Rightarrow> Inl (ErrInput ''decode image'')
           | Some d \<Rightarrow>
               bind_res (image_parts (Suc idx) ims)
                 (\<lambda>ps. Inr ((part_of ContentTypeImage)\<lparr>cp_Image := Some \<lparr>media_Data = d, media_URL = '''',
                     media_FileID = '''', media_MediaType = cid_MimeType im\<rparr>\<rparr> # ps)))"

definition userMessageFromCommand :: "time \<Rightarrow> string \<Rightarrow> commandImageData list \<Rightarrow> input_error + Message" where
  "userMessageFromCommand now text0 images =
     (let text = TrimSpace text0
      in bind_res (image_parts 0 images)
           (\<lambda>ps. Inr (message_of RoleUser
              ((if text \<noteq> '''' then [(part_of ContentTypeText)\<lparr>cp_Text := text\<rparr>] else []) @ ps) now)))"

definition request_metadata :: "RequestContext \<Rightarrow> MessageMetadata" where
  "request_metadata rc = \<lparr>meta_Provider = '''', meta_Model = '''', meta_Usage = None, meta_ContextInput = None,
     meta_ToolUsage = None, meta_OriginalText = '''', meta_RequestContext = Some rc, meta_Raw = []\<rparr>"

definition inputMessageFromRequest :: "time \<Rightarrow> workerInputRequest \<Rightarrow> input_error + Message" where
  "inputMessageFromRequest now request =
     (case commandInput (wi_Command request) of
        (text, images, _) \<Rightarrow>
          bind_res (userMessageFromCommand now text images)
            (\<lambda>m. Inr (m\<lparr>msg_ID := cmd_ID (wi_Command request),
               msg_Metadata := (case cmd_Message (wi_Command request) of
                  None \<Rightarrow> None
                | Some p \<Rightarrow> map_option request_metadata (mcp_RequestContext p))\<rparr>)))"

section \<open>Admission\<close>

text \<open>
  What the worker meets: the files of the store, a failing log, a running compaction, the policy and
  prompt revision in force, the open turn and whether a turn is active, whether that turn can take
  input, why the agent's queue refuses it before admission, an error after queueing, and the outcome
  of starting a turn.
\<close>

datatype queue_refusal = QueueNotRunning | QueueCompacting | QueueInvalid string

record accept_env =
  av_sessionID :: string
  av_files :: "string \<Rightarrow> string option"
  av_root :: string
  av_loadErr :: "string option"
  av_writeErr :: "string option"
  av_now :: time
  av_compacting :: bool
  av_policy :: "input_error + string"
  av_promptRevision :: int
  av_turnID :: string
  av_turnActive :: bool
  av_ready :: "string + bool"
  av_refusal :: "queue_refusal option"
  av_afterQueue :: "string option"
  av_start :: "input_error option"

definition policy_error :: "accept_env \<Rightarrow> workerInputRequest \<Rightarrow> input_error option" where
  "policy_error env request =
     (let approval =
            (if wi_RequiredApprovalPolicy request = '''' then None
             else case av_policy env of
                    Inl e \<Rightarrow> Some e
                  | Inr p \<Rightarrow> if p \<noteq> wi_RequiredApprovalPolicy request then Some ErrInputPolicyMismatch else None)
      in if approval \<noteq> None then approval
         else if wi_RequirePromptRevision request \<and> av_promptRevision env \<noteq> wi_RequiredPromptRevision request
         then Some ErrInputPolicyMismatch else None)"

text \<open>Answers a retry of an input that was admitted before.\<close>

definition accept_existing :: "workerInputRequest \<Rightarrow> commandResponse \<Rightarrow> input_error + commandResponse" where
  "accept_existing request existing =
     (if wi_SteeringOnly request \<and> cmd_Type existing \<noteq> sessionCommandSteering then Inl ErrCommandIDConflict
      else if wi_StartOnly request \<and> cmd_Type existing \<noteq> sessionCommandMessage then Inl ErrCommandIDConflict
      else if wi_ExpectedTurnID request \<noteq> '''' \<and>
        (case cmd_Steering existing of None \<Rightarrow> True | Some s \<Rightarrow> scp_TurnID s \<noteq> wi_ExpectedTurnID request)
      then Inl ErrCommandIDConflict
      else Inr existing)"

definition validateCompletionSteering :: "DisplayItem list \<Rightarrow> commandResponse \<Rightarrow> input_error option" where
  "validateCompletionSteering items command =
     (if \<not> HasPrefix (cmd_ID command) ''completion:'' then None
      else if hasPendingHumanRequest items then Some (ErrActiveTurn '''')
      else None)"

text \<open>Queueing into the open turn; \<open>Inl None\<close> means the turn is stale and a new one is started.\<close>

definition accept_steering ::
  "accept_env \<Rightarrow> DisplayItem list \<Rightarrow> workerInputRequest \<Rightarrow> string
     \<Rightarrow> (input_error option + commandResponse) \<times> DisplayItem list"
where
  "accept_steering env log request turnID =
     (let steering = steeringCommandForRequest request turnID
      in case av_refusal env of
           Some QueueCompacting \<Rightarrow> (Inl (Some (ErrActiveTurn ''context compaction is in progress'')), log)
         | Some QueueNotRunning \<Rightarrow>
             (if wi_SteeringOnly request then (Inl (Some ErrNoActiveTurn), log) else (Inl None, log))
         | Some (QueueInvalid e) \<Rightarrow> (Inl (Some (ErrInput e)), log)
         | None \<Rightarrow>
             (case validateCompletionSteering log (wi_Command request) of
                Some e \<Rightarrow> (Inl (Some e), log)
              | None \<Rightarrow>
                  (case appendAcceptedSessionInput (av_sessionID env) (av_now env) (av_writeErr env) log steering of
                     (Inl e, log') \<Rightarrow> (Inl (Some e), log')
                   | (Inr stored, log') \<Rightarrow>
                       (case av_afterQueue env of
                          Some e \<Rightarrow> (Inl (Some (ErrInput e)), log')
                        | None \<Rightarrow> (Inr stored, log')))))"

definition accept_message ::
  "accept_env \<Rightarrow> DisplayItem list \<Rightarrow> workerInputRequest \<Rightarrow> (input_error + commandResponse) \<times> DisplayItem list"
where
  "accept_message env log request =
     (case appendAcceptedSessionInput (av_sessionID env) (av_now env) (av_writeErr env) log
         (messageCommandForRequest request) of
        (Inl e, log') \<Rightarrow> (Inl e, log')
      | (Inr stored, log') \<Rightarrow>
          (case av_start env of Some e \<Rightarrow> (Inl e, log') | None \<Rightarrow> (Inr stored, log')))"

definition accept_guard :: "accept_env \<Rightarrow> workerInputRequest \<Rightarrow> input_error option" where
  "accept_guard env request =
     (let turnID = av_turnID env
      in if av_compacting env then Some (ErrActiveTurn ''context compaction is in progress'')
         else if policy_error env request \<noteq> None then policy_error env request
         else if wi_StartOnly request \<and> (turnID \<noteq> '''' \<or> av_turnActive env) then Some (ErrActiveTurn '''')
         else if wi_ExpectedTurnID request \<noteq> '''' \<and> wi_ExpectedTurnID request \<noteq> turnID then Some ErrTurnMismatch
         else if wi_SteeringOnly request \<and> turnID = '''' then Some ErrNoActiveTurn
         else if isCompactCommand (cmd_Message (messageCommandForRequest request)) \<and> turnID \<noteq> ''''
         then Some (ErrActiveTurn ''wait for the current turn to finish before /compact'')
         else None)"

definition acceptInput ::
  "accept_env \<Rightarrow> DisplayItem list \<Rightarrow> workerInputRequest \<Rightarrow> (input_error + commandResponse) \<times> DisplayItem list"
where
  "acceptInput env log request =
     (case av_loadErr env of Some e \<Rightarrow> (Inl (ErrInput e), log) | None \<Rightarrow>
      case findExistingSessionInput (av_files env) (av_root env) log (wi_Command request) of
        Inl e \<Rightarrow> (Inl e, log)
      | Inr (Some existing) \<Rightarrow> (accept_existing request existing, log)
      | Inr None \<Rightarrow>
          (case accept_guard env request of Some e \<Rightarrow> (Inl e, log) | None \<Rightarrow>
           case inputMessageFromRequest (av_now env) request of
             Inl e \<Rightarrow> (Inl e, log)
           | Inr _ \<Rightarrow>
               if av_turnID env = '''' then accept_message env log request
               else case av_ready env of
                      Inl e \<Rightarrow> (Inl (ErrInput e), log)
                    | Inr False \<Rightarrow>
                        if wi_SteeringOnly request then (Inl ErrNoActiveTurn, log)
                        else accept_message env log request
                    | Inr True \<Rightarrow>
                        (case accept_steering env log request (av_turnID env) of
                           (Inr stored, log') \<Rightarrow> (Inr stored, log')
                         | (Inl (Some e), log') \<Rightarrow> (Inl e, log')
                         | (Inl None, log') \<Rightarrow> accept_message env log' request)))"

text \<open>The reply: an error code, empty on success, and the log.\<close>

definition AcceptInput ::
  "accept_env \<Rightarrow> DisplayItem list \<Rightarrow> workerInputRequest \<Rightarrow> (string + commandResponse) \<times> DisplayItem list"
where
  "AcceptInput env log request =
     (case acceptInput env log request of
        (Inl e, log') \<Rightarrow> (Inl (fst (workerInputErrorDetails e)), log')
      | (Inr c, log') \<Rightarrow> (Inr c, log'))"

section \<open>Reading admitted input back\<close>

text \<open>Every image of the command is backed by the file it names.\<close>

definition image_stored :: "(string \<Rightarrow> string option) \<Rightarrow> commandImageData \<Rightarrow> bool" where
  "image_stored files im \<longleftrightarrow>
     cid_BlobPath im \<noteq> '''' \<and>
     (case files (cid_BlobPath im) of None \<Rightarrow> False | Some d \<Rightarrow> d \<noteq> '''' \<and> cid_DataBase64 im = b64_std d)"

definition input_stored :: "(string \<Rightarrow> string option) \<Rightarrow> commandResponse \<Rightarrow> bool" where
  "input_stored files command \<longleftrightarrow> list_all (image_stored files) (fst (snd (commandInput command)))"

lemma b64_raw_url_nonempty: "s \<noteq> '''' \<Longrightarrow> b64_raw_url s \<noteq> ''''"
  by (cases s rule: b64_raw_url.cases) auto

lemma b64_std_nonempty: "s \<noteq> '''' \<Longrightarrow> b64_std s \<noteq> ''''"
  by (simp add: b64_std_def Let_def b64_raw_url_nonempty)

lemma command_images_loop_restores:
  assumes "list_all (image_stored files) images" "root \<noteq> ''''"
  shows "command_images_loop files root idx (displayCommandImages (displayImagesFromCommand images)) = Inr images"
  using assms(1)
proof (induction images arbitrary: idx)
  case (Cons im images)
  then show ?case
    using assms(2)
    by (auto simp: displayCommandImages_def displayImagesFromCommand_def image_stored_def b64_std_nonempty
        split: option.splits)
qed (simp add: displayCommandImages_def displayImagesFromCommand_def)

lemma same_images_refl: "length xs = length xs \<and> list_all (\<lambda>(l, r). same_image l r) (zip xs xs)"
  by (auto simp: list_all_iff same_image_def in_set_zip)

lemma sameCommandInput_iff:
  assumes "commandInput a = commandInput b" "commandRequestContext a = commandRequestContext b"
  shows "sameCommandInput a b"
  using assms same_images_refl by (auto simp: sameCommandInput_def sameRequestContext_def split: prod.split)

text \<open>The command as the worker records it: a message or a steering input, never both.\<close>

definition recorded_form :: "commandResponse \<Rightarrow> bool" where
  "recorded_form c \<longleftrightarrow>
     cmd_Type c = sessionCommandMessage \<and> cmd_Steering c = None \<or>
     cmd_Type c = sessionCommandSteering \<and> cmd_Message c = None \<and> cmd_Steering c \<noteq> None"

lemma read_back:
  assumes "recorded_form c" "input_stored files c" "root \<noteq> ''''"
    and item: "di_Command item = di_Command (displayItemForAcceptedInput c)"
  shows "\<exists>c'. sessionInputCommandFromItem files root item = Inr c' \<and> cmd_ID c' = di_ID item \<and>
    cmd_Type c' = cmd_Type c \<and> commandInput c' = commandInput c \<and>
    commandRequestContext c' = commandRequestContext c \<and>
    map_option scp_TurnID (cmd_Steering c') = map_option scp_TurnID (cmd_Steering c)"
proof -
  obtain content images skills where inp: "commandInput c = (content, images, skills)"
    by (metis prod_cases3)
  have "command_images_loop files root 0 (displayCommandImages (displayImagesFromCommand images)) = Inr images"
    using assms(2,3) inp by (intro command_images_loop_restores) (simp_all add: input_stored_def)
  then have img: "commandImagesFromDisplay files root (displayCommandImages (displayImagesFromCommand images)) = Inr images"
    by (simp add: commandImagesFromDisplay_def)
  have ne: "sessionCommandMessage \<noteq> sessionCommandSteering"
    by (simp add: sessionCommandMessage_def sessionCommandSteering_def)
  consider "cmd_Type c = sessionCommandMessage" "cmd_Steering c = None"
    | s where "cmd_Type c = sessionCommandSteering" "cmd_Message c = None" "cmd_Steering c = Some s"
    using assms(1) by (auto simp: recorded_form_def)
  then show ?thesis
  proof cases
    case 1
    then show ?thesis
      using inp img ne
      by (auto simp: sessionInputCommandFromItem_def item displayItemForAcceptedInput_def Let_def
          messageCommandFromItem_def commandInput_def commandRequestContext_def split: option.splits)
  next
    case 2
    then show ?thesis
      using inp img ne
      by (auto simp: sessionInputCommandFromItem_def item displayItemForAcceptedInput_def Let_def
          steeringCommandFromItem_def commandInput_def commandRequestContext_def split: option.splits)
  qed
qed

text \<open>
  C19. An admitted input, written to the display log and read back, is the same input: the same text,
  images, skills, origin, kind and turn, and it passes the comparison by which the worker recognises
  a retry.
\<close>

theorem accepted_input_roundtrip:
  assumes "recorded_form c" "input_stored files c" "root \<noteq> ''''" "cmd_ID c \<noteq> ''''"
  shows "\<exists>c'. sessionInputCommandFromItem files root (stored_item sid now log (displayItemForAcceptedInput c)) = Inr c' \<and>
    cmd_ID c' = cmd_ID c \<and> cmd_Type c' = cmd_Type c \<and> sameCommandInput c' c \<and>
    map_option scp_TurnID (cmd_Steering c') = map_option scp_TurnID (cmd_Steering c)"
proof -
  let ?item = "stored_item sid now log (displayItemForAcceptedInput c)"
  have "di_Command ?item = di_Command (displayItemForAcceptedInput c)" "di_ID ?item = cmd_ID c"
    using assms(4) by (simp_all add: stored_item_def Let_def displayItemForAcceptedInput_def split: prod.split)
  then show ?thesis
    using read_back [OF assms(1-3)] sameCommandInput_iff by metis
qed

theorem accepted_input_roundtrip_witness:
  "map_sum (\<lambda>e. e) cmd_Type (sessionInputCommandFromItem (\<lambda>_. Some ''png'') ''/root''
     (stored_item ''s'' 5 [] (displayItemForAcceptedInput
       \<lparr>cmd_ID = ''m1'', cmd_Sequence = 0, cmd_Type = ''message'', cmd_CreatedAt = 0,
        cmd_Message = Some \<lparr>mcp_Text = ''hi'', mcp_Images = [\<lparr>cid_MimeType = ''image/png'', cid_SizeBytes = 3, cid_Width = 1,
          cid_Height = 1, cid_DataBase64 = ''cG5n'', cid_BlobPath = ''a.png''\<rparr>], mcp_Skills = [], mcp_RequestContext = None\<rparr>,
        cmd_Steering = None\<rparr>))) = Inr ''message''"
proof -
  define c where "c = \<lparr>cmd_ID = ''m1'', cmd_Sequence = 0, cmd_Type = ''message'', cmd_CreatedAt = 0,
        cmd_Message = Some \<lparr>mcp_Text = ''hi'', mcp_Images = [\<lparr>cid_MimeType = ''image/png'', cid_SizeBytes = 3, cid_Width = 1,
          cid_Height = 1, cid_DataBase64 = ''cG5n'', cid_BlobPath = ''a.png''\<rparr>], mcp_Skills = [], mcp_RequestContext = None\<rparr>,
        cmd_Steering = None\<rparr>"
  have "input_stored (\<lambda>_. Some ''png'') c" unfolding c_def by code_simp
  moreover have "recorded_form c" by (simp add: c_def recorded_form_def sessionCommandMessage_def)
  ultimately obtain c' where "sessionInputCommandFromItem (\<lambda>_. Some ''png'') ''/root''
      (stored_item ''s'' 5 [] (displayItemForAcceptedInput c)) = Inr c'" "cmd_Type c' = cmd_Type c"
    using accepted_input_roundtrip [of c "\<lambda>_. Some ''png''" "''/root''" "''s''" 5 "[]"] by (auto simp: c_def)
  then show ?thesis by (simp add: c_def)
qed

section \<open>Retries\<close>

lemma appendAcceptedSessionInput_log:
  assumes "appendAcceptedSessionInput sid now werr log c = (r, log')"
  shows "log' = log \<or>
    log' = log @ [stored_item sid now log (displayItemForAcceptedInput c)] \<and>
    (\<forall>item \<in> set log. di_ID item \<noteq> cmd_ID c)"
  using assms by (auto simp: appendAcceptedSessionInput_def Let_def list_ex_iff split: if_splits option.splits)

text \<open>The two forms in which a request may be recorded.\<close>

definition recorded_as :: "workerInputRequest \<Rightarrow> commandResponse \<Rightarrow> bool" where
  "recorded_as request c \<longleftrightarrow>
     c = messageCommandForRequest request \<or> (\<exists>t. c = steeringCommandForRequest request t)"

lemma recorded_as_form:
  assumes "recorded_as request c"
    and "cmd_Message (wi_Command request) = None \<or> cmd_Steering (wi_Command request) = None"
  shows "recorded_form c" "cmd_ID c = cmd_ID (wi_Command request)"
    "commandInput c = commandInput (wi_Command request)"
    "commandRequestContext c = commandRequestContext (wi_Command request)"
  using assms
  by (auto simp: recorded_as_def recorded_form_def messageCommandForRequest_def steeringCommandForRequest_def
      commandInput_def commandRequestContext_def Let_def split: option.splits prod.splits)

lemma accept_message_log:
  assumes "accept_message env log request = (r, log')"
  shows "log' = log \<or> (\<exists>c. recorded_as request c \<and>
    log' = log @ [stored_item (av_sessionID env) (av_now env) log (displayItemForAcceptedInput c)] \<and>
    (\<forall>item \<in> set log. di_ID item \<noteq> cmd_ID c))"
proof -
  obtain r1 log1 where app: "appendAcceptedSessionInput (av_sessionID env) (av_now env) (av_writeErr env) log
      (messageCommandForRequest request) = (r1, log1)"
    by fastforce
  then have "log' = log1"
    using assms by (auto simp: accept_message_def split: sum.splits option.splits)
  then show ?thesis
    using appendAcceptedSessionInput_log [OF app] by (auto simp: recorded_as_def)
qed

lemma accept_steering_log:
  assumes "accept_steering env log request turnID = (r, log')"
  shows "(log' = log \<or> (\<exists>c. recorded_as request c \<and>
      log' = log @ [stored_item (av_sessionID env) (av_now env) log (displayItemForAcceptedInput c)] \<and>
      (\<forall>item \<in> set log. di_ID item \<noteq> cmd_ID c))) \<and> (r = Inl None \<longrightarrow> log' = log)"
proof -
  obtain r1 log1 where app: "appendAcceptedSessionInput (av_sessionID env) (av_now env) (av_writeErr env) log
      (steeringCommandForRequest request turnID) = (r1, log1)"
    by fastforce
  then have "log' = log \<or> log' = log1 \<and> r \<noteq> Inl None"
    using assms
    by (auto simp: accept_steering_def Let_def split: sum.splits option.splits queue_refusal.splits if_splits)
  then show ?thesis
    using appendAcceptedSessionInput_log [OF app] by (auto simp: recorded_as_def)
qed

lemma acceptInput_log:
  assumes "acceptInput env log request = (r, log')" "log' \<noteq> log"
  shows "\<exists>c. recorded_as request c \<and>
    log' = log @ [stored_item (av_sessionID env) (av_now env) log (displayItemForAcceptedInput c)] \<and>
    (\<forall>item \<in> set log. di_ID item \<noteq> cmd_ID c)"
proof -
  have "(\<exists>r1. accept_message env log request = (r1, log')) \<or>
    (\<exists>r1. accept_steering env log request (av_turnID env) = (r1, log'))"
    using assms accept_steering_log [of env log request "av_turnID env"]
    by (auto simp: acceptInput_def split: option.splits sum.splits if_splits bool.splits prod.splits)
  then show ?thesis
    using accept_message_log accept_steering_log assms(2) by blast
qed

lemma findExisting_skips:
  assumes "\<forall>item \<in> set xs. di_ID item \<noteq> cmd_ID request"
  shows "findExistingSessionInput files root (xs @ ys) request = findExistingSessionInput files root ys request"
  using assms by (induction xs) auto

lemma displayItemForAcceptedInput_fields:
  "di_ID (displayItemForAcceptedInput c) = cmd_ID c"
  "map_option dc_Type (di_Command (displayItemForAcceptedInput c)) = Some (cmd_Type c)"
  by (simp_all add: displayItemForAcceptedInput_def Let_def split: prod.split)

lemma findExisting_recorded:
  assumes c: "recorded_form c" "cmd_ID c = cmd_ID request" "cmd_ID c \<noteq> ''''" "commandInput c = commandInput request"
    "commandRequestContext c = commandRequestContext request"
    and stored: "input_stored files c" "root \<noteq> ''''" and fresh: "\<forall>item \<in> set xs. di_ID item \<noteq> cmd_ID c"
  shows "\<exists>c'. findExistingSessionInput files root
      (xs @ stored_item sid now log (displayItemForAcceptedInput c) # ys) request = Inr (Some c') \<and>
    cmd_Type c' = cmd_Type c \<and> sameCommandInput c' request \<and>
    map_option scp_TurnID (cmd_Steering c') = map_option scp_TurnID (cmd_Steering c)"
proof -
  let ?item = "stored_item sid now log (displayItemForAcceptedInput c)"
  have item: "di_Command ?item = di_Command (displayItemForAcceptedInput c)" "di_ID ?item = cmd_ID request"
    using c(2,3) displayItemForAcceptedInput_fields [of c] by (simp_all add: stored_item_def Let_def)
  obtain c' where c': "sessionInputCommandFromItem files root ?item = Inr c'" "cmd_Type c' = cmd_Type c"
    "commandInput c' = commandInput c" "commandRequestContext c' = commandRequestContext c"
    "map_option scp_TurnID (cmd_Steering c') = map_option scp_TurnID (cmd_Steering c)"
    using read_back [OF c(1) stored item(1)] by blast
  have "cmd_Type c = sessionCommandMessage \<or> cmd_Type c = sessionCommandSteering"
    using c(1) by (auto simp: recorded_form_def)
  then have ty: "\<not> (case di_Command ?item of None \<Rightarrow> True
      | Some k \<Rightarrow> dc_Type k \<noteq> sessionCommandMessage \<and> dc_Type k \<noteq> sessionCommandSteering)"
    using displayItemForAcceptedInput_fields(2) [of c] item(1) by (auto split: option.splits)
  have "sameCommandInput c' request"
    using c' c by (intro sameCommandInput_iff) simp_all
  then have "findExistingSessionInput files root (?item # ys) request = Inr (Some c')"
    using c'(1) ty item(2) by simp
  then show ?thesis
    using findExisting_skips [of xs request files root "?item # ys"] fresh c(2) c' \<open>sameCommandInput c' request\<close>
    by auto
qed

text \<open>
  C6. An input is recorded at most once.  Once the worker has recorded it, even if it then answered
  with an error or its answer was lost, a retry with the same id and the same input leaves the log
  as it is; it is answered with the recorded command unless the retry asks for another kind of
  admission.
\<close>

theorem input_retry_not_recorded_twice:
  assumes first: "acceptInput env log request = (r, log')" "log' \<noteq> log"
    and one: "cmd_Message (wi_Command request) = None \<or> cmd_Steering (wi_Command request) = None"
    and id: "cmd_ID (wi_Command request) \<noteq> ''''"
    and same: "cmd_ID (wi_Command retry) = cmd_ID (wi_Command request)"
      "commandInput (wi_Command retry) = commandInput (wi_Command request)"
      "commandRequestContext (wi_Command retry) = commandRequestContext (wi_Command request)"
    and env': "av_loadErr env' = None" "input_stored (av_files env') (wi_Command request)" "av_root env' \<noteq> ''''"
  shows "\<exists>existing. sameCommandInput existing (wi_Command retry) \<and>
    acceptInput env' (log' @ later) retry = (accept_existing retry existing, log' @ later)"
proof -
  obtain c where c: "recorded_as request c" "\<forall>item \<in> set log. di_ID item \<noteq> cmd_ID c"
    and log': "log' = log @ [stored_item (av_sessionID env) (av_now env) log (displayItemForAcceptedInput c)]"
    using acceptInput_log [OF first] by blast
  note form = recorded_as_form [OF c(1) one]
  have "input_stored (av_files env') c"
    using env'(2) form(3) by (simp add: input_stored_def)
  then obtain existing where "findExistingSessionInput (av_files env') (av_root env') (log' @ later) (wi_Command retry)
      = Inr (Some existing)" "sameCommandInput existing (wi_Command retry)"
    using findExisting_recorded [of c "wi_Command retry" "av_files env'" "av_root env'" log
        "av_sessionID env" "av_now env" log later] form id same env' c(2)
    by (auto simp: log')
  then show ?thesis
    using env'(1) by (auto simp: acceptInput_def)
qed

text \<open>A worker without an open turn, and a plain message, for the witnesses.\<close>

definition idle_env :: accept_env where
  "idle_env = \<lparr>av_sessionID = ''s'', av_files = (\<lambda>_. None), av_root = ''/store'', av_loadErr = None, av_writeErr = None,
     av_now = 5, av_compacting = False, av_policy = Inr ''auto'', av_promptRevision = 1, av_turnID = '''',
     av_turnActive = False, av_ready = Inr False, av_refusal = None, av_afterQueue = None, av_start = None\<rparr>"

definition plain_request :: "string \<Rightarrow> string \<Rightarrow> workerInputRequest" where
  "plain_request i text =
     \<lparr>wi_Command = \<lparr>cmd_ID = i, cmd_Sequence = 0, cmd_Type = sessionCommandMessage, cmd_CreatedAt = 3,
        cmd_Message = Some (empty_message\<lparr>mcp_Text := text\<rparr>), cmd_Steering = None\<rparr>,
      wi_SteeringOnly = False, wi_StartOnly = True, wi_ExpectedTurnID = '''', wi_RequiredApprovalPolicy = '''',
      wi_RequiredPromptRevision = 0, wi_RequirePromptRevision = False\<rparr>"

theorem input_retry_not_recorded_twice_witness:
  "length (snd (acceptInput idle_env (snd (acceptInput idle_env [] (plain_request ''q1'' ''hello'')))
     (plain_request ''q1'' ''hello''))) = 1"
proof -
  let ?out = "acceptInput idle_env [] (plain_request ''q1'' ''hello'')"
  have len: "length (snd ?out) = 1" by code_simp
  have "input_stored (av_files idle_env) (wi_Command (plain_request ''q1'' ''hello''))" by code_simp
  then have "\<exists>existing. sameCommandInput existing (wi_Command (plain_request ''q1'' ''hello'')) \<and>
      acceptInput idle_env (snd ?out @ []) (plain_request ''q1'' ''hello'') =
        (accept_existing (plain_request ''q1'' ''hello'') existing, snd ?out @ [])"
    using len by (intro input_retry_not_recorded_twice [of idle_env "[]" _ "fst ?out"])
      (auto simp: plain_request_def idle_env_def)
  then show ?thesis using len by auto
qed

end
