(* ===== verification/Utf8.thy ===== *)
theory Utf8
  imports Json
begin

text \<open>
  Where a valid UTF-8 text may be cut and joined: it is a sequence of runes, so it may be cut before
  any byte that starts a rune and after any ASCII byte, and valid texts may be concatenated.
  Replacing invalid bytes yields a valid text.
\<close>

section \<open>Texts as sequences of runes\<close>

definition is_rune :: "string \<Rightarrow> bool" where
  "is_rune r \<longleftrightarrow> r \<noteq> [] \<and> rune_len r = length r"

lemma rune_len_le: "rune_len s \<le> length s"
  by (cases s) (auto simp: Let_def split: list.splits)

lemma rune_len_local:
  assumes "rune_len s = Suc k"
  shows "rune_len (take (Suc k) s @ t) = Suc k"
proof (cases s)
  case (Cons c u)
  consider "u = []" | c1 where "u = [c1]" | c1 c2 where "u = [c1, c2]" | c1 c2 c3 v where "u = c1 # c2 # c3 # v"
    by (metis list.exhaust)
  then show ?thesis
    using assms unfolding Cons by cases (auto simp: Let_def split: if_splits)
qed (use assms in simp)

lemma is_rune_take: "rune_len s = Suc k \<Longrightarrow> is_rune (take (Suc k) s)"
  using rune_len_local [of s k "[]"] rune_len_le [of s] by (auto simp: is_rune_def)

lemma is_rune_bytes:
  assumes "is_rune r"
  shows "RuneStart (hd r)" "\<And>i. 0 < i \<Longrightarrow> i < length r \<Longrightarrow> \<not> RuneStart (r ! i)"
    "\<And>i. i < length r \<Longrightarrow> byte (r ! i) < 0x80 \<Longrightarrow> length r = 1"
proof -
  obtain c u where r: "r = c # u" using assms by (cases r) (auto simp: is_rune_def)
  have len: "rune_len (c # u) = Suc (length u)" using assms r by (simp add: is_rune_def)
  consider (one) "u = []" "byte c < 0x80" | (two) c1 where "u = [c1]" "0xC2 \<le> byte c" "cont 0x80 0xBF c1"
    | (three) c1 c2 where "u = [c1, c2]" "0xE0 \<le> byte c" "cont 0x80 0xBF c1" "cont 0x80 0xBF c2"
    | (four) c1 c2 c3 where "u = [c1, c2, c3]" "0xF0 \<le> byte c" "cont 0x80 0xBF c1" "cont 0x80 0xBF c2" "cont 0x80 0xBF c3"
    using len by (auto simp: Let_def cont_def split: list.splits if_splits)
  then show "RuneStart (hd r)" "\<And>i. 0 < i \<Longrightarrow> i < length r \<Longrightarrow> \<not> RuneStart (r ! i)"
    "\<And>i. i < length r \<Longrightarrow> byte (r ! i) < 0x80 \<Longrightarrow> length r = 1"
    by (cases; auto simp: r RuneStart_def cont_def less_Suc_eq)+
qed

lemma valid_go_skip: "n \<le> length s \<Longrightarrow> valid_go n s = valid_go 0 (drop n s)"
  by (induction n s rule: valid_go.induct) auto

lemma ValidString_Nil [simp]: "ValidString []"
  by (simp add: ValidString_def)

lemma ValidString_rune:
  assumes "is_rune r"
  shows "ValidString (r @ t) \<longleftrightarrow> ValidString t"
proof -
  obtain c u where r: "r = c # u" "rune_len (c # u) = Suc (length u)"
    using assms by (cases r) (auto simp: is_rune_def)
  have "rune_len (r @ t) = Suc (length u)"
    using rune_len_local [of r "length u" t] r by simp
  then show ?thesis
    using valid_go_skip [of "length u" "u @ t"] r(1) by (simp add: ValidString_def)
qed

lemma ValidString_cases:
  assumes "ValidString s"
  obtains (Nil) "s = []" | (rune) r t where "s = r @ t" "is_rune r" "ValidString t"
proof (cases s)
  case (Cons c u)
  then obtain k where k: "rune_len s = Suc k"
    using assms by (auto simp: ValidString_def split: nat.splits)
  then have "is_rune (take (Suc k) s)" by (rule is_rune_take)
  moreover from this have "ValidString (drop (Suc k) s)"
    using ValidString_rune [of "take (Suc k) s" "drop (Suc k) s"] assms by simp
  ultimately show ?thesis
    using rune [of "take (Suc k) s" "drop (Suc k) s"] by simp
qed (rule Nil)

lemma ValidString_induct [consumes 1, case_names Nil rune]:
  assumes "ValidString s" "P []" "\<And>r t. is_rune r \<Longrightarrow> ValidString t \<Longrightarrow> P t \<Longrightarrow> P (r @ t)"
  shows "P s"
  using assms(1)
proof (induction "length s" arbitrary: s rule: less_induct)
  case less
  from less.prems show ?case
  proof (cases rule: ValidString_cases)
    case (rune r t)
    moreover have "length t < length s"
      using rune(1,2) by (cases r) (auto simp: is_rune_def)
    ultimately show ?thesis
      using less.hyps assms(3) by blast
  qed (use assms(2) in simp)
qed

section \<open>Cutting and joining\<close>

lemma ValidString_append: "ValidString s \<Longrightarrow> ValidString (s @ t) \<longleftrightarrow> ValidString t"
  by (induction rule: ValidString_induct) (simp_all add: ValidString_rune)

lemma ValidString_split_before:
  assumes "ValidString s" "i = length s \<or> i < length s \<and> RuneStart (s ! i)"
  shows "ValidString (take i s) \<and> ValidString (drop i s)"
  using assms
proof (induction arbitrary: i rule: ValidString_induct)
  case (rune r t)
  show ?case
  proof (cases "i < length r")
    case True
    then have "i = 0"
      using rune.prems is_rune_bytes(2) [OF rune.hyps(1), of i] by (auto simp: nth_append)
    then show ?thesis using rune.hyps by (simp add: ValidString_rune)
  next
    case False
    then have "i - length r = length t \<or> i - length r < length t \<and> RuneStart (t ! (i - length r))"
      using rune.prems by (auto simp: nth_append)
    then show ?thesis
      using False rune.IH [of "i - length r"] rune.hyps(1) by (simp add: ValidString_rune)
  qed
qed simp

lemma ValidString_split_after:
  assumes "ValidString s" "0 < i" "i \<le> length s" "byte (s ! (i - 1)) < 0x80"
  shows "ValidString (take i s) \<and> ValidString (drop i s)"
  using assms
proof (induction arbitrary: i rule: ValidString_induct)
  case (rune r t)
  show ?case
  proof (cases "i \<le> length r")
    case True
    then have "i - 1 < length r" using rune.prems(1) by simp
    then have "length r = 1" "i = 1"
      using True rune.prems is_rune_bytes(3) [OF rune.hyps(1), of "i - 1"] by (auto simp: nth_append)
    then show ?thesis
      using rune.hyps ValidString_rune [OF rune.hyps(1), of "[]"] by simp
  next
    case False
    then have "(r @ t) ! (i - 1) = t ! (i - length r - 1)"
      by (auto simp: nth_append intro!: arg_cong [of _ _ "(!) t"])
    then show ?thesis
      using False rune.IH [of "i - length r"] rune.prems rune.hyps(1) by (simp add: ValidString_rune)
  qed
qed simp

lemma rune_back_start:
  assumes "j \<le> length s"
  shows "rune_back s 0 j = 0 \<or> rune_back s 0 j = length s \<or> rune_back s 0 j < length s \<and> RuneStart (s ! rune_back s 0 j)"
  using assms by (induction j) auto

lemma sanitize_go_skip: "n \<le> length s \<Longrightarrow> sanitize_go n s = take n s @ sanitize_go 0 (drop n s)"
  by (induction n s rule: sanitize_go.induct) auto

lemma RuneError_rune: "is_rune RuneError"
  by (simp add: is_rune_def RuneError_def cont_def byte_def)

lemma ValidString_to_valid_utf8: "ValidString (to_valid_utf8 s)"
proof (induction "length s" arbitrary: s rule: less_induct)
  case less
  show ?case
  proof (cases s)
    case (Cons c u)
    show ?thesis
    proof (cases "rune_len s")
      case 0
      then show ?thesis
        using Cons less [of u] by (simp add: to_valid_utf8_def ValidString_rune [OF RuneError_rune])
    next
      case (Suc k)
      have "to_valid_utf8 s = take (Suc k) s @ to_valid_utf8 (drop (Suc k) s)"
        using Cons Suc rune_len_le [of s] sanitize_go_skip [of k u] by (simp add: to_valid_utf8_def)
      then show ?thesis
        using less [of "drop (Suc k) s"] Cons ValidString_rune [OF is_rune_take [OF Suc]] by simp
    qed
  qed (simp add: to_valid_utf8_def)
qed

end
