(* ===== verification/Prompt_Projection.thy ===== *)
theory Prompt_Projection
  imports Protocol Utf8
begin

text \<open>
  The bounded form in which a conversation is sent to a model (\<open>core/services/compressor.go\<close>):
  inline media payloads are replaced by a marker, tool output is cut to a token budget, and tokens
  are counted on what remains.

  The tokenizer is a function from text to a count, and \<open>json.Marshal\<close> of a structured tool result
  is a function to its text or nothing; both are arguments.  Token and byte counts are integers
  without a width: they are bounded by the size of the conversation.

  Shown: a cut text fits both of its budgets, and projecting a projected conversation changes
  nothing, so that live and restored conversations are sent in the same form.
\<close>

section \<open>Inline media\<close>

definition isBase64Byte :: "char \<Rightarrow> bool" where
  "isBase64Byte c \<longleftrightarrow>
     (byte CHR ''a'' \<le> byte c \<and> byte c \<le> byte CHR ''z'') \<or> (byte CHR ''A'' \<le> byte c \<and> byte c \<le> byte CHR ''Z'') \<or>
     (byte CHR ''0'' \<le> byte c \<and> byte c \<le> byte CHR ''9'') \<or> c = CHR ''+'' \<or> c = CHR ''/'' \<or> c = CHR ''=''"

definition media_marker :: string where
  "media_marker = ''[inline media payload omitted]''"

definition data_tag :: string where
  "data_tag = ''data:''"

definition base64_tag :: string where
  "base64_tag = '';base64,''"

lemma str_index_bound: "str_index sub s = Some i \<Longrightarrow> i + length sub \<le> length s"
proof (induction s arbitrary: i)
  case Nil
  then show ?case by (auto simp: str_index.simps split: if_splits)
next
  case (Cons c s)
  then show ?case
    by (auto simp: str_index.simps [of sub "c # s"] split: if_splits dest: prefix_length_le)
qed

text \<open>
  The search loop: everything before \<open>searchFrom\<close> is final, so the loop is a function of the rest.
\<close>

function omit_loop :: "string \<Rightarrow> string" where
  "omit_loop rest =
     (case str_index data_tag rest of
        None \<Rightarrow> rest
      | Some i \<Rightarrow>
          (case str_index base64_tag (drop i rest) of
             None \<Rightarrow> take (i + length data_tag) rest @ omit_loop (drop (i + length data_tag) rest)
           | Some j \<Rightarrow>
               let payloadStart = i + j + length base64_tag;
                   payload = takeWhile isBase64Byte (drop payloadStart rest);
                   payloadEnd = payloadStart + length payload
               in if payload = [] then take payloadStart rest @ omit_loop (drop payloadStart rest)
                  else take i rest @ media_marker @ omit_loop (drop payloadEnd rest)))"
  by auto
termination
  by (relation "measure length") (auto dest!: str_index_bound simp: Let_def data_tag_def base64_tag_def)

declare omit_loop.simps [simp del]

definition omitInlineMediaPayloads :: "string \<Rightarrow> string" where
  "omitInlineMediaPayloads text = omit_loop (if ValidString text then text else to_valid_utf8 text)"

section \<open>Cutting tool output\<close>

definition cut_marker :: string where
  "cut_marker = [CHR 0x0A, CHR 0x0A] @ ''[... truncated ...]''"

function bound_search ::
  "(string \<Rightarrow> int) \<Rightarrow> string \<Rightarrow> string \<Rightarrow> int \<Rightarrow> int \<Rightarrow> int \<Rightarrow> string \<Rightarrow> string"
where
  "bound_search counter projected marker maxTokens low high best =
     (if low \<le> high then
        (let mid = low + (high - low) div 2;
             candidate = take (rune_back projected 0 (nat mid)) projected @ marker
         in if counter candidate \<le> maxTokens
            then bound_search counter projected marker maxTokens (mid + 1) high candidate
            else bound_search counter projected marker maxTokens low (mid - 1) best)
      else best)"
  by auto
termination
  by (relation "measure (\<lambda>(_, _, _, _, low, high, _). nat (high - low + 1))") auto

declare bound_search.simps [simp del]

definition boundToolText :: "(string \<Rightarrow> int) \<Rightarrow> string \<Rightarrow> int \<Rightarrow> string \<times> bool" where
  "boundToolText counter text maxTokens =
     (let projected = omitInlineMediaPayloads text
      in if int (length projected) > maxTokens * 4 \<or> counter projected > maxTokens then
           if maxTokens \<le> 0 then ('''', True)
           else
             (let marker = (if int (length cut_marker) > maxTokens * 4 \<or> counter cut_marker > maxTokens
                            then '''' else cut_marker)
              in (bound_search counter projected marker maxTokens 0
                    (min (int (length projected)) (maxTokens * 4 - int (length marker))) marker, True))
         else (projected, projected \<noteq> text))"

section \<open>Projecting messages\<close>

definition project_result_text ::
  "(string \<Rightarrow> int) \<Rightarrow> (goany \<Rightarrow> string option) \<Rightarrow> int \<Rightarrow> ToolResult \<Rightarrow> ToolResult \<times> bool"
where
  "project_result_text counter marshal resultTokens tr =
     (if tr_JSON tr \<noteq> AnyNil then
        (case marshal (tr_JSON tr) of
           None \<Rightarrow> (tr, False)
         | Some encoded \<Rightarrow>
             (case boundToolText counter encoded resultTokens of
                (text, bounded) \<Rightarrow>
                  if bounded then
                    (tr\<lparr>tr_JSON := AnyNil, tr_Text := text,
                        tr_Type := (if tr_Type tr = ToolResultTypeErrorJSON then ToolResultTypeErrorText
                                    else ToolResultTypeText)\<rparr>, True)
                  else (tr, False)))
      else
        (case boundToolText counter (tr_Text tr) resultTokens of
           (text, bounded) \<Rightarrow> if bounded then (tr\<lparr>tr_Text := text\<rparr>, True) else (tr, False)))"

definition project_content_part ::
  "(string \<Rightarrow> int) \<Rightarrow> int \<Rightarrow> ToolResultContentPart \<Rightarrow> ToolResultContentPart \<times> bool"
where
  "project_content_part counter resultTokens cp =
     (if trc_Type cp = ContentTypeText then
        (case boundToolText counter (trc_Text cp) resultTokens of
           (text, bounded) \<Rightarrow> if bounded then (cp\<lparr>trc_Text := text\<rparr>, True) else (cp, False))
      else (cp, False))"

definition project_tool_result ::
  "(string \<Rightarrow> int) \<Rightarrow> (goany \<Rightarrow> string option) \<Rightarrow> int \<Rightarrow> ToolResult \<Rightarrow> ToolResult"
where
  "project_tool_result counter marshal maxResultTokens tr0 =
     (let resultTokens = (if tr_ToolName tr0 = ''spawn'' then max maxResultTokens 16000 else maxResultTokens);
          (tr, changed) = project_result_text counter marshal resultTokens tr0;
          parts = map (project_content_part counter resultTokens) (tr_Content tr0);
          changed' = (changed \<or> list_ex snd parts)
      in if changed' then tr\<lparr>tr_Content := map fst parts\<rparr> else tr0)"

definition project_part ::
  "(string \<Rightarrow> int) \<Rightarrow> (goany \<Rightarrow> string option) \<Rightarrow> int \<Rightarrow> ContentPart \<Rightarrow> ContentPart"
where
  "project_part counter marshal maxResultTokens part =
     (if cp_Type part = ContentTypeText \<or> cp_Type part = ContentTypeReasoning
      then part\<lparr>cp_Text := omitInlineMediaPayloads (cp_Text part)\<rparr>
      else if cp_Type part = ContentTypeToolCall
      then part\<lparr>cp_ToolCall := map_option (\<lambda>tc. tc\<lparr>tc_Arguments := omitInlineMediaPayloads (tc_Arguments tc)\<rparr>)
             (cp_ToolCall part)\<rparr>
      else if cp_Type part = ContentTypeToolResult
      then part\<lparr>cp_ToolResult := map_option (project_tool_result counter marshal maxResultTokens) (cp_ToolResult part)\<rparr>
      else part)"

section \<open>Counting\<close>

definition nominalMediaTokens :: "MediaPart option \<Rightarrow> int" where
  "nominalMediaTokens media = (if media = None then 0 else 256)"

definition count_result_part :: "(string \<Rightarrow> int) \<Rightarrow> ToolResultContentPart \<Rightarrow> int" where
  "count_result_part counter cp =
     (if trc_Type cp = ContentTypeText then counter (omitInlineMediaPayloads (trc_Text cp))
      else if trc_Type cp = ContentTypeImage then nominalMediaTokens (trc_Image cp)
      else 0)"

definition result_text :: "(goany \<Rightarrow> string option) \<Rightarrow> ToolResult \<Rightarrow> string" where
  "result_text marshal tr =
     (if tr_JSON tr \<noteq> AnyNil then (case marshal (tr_JSON tr) of None \<Rightarrow> tr_Text tr | Some e \<Rightarrow> e) else tr_Text tr)"

definition count_part :: "(string \<Rightarrow> int) \<Rightarrow> (goany \<Rightarrow> string option) \<Rightarrow> ContentPart \<Rightarrow> int" where
  "count_part counter marshal part =
     (if cp_Type part = ContentTypeText \<or> cp_Type part = ContentTypeReasoning
      then counter (omitInlineMediaPayloads (cp_Text part))
      else if cp_Type part = ContentTypeToolCall
      then (case cp_ToolCall part of
              None \<Rightarrow> 0
            | Some tc \<Rightarrow> counter (tc_Name tc) + counter (omitInlineMediaPayloads (tc_Arguments tc)))
      else if cp_Type part = ContentTypeToolResult
      then (case cp_ToolResult part of
              None \<Rightarrow> 0
            | Some tr \<Rightarrow> counter (omitInlineMediaPayloads (result_text marshal tr)) +
                sum_list (map (count_result_part counter) (tr_Content tr)))
      else if cp_Type part = ContentTypeImage then nominalMediaTokens (cp_Image part)
      else if cp_Type part = ContentTypeAudio then nominalMediaTokens (cp_Audio part)
      else 0)"

definition count_message :: "(string \<Rightarrow> int) \<Rightarrow> (goany \<Rightarrow> string option) \<Rightarrow> Message \<Rightarrow> int" where
  "count_message counter marshal msg = 4 + sum_list (map (count_part counter marshal) (msg_Content msg))"

section \<open>A cut text fits its budget\<close>

lemma rune_back_le: "rune_back s lo j \<le> j"
  by (induction j) auto

lemma bound_search_cases:
  "bound_search counter projected marker maxTokens low high best = best \<or>
   (\<exists>e. e \<le> nat high \<and> bound_search counter projected marker maxTokens low high best = take e projected @ marker \<and>
      (\<exists>j. e = rune_back projected 0 j) \<and> counter (take e projected @ marker) \<le> maxTokens)" if "0 \<le> low"
  using that
proof (induction counter projected marker maxTokens low high best rule: bound_search.induct)
  case (1 counter projected marker maxTokens low high best)
  show ?case
  proof (cases "low \<le> high")
    case False
    then show ?thesis by (simp add: bound_search.simps)
  next
    case True
    define mid where "mid = low + (high - low) div 2"
    define candidate where "candidate = take (rune_back projected 0 (nat mid)) projected @ marker"
    have mid: "low \<le> mid" "mid \<le> high"
      using True by (auto simp: mid_def)
    have e: "rune_back projected 0 (nat mid) \<le> nat high"
      using rune_back_le [of projected 0 "nat mid"] mid by linarith
    show ?thesis
    proof (cases "counter candidate \<le> maxTokens")
      case fits: True
      have "bound_search counter projected marker maxTokens low high best =
          bound_search counter projected marker maxTokens (mid + 1) high candidate"
        using True fits by (simp add: bound_search.simps [of counter projected marker maxTokens low] mid_def candidate_def Let_def)
      then show ?thesis
        using 1(1) [OF True mid_def candidate_def fits] 1(3) mid e fits by (auto simp: candidate_def)
    next
      case exceeds: False
      have "bound_search counter projected marker maxTokens low high best =
          bound_search counter projected marker maxTokens low (mid - 1) best"
        using True exceeds by (simp add: bound_search.simps [of counter projected marker maxTokens low high] mid_def candidate_def Let_def)
      moreover have "nat (mid - 1) \<le> nat high" using mid by simp
      ultimately show ?thesis
        using 1(2) [OF True mid_def candidate_def exceeds] 1(3) by (auto dest: order_trans)
    qed
  qed
qed

text \<open>
  The outcome of a cut: either the text fits as projected, or it is a prefix that ends at the start
  of a rune, followed by a marker.
\<close>

lemma boundToolText_cases:
  assumes "boundToolText counter text maxTokens = (out, bounded)" "0 < maxTokens" "counter '''' \<le> maxTokens"
  shows "\<exists>e mk. out = take e (omitInlineMediaPayloads text) @ mk \<and> (mk = '''' \<or> mk = cut_marker) \<and>
    (e = length (omitInlineMediaPayloads text) \<or> (\<exists>j. e = rune_back (omitInlineMediaPayloads text) 0 j)) \<and>
    int (length out) \<le> maxTokens * 4 \<and> counter out \<le> maxTokens"
proof (cases "int (length (omitInlineMediaPayloads text)) > maxTokens * 4 \<or> counter (omitInlineMediaPayloads text) > maxTokens")
  case False
  then show ?thesis
    using assms by (intro exI [of _ "length (omitInlineMediaPayloads text)"] exI [of _ "''''"])
      (auto simp: boundToolText_def Let_def)
next
  case True
  define p where "p = omitInlineMediaPayloads text"
  define mk where "mk = (if int (length cut_marker) > maxTokens * 4 \<or> counter cut_marker > maxTokens then '''' else cut_marker)"
  define high where "high = min (int (length p)) (maxTokens * 4 - int (length mk))"
  have out: "out = bound_search counter p mk maxTokens 0 high mk"
    using assms(1,2) True by (auto simp: boundToolText_def Let_def p_def mk_def high_def split: if_splits)
  have mk: "int (length mk) \<le> maxTokens * 4" "counter mk \<le> maxTokens" "mk = '''' \<or> mk = cut_marker"
    using assms(2,3) by (auto simp: mk_def)
  have "\<exists>e. out = take e p @ mk \<and> (\<exists>j. e = rune_back p 0 j) \<and> e \<le> nat (maxTokens * 4 - int (length mk)) \<and> counter out \<le> maxTokens"
  proof (cases "out = mk")
    case True
    then show ?thesis
      using mk(2) by (intro exI [of _ 0]) (auto intro: exI [of _ 0])
  next
    case False
    then obtain e where "e \<le> nat high" "out = take e p @ mk" "\<exists>j. e = rune_back p 0 j" "counter out \<le> maxTokens"
      using bound_search_cases [of 0 counter p mk maxTokens high mk] unfolding out by auto
    then show ?thesis
      by (intro exI [of _ e]) (auto simp: high_def)
  qed

  then obtain e j where e: "out = take e p @ mk" "e = rune_back p 0 j" "e \<le> nat (maxTokens * 4 - int (length mk))"
    "counter out \<le> maxTokens" by blast
  have "length out \<le> e + length mk"
    unfolding e(1) by simp
  then have "int (length out) \<le> maxTokens * 4"
    using mk(1) e(3) by linarith
  then show ?thesis
    using e mk(3) unfolding p_def by blast
qed

section \<open>Projection is idempotent\<close>

text \<open>Strings a scan for a tag cannot end in the middle of.\<close>

lemma str_index_Some_iff:
  "str_index sub s = Some i \<longleftrightarrow> prefix sub (drop i s) \<and> i \<le> length s \<and> (\<forall>k < i. \<not> prefix sub (drop k s))"
proof (induction s arbitrary: i)
  case Nil
  then show ?case by (auto simp: str_index.simps)
next
  case (Cons c s)
  show ?case
  proof (cases i)
    case 0
    then show ?thesis by (auto simp: str_index.simps [of sub "c # s"])
  next
    case (Suc n)
    have "(\<forall>k < Suc n. \<not> prefix sub (drop k (c # s))) \<longleftrightarrow> \<not> prefix sub (c # s) \<and> (\<forall>k < n. \<not> prefix sub (drop k s))"
      using All_less_Suc2 [of n "\<lambda>k. \<not> prefix sub (drop k (c # s))"] by simp
    then show ?thesis
      using Cons.IH [of n] Suc by (auto simp: str_index.simps [of sub "c # s"])
  qed
qed

lemma str_index_None_iff: "str_index sub s = None \<longleftrightarrow> (\<forall>k \<le> length s. \<not> prefix sub (drop k s))"
proof (induction s)
  case Nil
  then show ?case by (auto simp: str_index.simps)
next
  case (Cons c s)
  have "(\<forall>k \<le> Suc (length s). \<not> prefix sub (drop k (c # s))) \<longleftrightarrow>
      \<not> prefix sub (c # s) \<and> (\<forall>k \<le> length s. \<not> prefix sub (drop k s))"
    by (metis Suc_le_mono drop0 drop_Suc_Cons le0 not0_implies_Suc)
  then show ?case
    using Cons.IH by (auto simp: str_index.simps [of sub "c # s"])
qed

text \<open>An occurrence depends only on the part of the text that ends with it.\<close>

lemma str_index_append:
  assumes "str_index sub s = Some i"
  shows "str_index sub (take (i + length sub + n) s @ t) = Some i"
proof -
  have pre: "prefix sub (drop i s)" "i + length sub \<le> length s" and least: "\<forall>k < i. \<not> prefix sub (drop k s)"
    using assms str_index_bound [OF assms] by (auto simp: str_index_Some_iff)
  let ?s = "take (i + length sub + n) s @ t"
  have same: "take (length sub) (drop k ?s) = take (length sub) (drop k s)" if "k \<le> i" for k
    using that pre(2) by (simp add: take_drop min_def)
  have "prefix sub (drop i ?s)"
    using pre(1) same [of i] by (metis order_refl prefix_def take_is_prefix append_eq_conv_conj)
  moreover have "\<not> prefix sub (drop k ?s)" if "k < i" for k
    using least that same [of k] by (metis less_imp_le_nat prefix_def take_is_prefix append_eq_conv_conj)
  ultimately show ?thesis
    using pre(2) by (simp add: str_index_Some_iff)
qed

text \<open>Texts without the opening tag, or without the second tag after it, are left alone.\<close>

lemma str_index_None_drop: "str_index sub s = None \<Longrightarrow> str_index sub (drop n s) = None"
proof (cases "n \<le> length s")
  case True
  assume "str_index sub s = None"
  then show ?thesis
    using True by (auto simp: str_index_None_iff add.commute)
next
  case False
  assume none: "str_index sub s = None"
  then have "sub \<noteq> []" by (auto simp: str_index.simps)
  then show ?thesis using False by (simp add: str_index.simps)
qed

lemma omit_loop_no_payload:
  assumes "\<And>i. str_index data_tag s = Some i \<Longrightarrow> str_index base64_tag (drop i s) = None"
  shows "omit_loop s = s"
  using assms
proof (induction s rule: omit_loop.induct)
  case (1 s)
  show ?case
  proof (cases "str_index data_tag s")
    case None
    then show ?thesis by (simp add: omit_loop.simps [of s])
  next
    case (Some i)
    then have none: "str_index base64_tag (drop i s) = None" by (rule 1(4))
    have "str_index base64_tag (drop k (drop (i + length data_tag) s)) = None" for k
      using str_index_None_drop [OF none, of "length data_tag + k"] by (simp add: add.commute add.left_commute)
    then have "omit_loop (drop (i + length data_tag) s) = drop (i + length data_tag) s"
      by (intro 1(1) [OF Some none]) auto
    then show ?thesis
      using Some none by (simp add: omit_loop.simps [of s])
  qed
qed

text \<open>A prefix in which no tag starts is copied.\<close>

lemma omit_loop_copy:
  assumes "\<And>k. k < length p \<Longrightarrow> \<not> prefix data_tag (drop k (p @ u))"
  shows "omit_loop (p @ u) = p @ omit_loop u"
proof (cases "str_index data_tag u")
  case None
  have "\<not> prefix data_tag (drop k (p @ u))" if "k \<le> length (p @ u)" for k
    using assms [of k] None that by (cases "k < length p") (auto simp: str_index_None_iff)
  then have "str_index data_tag (p @ u) = None" by (simp add: str_index_None_iff)
  then show ?thesis using None by (simp add: omit_loop.simps)
next
  case (Some i)
  then have i: "prefix data_tag (drop i u)" "i \<le> length u" "\<And>k. k < i \<Longrightarrow> \<not> prefix data_tag (drop k u)"
    by (auto simp: str_index_Some_iff)
  have least: "\<not> prefix data_tag (drop k (p @ u))" if "k < length p + i" for k
    using assms [of k] i(3) [of "k - length p"] that by (cases "k < length p") auto
  have "str_index data_tag (p @ u) = Some (length p + i)"
    unfolding str_index_Some_iff using i(1,2) least by (intro conjI allI impI) auto
  then show ?thesis
    using Some by (simp add: omit_loop.simps [of "p @ u"] omit_loop.simps [of u] Let_def add.assoc split: option.split)
qed

text \<open>A tag pair without a payload is copied too, whatever follows it.\<close>

lemma omit_loop_empty_payload:
  assumes i: "str_index data_tag s = Some i" and j: "str_index base64_tag (drop i s) = Some j"
    and t: "takeWhile isBase64Byte t = []"
  shows "omit_loop (take (i + j + length base64_tag) s @ t) = take (i + j + length base64_tag) s @ omit_loop t"
proof -
  define ps where "ps = i + j + length base64_tag"
  define s' where "s' = take ps s @ t"
  have len: "ps \<le> length s" "i \<le> length s"
    using str_index_bound [OF j] str_index_bound [OF i] by (auto simp: ps_def)
  have far: "i + length data_tag \<le> ps"
  proof -
    have "prefix base64_tag (drop (i + j) s)" "prefix data_tag (drop i s)"
      using i j by (auto simp: str_index_Some_iff add.commute)
    then show ?thesis
      by (cases "j = 0") (auto simp: ps_def prefix_def data_tag_def base64_tag_def)
  qed
  have i': "str_index data_tag s' = Some i"
    using str_index_append [OF i, of "ps - (i + length data_tag)" t] far by (simp add: s'_def)
  have drop_s': "drop i s' = take (j + length base64_tag) (drop i s) @ t"
    using len far by (simp add: s'_def ps_def drop_take)
  have j': "str_index base64_tag (drop i s') = Some j"
    using str_index_append [OF j, of 0 t] by (simp add: drop_s')
  have "drop ps s' = t" "take ps s' = take ps s"
    using len by (simp_all add: s'_def)
  then show ?thesis
    using i' j' t by (simp add: omit_loop.simps [of s'] ps_def [symmetric] s'_def [symmetric] Let_def)
qed

text \<open>An occurrence cannot reach into a text whose first byte the tag does not contain.\<close>

lemma prefix_drop_append:
  assumes "prefix sub (drop k (a @ b))" "k \<le> length a" "b = [] \<or> hd b \<notin> set sub"
  shows "prefix sub (drop k a)"
proof -
  have "prefix sub (drop k a @ b)" using assms(1,2) by simp
  then obtain us where "prefix sub (drop k a) \<or> sub = drop k a @ us \<and> prefix us b"
    by (auto simp: prefix_append)
  moreover have "us = []" if "prefix us b" "sub = drop k a @ us"
    using that assms(3) by (cases us) (auto simp: prefix_def)
  ultimately show ?thesis by auto
qed

lemma omit_loop_head:
  assumes "takeWhile isBase64Byte s = []"
  shows "takeWhile isBase64Byte (omit_loop s) = []"
proof (cases s)
  case Nil
  then show ?thesis by (simp add: omit_loop.simps str_index.simps data_tag_def)
next
  case (Cons c u)
  then have c: "\<not> isBase64Byte c" using assms by (auto split: if_splits)
  moreover have "isBase64Byte CHR ''d''" by code_simp
  ultimately have "c \<noteq> CHR ''d''" by auto
  then have "omit_loop (c # u) = c # omit_loop u"
    using omit_loop_copy [of "[c]" u] by (simp add: data_tag_def)
  then show ?thesis using Cons c by simp
qed

lemma media_marker_no_tag:
  assumes "k < length media_marker"
  shows "\<not> prefix data_tag (drop k (media_marker @ u))"
proof
  assume "prefix data_tag (drop k (media_marker @ u))"
  then consider "prefix data_tag (drop k media_marker)" | us where "data_tag = drop k media_marker @ us"
    using assms by (auto simp: prefix_append)
  then show False
  proof cases
    case 1
    moreover have "str_index data_tag media_marker = None" by code_simp
    ultimately show ?thesis using assms by (auto simp: str_index_None_iff)
  next
    case 2
    have "last media_marker \<in> set (drop k media_marker)"
      using assms last_drop [of k media_marker] by (metis drop_eq_Nil last_in_set linorder_not_le)
    then have "last media_marker \<in> set data_tag" unfolding 2 by simp
    then show ?thesis by (simp add: media_marker_def data_tag_def)
  qed
qed

lemma omit_loop_marker:
  assumes i: "str_index data_tag s = Some i"
  shows "omit_loop (take i s @ media_marker @ u) = take i s @ media_marker @ omit_loop u"
proof -
  have len: "i \<le> length s" and least: "\<And>k. k < i \<Longrightarrow> \<not> prefix data_tag (drop k s)"
    using i by (auto simp: str_index_Some_iff)
  have "\<not> prefix data_tag (drop k ((take i s @ media_marker) @ u))" if k: "k < length (take i s @ media_marker)" for k
  proof (cases "k < i")
    case True
    have "prefix (drop k (take i s)) (drop k s)"
      by (metis append_take_drop_id drop_append prefix_def)
    then have "\<not> prefix data_tag (drop k (take i s))"
      using least [OF True] prefix_order.trans by blast
    then show ?thesis
      using prefix_drop_append [of data_tag k "take i s" "media_marker @ u"] True len
      by (auto simp: media_marker_def data_tag_def)
  next
    case False
    then show ?thesis
      using media_marker_no_tag [of "k - i" u] k len by simp
  qed
  then show ?thesis
    using omit_loop_copy [of "take i s @ media_marker" u] by simp
qed

lemma omit_loop_idem: "omit_loop (omit_loop s) = omit_loop s"
proof (induction s rule: omit_loop.induct)
  case (1 s)
  show ?case
  proof (cases "str_index data_tag s")
    case None
    then show ?thesis by (simp add: omit_loop.simps [of s])
  next
    case i: (Some i)
    show ?thesis
    proof (cases "str_index base64_tag (drop i s)")
      case None
      then have "omit_loop s = s" using i by (intro omit_loop_no_payload) simp
      then show ?thesis by simp
    next
      case j: (Some j)
      define ps where "ps = i + j + length base64_tag"
      define payload where "payload = takeWhile isBase64Byte (drop ps s)"
      show ?thesis
      proof (cases "payload = []")
        case True
        have "omit_loop s = take ps s @ omit_loop (drop ps s)"
          using i j True by (simp add: omit_loop.simps [of s] ps_def payload_def Let_def)
        moreover have "omit_loop (take ps s @ omit_loop (drop ps s)) = take ps s @ omit_loop (omit_loop (drop ps s))"
          using omit_loop_empty_payload [OF i j, of "omit_loop (drop ps s)"] omit_loop_head [of "drop ps s"] True
          by (simp add: ps_def payload_def)
        ultimately show ?thesis
          using 1(2) [OF i j ps_def payload_def] True by simp
      next
        case False
        have "omit_loop s = take i s @ media_marker @ omit_loop (drop (ps + length payload) s)"
          using i j False by (simp add: omit_loop.simps [of s] ps_def payload_def Let_def)
        then show ?thesis
          using 1(3) [OF i j ps_def payload_def refl False] omit_loop_marker [OF i] by simp
      qed
    qed
  qed
qed

text \<open>What a cut may leave behind the prefix: nothing, or a text that starts neither tag.\<close>

definition harmless :: "string \<Rightarrow> bool" where
  "harmless mk \<longleftrightarrow> mk = '''' \<or> mk = cut_marker"

lemma harmless_facts:
  assumes "harmless mk"
  shows "mk = [] \<or> hd mk \<notin> set data_tag" "mk = [] \<or> hd mk \<notin> set base64_tag" "takeWhile isBase64Byte mk = []"
    "\<not> prefix data_tag (drop k mk)" "\<not> prefix base64_tag (drop k mk)" "ValidString mk"
proof -
  have mk: "mk = '''' \<or> mk = [CHR 0x0A, CHR 0x0A] @ ''[... truncated ...]''"
    using assms by (auto simp: harmless_def cut_marker_def)
  then show "mk = [] \<or> hd mk \<notin> set data_tag" "mk = [] \<or> hd mk \<notin> set base64_tag" "takeWhile isBase64Byte mk = []"
    "ValidString mk"
    by (auto simp: data_tag_def base64_tag_def isBase64Byte_def byte_def ValidString_def)
  have "CHR '':'' \<notin> set mk" "CHR '';'' \<notin> set mk" using mk by auto
  then show "\<not> prefix data_tag (drop k mk)" "\<not> prefix base64_tag (drop k mk)"
    by (auto simp: data_tag_def base64_tag_def dest!: set_mono_prefix) (meson in_set_dropD)+
qed

lemma occurs_in_cut:
  assumes "prefix sub (drop k (take e p @ mk))" "mk = [] \<or> hd mk \<notin> set sub" "\<And>k. \<not> prefix sub (drop k mk)"
  shows "prefix sub (drop k p) \<and> k + length sub \<le> e"
proof -
  have k: "k < length (take e p)"
    using assms(1) assms(3) [of "k - length (take e p)"] by (cases "k < length (take e p)") auto
  then have pre: "prefix sub (drop k (take e p))"
    using prefix_drop_append [OF assms(1)] assms(2) by simp
  then have "prefix sub (take (e - k) (drop k p))" by (simp add: drop_take)
  then have "prefix sub (drop k p)"
    using take_is_prefix prefix_order.trans by blast
  moreover have "length sub \<le> e - k"
    using prefix_length_le [OF \<open>prefix sub (take (e - k) (drop k p))\<close>] by simp
  ultimately show ?thesis using k by auto
qed

lemma cut_no_payload:
  assumes mk: "harmless mk"
    and none: "\<And>i k. prefix data_tag (drop i p) \<Longrightarrow> prefix base64_tag (drop (i + k) p) \<Longrightarrow> i + k + length base64_tag > e"
  shows "omit_loop (take e p @ mk) = take e p @ mk"
proof (rule omit_loop_no_payload)
  fix i
  assume "str_index data_tag (take e p @ mk) = Some i"
  then have "prefix data_tag (drop i (take e p @ mk))" by (simp add: str_index_Some_iff)
  then have i: "prefix data_tag (drop i p)"
    using occurs_in_cut harmless_facts [OF mk] by blast
  have "\<not> prefix base64_tag (drop k (drop i (take e p @ mk)))" for k
  proof
    assume "prefix base64_tag (drop k (drop i (take e p @ mk)))"
    then have "prefix base64_tag (drop (i + k) (take e p @ mk))"
      by (simp only: drop_drop add.commute)
    then have "prefix base64_tag (drop (i + k) p) \<and> i + k + length base64_tag \<le> e"
      using occurs_in_cut harmless_facts [OF mk] by blast
    then show False using none [OF i, of k] by simp
  qed
  then show "str_index base64_tag (drop i (take e p @ mk)) = None"
    by (simp add: str_index_None_iff)
qed

text \<open>Cutting a projected text leaves nothing to omit.\<close>

lemma omit_loop_cut:
  assumes "omit_loop p = p" "harmless mk"
  shows "omit_loop (take e p @ mk) = take e p @ mk"
  using assms(1)
proof (induction p arbitrary: e rule: omit_loop.induct)
  case (1 p)
  show ?case
  proof (cases "str_index data_tag p")
    case None
    then have "\<not> prefix data_tag (drop k p)" for k
      using str_index_None_iff [of data_tag p] by (cases "k \<le> length p") (auto simp: data_tag_def)
    then show ?thesis by (intro cut_no_payload [OF assms(2)]) blast
  next
    case i: (Some i)
    then have first: "prefix data_tag (drop k p) \<Longrightarrow> i \<le> k" for k
      by (meson leI str_index_Some_iff)
    show ?thesis
    proof (cases "str_index base64_tag (drop i p)")
      case None
      have "\<not> prefix base64_tag (drop (k + m) p)" if "i \<le> k" for k m
        using str_index_None_drop [OF None, of "k + m - i"] that
        by (auto simp: str_index_None_iff dest: spec [of _ 0])
      then show ?thesis using first by (intro cut_no_payload [OF assms(2)]) blast
    next
      case j: (Some j)
      define ps where "ps = i + j + length base64_tag"
      define payload where "payload = takeWhile isBase64Byte (drop ps p)"
      have len: "ps \<le> length p" using str_index_bound [OF j] str_index_bound [OF i] by (auto simp: ps_def)
      have least: "j \<le> m" if "prefix base64_tag (drop (i + m) p)" for m
        using j that by (auto simp: str_index_Some_iff add.commute intro: leI)
      show ?thesis
      proof (cases "payload = []")
        case True
        have "take ps p @ omit_loop (drop ps p) = take ps p @ drop ps p"
          using i j True 1(4) by (simp add: omit_loop.simps [of p] ps_def payload_def Let_def)
        then have rest: "omit_loop (drop ps p) = drop ps p" by (simp only: same_append_eq)
        show ?thesis
        proof (cases "ps \<le> e")
          case le: True
          let ?t = "take (e - ps) (drop ps p) @ mk"
          have "takeWhile isBase64Byte ?t = []"
            using True harmless_facts(3) [OF assms(2)] unfolding payload_def
            by (cases "drop ps p"; cases "e - ps") (auto split: if_splits)
          then have "omit_loop (take ps p @ ?t) = take ps p @ omit_loop ?t"
            using omit_loop_empty_payload [OF i j] by (simp add: ps_def)
          moreover have "take e p @ mk = take ps p @ ?t"
            using le by (simp add: take_add [symmetric])
          ultimately show ?thesis
            using 1(2) [OF i j ps_def payload_def] True rest by simp
        next
          case False
          have "k + m + length base64_tag > e" if "prefix data_tag (drop k p)" "prefix base64_tag (drop (k + m) p)" for k m
            using least [of "k + m - i"] first [OF that(1)] that(2) False by (simp add: ps_def)
          then show ?thesis by (intro cut_no_payload [OF assms(2)])
        qed
      next
        case False
        have "take i p @ media_marker @ omit_loop (drop (ps + length payload) p) = p"
          using i j False 1(4) by (simp add: omit_loop.simps [of p] ps_def payload_def Let_def)
        then have "drop i p = media_marker @ omit_loop (drop (ps + length payload) p)"
          using str_index_bound [OF i] by (metis add_leD1 append_eq_conv_conj append_take_drop_id length_take min.absorb2)
        then have "hd (drop i p) = CHR ''[''" by (simp add: media_marker_def)
        moreover have "hd (drop i p) = CHR ''d''"
          using i by (auto simp: str_index_Some_iff data_tag_def prefix_def)
        ultimately show ?thesis by simp
      qed
    qed
  qed
qed

lemma omit_loop_valid: "ValidString s \<Longrightarrow> ValidString (omit_loop s)"
proof (induction s rule: omit_loop.induct)
  case (1 s)
  show ?case
  proof (cases "str_index data_tag s")
    case None
    then show ?thesis using 1(4) by (simp add: omit_loop.simps [of s])
  next
    case i: (Some i)
    have pre: "prefix data_tag (drop i s)" "i + length data_tag \<le> length s"
      using i str_index_bound [OF i] by (auto simp: str_index_Some_iff)
    show ?thesis
    proof (cases "str_index base64_tag (drop i s)")
      case None
      have "omit_loop s = s"
        using i None by (intro omit_loop_no_payload) simp
      then show ?thesis using 1(4) by simp
    next
      case j: (Some j)
      define ps where "ps = i + j + length base64_tag"
      define payload where "payload = takeWhile isBase64Byte (drop ps s)"
      have len: "ps \<le> length s" "0 < ps"
        using str_index_bound [OF j] pre(2) by (auto simp: ps_def base64_tag_def)
      show ?thesis
      proof (cases "payload = []")
        case True
        have "prefix base64_tag (drop (i + j) s)" using j by (auto simp: str_index_Some_iff add.commute)
        then have "s ! (ps - 1) = CHR '',''"
          using len by (auto simp: ps_def prefix_def base64_tag_def nth_append numeral_eq_Suc dest!: arg_cong [of _ _ "\<lambda>xs. xs ! 7"])
        then have "ValidString (take ps s) \<and> ValidString (drop ps s)"
          using ValidString_split_after [OF 1(4) len(2,1)] by (simp add: byte_def)
        then show ?thesis
          using i j True 1(2) [OF i j ps_def payload_def]
          by (simp add: omit_loop.simps [of s] ps_def payload_def Let_def ValidString_append)
      next
        case False
        let ?e = "ps + length payload"
        have pay: "take ?e s = take ps s @ payload"
          unfolding payload_def by (simp add: take_add takeWhile_eq_take [symmetric])
        have "?e \<le> length s" using len length_takeWhile_le [of isBase64Byte "drop ps s"] by (simp add: payload_def)
        moreover have "s ! (?e - 1) = last payload"
        proof -
          have "s ! (?e - 1) = take ?e s ! (?e - 1)" using False by simp
          also have "\<dots> = payload ! (?e - 1 - ps)" using False len unfolding pay by (cases payload) (simp_all add: nth_append)
          finally show ?thesis using False by (simp add: last_conv_nth)
        qed
        moreover have "isBase64Byte (last payload)"
          using False last_in_set [of payload] set_takeWhileD [of "last payload"] unfolding payload_def by blast
        ultimately have "ValidString (drop ?e s)"
          using ValidString_split_after [OF 1(4), of ?e] False by (auto simp: isBase64Byte_def byte_def)
        moreover have "s ! i = CHR ''d''"
          using pre by (auto simp: prefix_def data_tag_def dest: nth_via_drop)
        then have "ValidString (take i s)"
          using ValidString_split_before [OF 1(4), of i] pre(2) by (simp add: RuneStart_def byte_def data_tag_def)
        moreover have "ValidString media_marker" by code_simp
        ultimately show ?thesis
          using i j False 1(3) [OF i j ps_def payload_def refl]
          by (simp add: omit_loop.simps [of s] ps_def payload_def Let_def ValidString_append)
      qed
    qed
  qed
qed

lemma omitInline_valid: "ValidString (omitInlineMediaPayloads s)"
  by (simp add: omitInlineMediaPayloads_def omit_loop_valid ValidString_to_valid_utf8)

lemma omitInline_idem [simp]: "omitInlineMediaPayloads (omitInlineMediaPayloads s) = omitInlineMediaPayloads s"
  using omitInline_valid [of s] by (simp add: omitInlineMediaPayloads_def omit_loop_idem)

lemma omitInline_cut:
  assumes "harmless mk" "e = length (omitInlineMediaPayloads s) \<or> (\<exists>j. e = rune_back (omitInlineMediaPayloads s) 0 j)"
  shows "omitInlineMediaPayloads (take e (omitInlineMediaPayloads s) @ mk) = take e (omitInlineMediaPayloads s) @ mk"
proof -
  let ?p = "omitInlineMediaPayloads s"
  have "omit_loop ?p = ?p"
    by (simp add: omitInlineMediaPayloads_def omit_loop_idem)
  then have omit: "omit_loop (take e ?p @ mk) = take e ?p @ mk"
    using omit_loop_cut assms(1) by blast
  have "ValidString (take e ?p)"
  proof (cases "e \<ge> length ?p")
    case True
    then show ?thesis using omitInline_valid [of s] by simp
  next
    case False
    then obtain j where j: "e = rune_back ?p 0 j" using assms(2) by auto
    have "e = 0 \<or> RuneStart (?p ! e)"
      using False unfolding j by (induction j) auto
    then show ?thesis
      using ValidString_split_before [OF omitInline_valid, of e s] False by (cases "e = 0") auto
  qed
  then have "ValidString (take e ?p @ mk)"
    using ValidString_append harmless_facts(6) [OF assms(1)] by blast
  then show ?thesis
    using omit by (simp add: omitInlineMediaPayloads_def [of "take e ?p @ mk"])
qed

text \<open>A bounded text is bounded already: a second pass with the same budget reports no change.\<close>

lemma boundToolText_idem:
  assumes "counter '''' \<le> maxTokens" "0 < maxTokens"
  shows "boundToolText counter (fst (boundToolText counter text maxTokens)) maxTokens
    = (fst (boundToolText counter text maxTokens), False)"
proof -
  obtain out b where out: "boundToolText counter text maxTokens = (out, b)" by fastforce
  obtain e mk where e: "out = take e (omitInlineMediaPayloads text) @ mk" "harmless mk"
    "e = length (omitInlineMediaPayloads text) \<or> (\<exists>j. e = rune_back (omitInlineMediaPayloads text) 0 j)"
    "int (length out) \<le> maxTokens * 4" "counter out \<le> maxTokens"
    using boundToolText_cases [OF out assms(2,1)] unfolding harmless_def by blast
  then have "omitInlineMediaPayloads out = out"
    using omitInline_cut by metis
  then show ?thesis
    using e(4,5) unfolding out fst_conv by (simp add: boundToolText_def Let_def)
qed

lemma boundToolText_False: "boundToolText counter text n = (out, False) \<Longrightarrow> out = text"
  by (auto simp: boundToolText_def Let_def split: if_splits)

lemma project_result_text_idem:
  assumes "counter '''' \<le> n" "0 < n"
  shows "project_result_text counter marshal n (fst (project_result_text counter marshal n tr))
    = (fst (project_result_text counter marshal n tr), False)"
proof -
  have twice: "boundToolText counter out n = (out, False)" if "boundToolText counter s n = (out, b)" for s out b
    using boundToolText_idem [of counter n s, OF assms] that by simp
  show ?thesis
  proof (cases "tr_JSON tr = AnyNil")
    case True
    obtain out b where "boundToolText counter (tr_Text tr) n = (out, b)" by fastforce
    then show ?thesis
      using True twice by (cases b) (auto simp: project_result_text_def)
  next
    case False
    show ?thesis
    proof (cases "marshal (tr_JSON tr)")
      case (Some encoded)
      obtain out b where "boundToolText counter encoded n = (out, b)" by fastforce
      then show ?thesis
        using False Some twice by (cases b) (auto simp: project_result_text_def)
    qed (use False in \<open>simp add: project_result_text_def\<close>)
  qed
qed

lemma project_content_part_idem:
  assumes "counter '''' \<le> n" "0 < n"
  shows "project_content_part counter n (fst (project_content_part counter n cp)) = (fst (project_content_part counter n cp), False)"
proof -
  obtain out b where out: "boundToolText counter (trc_Text cp) n = (out, b)" by fastforce
  then have "boundToolText counter out n = (out, False)"
    using boundToolText_idem [of counter n "trc_Text cp", OF assms] by simp
  then show ?thesis
    using out by (cases b) (auto simp: project_content_part_def)
qed

lemma project_result_text_content: "tr_Content (fst (project_result_text counter marshal n tr)) = tr_Content tr"
  "tr_ToolName (fst (project_result_text counter marshal n tr)) = tr_ToolName tr"
  by (auto simp: project_result_text_def split: prod.splits option.splits)

lemma project_result_text_same: "\<not> snd (project_result_text counter marshal n tr) \<Longrightarrow> fst (project_result_text counter marshal n tr) = tr"
  by (auto simp: project_result_text_def split: prod.splits option.splits if_splits)

lemma project_content_part_same: "\<not> snd (project_content_part counter n cp) \<Longrightarrow> fst (project_content_part counter n cp) = cp"
  by (auto simp: project_content_part_def split: prod.splits if_splits)

lemma project_result_text_frame:
  "project_result_text counter marshal n (tr\<lparr>tr_Content := cs\<rparr>) =
     ((fst (project_result_text counter marshal n tr))\<lparr>tr_Content := cs\<rparr>, snd (project_result_text counter marshal n tr))"
  by (auto simp: project_result_text_def split: prod.splits option.splits)

lemma project_tool_result_alt:
  "project_tool_result counter marshal m tr =
     (let n = (if tr_ToolName tr = ''spawn'' then max m 16000 else m)
      in (fst (project_result_text counter marshal n tr))\<lparr>tr_Content := map (fst \<circ> project_content_part counter n) (tr_Content tr)\<rparr>)"
proof -
  define n where "n = (if tr_ToolName tr = ''spawn'' then max m 16000 else m)"
  have "map (fst \<circ> project_content_part counter n) cs = cs" if "\<not> list_ex snd (map (project_content_part counter n) cs)" for cs
    using that project_content_part_same by (induction cs) auto
  then show ?thesis
    using project_result_text_same [of counter marshal n tr] project_result_text_content(1) [of counter marshal n tr]
    by (cases "project_result_text counter marshal n tr")
      (auto simp: project_tool_result_def Let_def n_def [symmetric] comp_def)
qed

lemma project_tool_result_idem:
  assumes "counter '''' \<le> m" "0 < m"
  shows "project_tool_result counter marshal m (project_tool_result counter marshal m tr) = project_tool_result counter marshal m tr"
proof -
  define n where "n = (if tr_ToolName tr = ''spawn'' then max m 16000 else m)"
  have n: "counter '''' \<le> n" "0 < n" using assms by (auto simp: n_def)
  define cs where "cs = map (fst \<circ> project_content_part counter n) (tr_Content tr)"
  define tr' where "tr' = (fst (project_result_text counter marshal n tr))\<lparr>tr_Content := cs\<rparr>"
  have once: "project_tool_result counter marshal m tr = tr'"
    by (simp add: project_tool_result_alt n_def Let_def tr'_def cs_def)
  have name: "(if tr_ToolName tr' = ''spawn'' then max m 16000 else m) = n"
    by (simp add: project_result_text_content n_def tr'_def)
  have "project_tool_result counter marshal m tr' =
      (fst (project_result_text counter marshal n tr'))\<lparr>tr_Content := map (fst \<circ> project_content_part counter n) cs\<rparr>"
    using project_tool_result_alt [of counter marshal m tr'] unfolding name Let_def by (simp add: tr'_def)
  moreover have "fst (project_result_text counter marshal n tr') = tr'"
    using project_result_text_idem [of counter n, OF n] by (simp add: tr'_def project_result_text_frame)
  moreover have "map (fst \<circ> project_content_part counter n) cs = cs"
    using project_content_part_idem [of counter n, OF n] by (simp add: cs_def)
  ultimately show ?thesis
    by (simp add: once tr'_def)
qed

lemma project_part_idem:
  assumes "counter '''' \<le> m" "0 < m"
  shows "project_part counter marshal m (project_part counter marshal m p) = project_part counter marshal m p"
  using project_tool_result_idem [of counter m marshal, OF assms]
  by (auto simp: project_part_def option.map_comp comp_def)

end
