(* ===== verification/Compressor.thy ===== *)
theory Compressor
  imports Prompt_Projection Paths
begin

text \<open>
  The context compressor (\<open>core/services/compressor.go\<close>, \<open>context_usage.go\<close>): a conversation
  that outgrows the model's window is split, its older part is replaced by a summary, and its recent
  part is kept.

  A \<open>float64\<close> is a dyadic number \<open>m * 2^e\<close> and products are rounded to 53 bits, half to even.  The
  environment of a compression holds what the operating system and the rest of the program answer:
  \<open>json.Marshal\<close>, the iteration order of a Go map, the clock and the success of the file operations
  of a transcript, and the digest of a history.

  Shown: a compression either leaves the conversation alone or yields its system messages, one
  summary and a proper, non-empty suffix of the rest with strictly fewer tokens; a split at a safe
  boundary never separates a tool result from its call; and where no safe boundary exists the split
  may do so.
\<close>

section \<open>Floating point ratios\<close>

type_synonym float64 = "int \<times> int"

function bit_len :: "int \<Rightarrow> nat" where
  "bit_len n = (if n \<le> 0 then 0 else Suc (bit_len (n div 2)))"
  by auto
termination
  by (relation "measure nat") auto

declare bit_len.simps [simp del]

text \<open>The nearest dyadic with a 53-bit significand, ties to even.\<close>

definition round53 :: "float64 \<Rightarrow> float64" where
  "round53 x =
     (case x of (m, e) \<Rightarrow>
        let n = \<bar>m\<bar>; k = bit_len n - 53; q = n div 2 ^ k; r = n mod 2 ^ k;
            q' = (if 2 * r > 2 ^ k \<or> 2 * r = 2 ^ k \<and> odd q then q + 1 else q)
        in if k = 0 then (m, e) else (sgn m * q', e + int k))"

definition float_of_int :: "int \<Rightarrow> float64" where
  "float_of_int n = round53 (n, 0)"

definition float_mul :: "float64 \<Rightarrow> float64 \<Rightarrow> float64" where
  "float_mul x y = round53 (fst x * fst y, snd x + snd y)"

text \<open>Conversion to an integer cuts the fraction off.\<close>

definition int_of_float :: "float64 \<Rightarrow> int" where
  "int_of_float x =
     (case x of (m, e) \<Rightarrow> if 0 \<le> e then m * 2 ^ nat e else sgn m * (\<bar>m\<bar> div 2 ^ nat (- e)))"

definition scaled :: "int \<Rightarrow> float64 \<Rightarrow> int" where
  "scaled n ratio = int_of_float (float_mul (float_of_int n) ratio)"

section \<open>Configuration\<close>

record CompressorConfig =
  cc_ContextWindowSize :: int
  cc_TriggerRatio :: float64
  cc_TargetRatio :: float64
  cc_PreserveRatio :: float64
  cc_ToolOutputThreshold :: int
  cc_TokenCounter :: "(string \<Rightarrow> int) option"
  cc_TranscriptDir :: string

text \<open>A failed summary is told apart by whether the request was too long for the provider.\<close>

datatype summary_error = ErrContextLengthExceeded string | ErrSummary string

record Compressor =
  co_config :: CompressorConfig
  co_summarizer :: "(Message list \<Rightarrow> summary_error + string) option"
  co_counter :: "string \<Rightarrow> int"

definition DefaultContextWindow :: int where
  "DefaultContextWindow = 200000"

definition ratio_08 :: float64 where "ratio_08 = (3602879701896397, -52)"
definition ratio_05 :: float64 where "ratio_05 = (1, -1)"
definition ratio_03 :: float64 where "ratio_03 = (5404319552844595, -54)"

definition DefaultCompressorConfig :: CompressorConfig where
  "DefaultCompressorConfig =
     \<lparr>cc_ContextWindowSize = DefaultContextWindow, cc_TriggerRatio = ratio_08, cc_TargetRatio = ratio_05,
      cc_PreserveRatio = ratio_03, cc_ToolOutputThreshold = 2000, cc_TokenCounter = None, cc_TranscriptDir = ''''\<rparr>"

definition estimateTokens :: "string \<Rightarrow> int" where
  "estimateTokens text = (if text = '''' then 0 else (int (length text) + 3) div 4)"

text \<open>The library tokenizer, when it can be loaded, is the first argument.\<close>

definition NewCompressor :: "(string \<Rightarrow> int) option \<Rightarrow> CompressorConfig \<Rightarrow> Compressor" where
  "NewCompressor tokenizer cfg0 =
     (let ratio = (\<lambda>r d. if fst r \<le> 0 then d else r);
          counter = (case cc_TokenCounter cfg0 of
             Some f \<Rightarrow> f
           | None \<Rightarrow> (case tokenizer of Some f \<Rightarrow> f | None \<Rightarrow> estimateTokens));
          cfg = cfg0\<lparr>
            cc_ContextWindowSize := (if cc_ContextWindowSize cfg0 \<le> 0 then DefaultContextWindow else cc_ContextWindowSize cfg0),
            cc_TriggerRatio := ratio (cc_TriggerRatio cfg0) ratio_08,
            cc_TargetRatio := ratio (cc_TargetRatio cfg0) ratio_05,
            cc_PreserveRatio := ratio (cc_PreserveRatio cfg0) ratio_03,
            cc_ToolOutputThreshold := (if cc_ToolOutputThreshold cfg0 \<le> 0 then 2000 else cc_ToolOutputThreshold cfg0),
            cc_TokenCounter := Some counter\<rparr>
      in \<lparr>co_config = cfg, co_summarizer = None, co_counter = counter\<rparr>)"

definition SetSummarizer :: "Compressor \<Rightarrow> (Message list \<Rightarrow> summary_error + string) option \<Rightarrow> Compressor" where
  "SetSummarizer c s = c\<lparr>co_summarizer := s\<rparr>"

definition SetTranscriptDir :: "Compressor \<Rightarrow> string \<Rightarrow> Compressor" where
  "SetTranscriptDir c dir = c\<lparr>co_config := (co_config c)\<lparr>cc_TranscriptDir := dir\<rparr>\<rparr>"

definition SetContextWindow :: "Compressor \<Rightarrow> int \<Rightarrow> Compressor" where
  "SetContextWindow c n =
     c\<lparr>co_config := (co_config c)\<lparr>cc_ContextWindowSize := (if n \<le> 0 then DefaultContextWindow else n)\<rparr>\<rparr>"

record CompressionResult =
  cr_OriginalTokens :: int
  cr_CompressedTokens :: int
  cr_MessagesBefore :: nat
  cr_MessagesAfter :: nat
  cr_Summary :: string
  cr_Compressed :: bool
  cr_PartitionIndex :: nat
  cr_TranscriptPath :: string

record compress_env =
  ce_marshal :: "goany \<Rightarrow> string option"
  ce_order :: "string list \<Rightarrow> string list"
  ce_nano :: int
  ce_mkdir :: bool
  ce_create :: bool
  ce_encode :: "Message \<Rightarrow> bool"
  ce_digest :: "Message list \<Rightarrow> string"

section \<open>Projection and counting\<close>

definition truncateToolResults :: "compress_env \<Rightarrow> Compressor \<Rightarrow> Message list \<Rightarrow> int \<Rightarrow> Message list" where
  "truncateToolResults env c messages maxResultTokens0 =
     (let maxResultTokens = (if maxResultTokens0 \<le> 0 then cc_ToolOutputThreshold (co_config c) else maxResultTokens0)
      in map (\<lambda>msg. msg\<lparr>msg_Content := map (project_part (co_counter c) (ce_marshal env) maxResultTokens) (msg_Content msg)\<rparr>)
           messages)"

abbreviation ProjectPrompt :: "compress_env \<Rightarrow> Compressor \<Rightarrow> Message list \<Rightarrow> int \<Rightarrow> Message list" where
  "ProjectPrompt \<equiv> truncateToolResults"

definition countSingleMessage :: "compress_env \<Rightarrow> Compressor \<Rightarrow> Message \<Rightarrow> int" where
  "countSingleMessage env c msg = count_message (co_counter c) (ce_marshal env) msg"

definition countTokens :: "compress_env \<Rightarrow> Compressor \<Rightarrow> Message list \<Rightarrow> int" where
  "countTokens env c messages = sum_list (map (countSingleMessage env c) messages)"

definition CountTokens :: "compress_env \<Rightarrow> Compressor \<Rightarrow> Message list \<Rightarrow> int" where
  "CountTokens env c messages =
     countTokens env c (truncateToolResults env c messages (cc_ToolOutputThreshold (co_config c)))"

definition trigger :: "Compressor \<Rightarrow> int" where
  "trigger c = scaled (cc_ContextWindowSize (co_config c)) (cc_TriggerRatio (co_config c))"

definition NeedsCompression :: "compress_env \<Rightarrow> Compressor \<Rightarrow> Message list \<Rightarrow> bool" where
  "NeedsCompression env c messages \<longleftrightarrow> CountTokens env c messages > trigger c"

definition NeedsCompressionTokens :: "Compressor \<Rightarrow> int \<Rightarrow> bool" where
  "NeedsCompressionTokens c tokens \<longleftrightarrow> tokens > trigger c"

section \<open>Summaries without a model\<close>

record summaryData =
  sd_Goal :: string
  sd_Tools :: "string list"
  sd_Files :: "string list"
  sd_HasMore :: bool

definition firstSentence :: "string \<Rightarrow> nat \<Rightarrow> string" where
  "firstSentence text maxLen =
     (case str_index ''.'' text of
        Some idx \<Rightarrow>
          if 0 < idx \<and> idx < maxLen then take (idx + 1) text
          else if length text > maxLen then take maxLen text @ ''...'' else text
      | None \<Rightarrow> if length text > maxLen then take maxLen text @ ''...'' else text)"

definition path_key :: string where
  "path_key = [CHR 0x22] @ ''path'' @ [CHR 0x22]"

definition extractPath :: "string \<Rightarrow> string" where
  "extractPath argsJSON =
     (case str_index path_key argsJSON of
        None \<Rightarrow> ''''
      | Some idx \<Rightarrow>
          (let rest = drop (idx + length path_key) argsJSON
           in case str_index [CHR 0x22] rest of
                None \<Rightarrow> ''''
              | Some start \<Rightarrow>
                  (let rest = drop (start + 1) rest
                   in case str_index [CHR 0x22] rest of
                        None \<Rightarrow> ''''
                      | Some stop \<Rightarrow> if stop \<le> 0 then '''' else take stop rest)))"

definition part_goals :: "Message \<Rightarrow> ContentPart \<Rightarrow> string list" where
  "part_goals msg part =
     (if cp_Type part = ContentTypeText \<and> msg_Role msg = RoleUser \<and> \<not> IsContextualUser msg \<and> cp_Text part \<noteq> ''''
      then [firstSentence (cp_Text part) 150] else [])"

definition typed_calls :: "Message \<Rightarrow> ToolCall list" where
  "typed_calls msg =
     List.map_filter (\<lambda>part. if cp_Type part = ContentTypeToolCall then cp_ToolCall part else None) (msg_Content msg)"

text \<open>The loops over the two maps follow the order of the environment.\<close>

definition extractSummaryData :: "compress_env \<Rightarrow> Message list \<Rightarrow> summaryData" where
  "extractSummaryData env messages =
     (let goals = concat (map (\<lambda>msg. concat (map (part_goals msg) (msg_Content msg))) messages);
          calls = concat (map typed_calls messages);
          names = map tc_Name calls;
          fileSet = remdups (filter (\<lambda>p. p \<noteq> '''') (map (\<lambda>tc. extractPath (tc_Arguments tc)) calls))
      in \<lparr>sd_Goal = (case goals of [] \<Rightarrow> ''General conversation''
                     | [g] \<Rightarrow> g | g # _ \<Rightarrow> g @ '' (and related requests)''),
          sd_Tools = map (\<lambda>name. name @ '' ('' @ show_int (int (count_list names name)) @ '' times)'')
                       (ce_order env (remdups names)),
          sd_Files = take 10 (ce_order env fileSet),
          sd_HasMore = (length fileSet > 10)\<rparr>)"

abbreviation "nl \<equiv> [CHR 0x0A] :: string"

text \<open>The template \<open>simpleSummaryTmpl\<close>, with its trimmed white space.\<close>

definition render_summary :: "summaryData \<Rightarrow> string" where
  "render_summary d =
     ''<context_summary>'' @ nl @ ''  <goal>'' @ sd_Goal d @ ''</goal>'' @ nl @ ''  <progress>'' @
     (if sd_Tools d \<noteq> [] then concat (map (\<lambda>x. nl @ ''    - Used '' @ x) (sd_Tools d))
      else nl @ ''    - Discussion without tool usage'') @
     nl @ ''  </progress>'' @
     (if sd_Files d \<noteq> [] then
        nl @ ''  <key_info>'' @ concat (map (\<lambda>x. nl @ ''    - '' @ x) (sd_Files d)) @
        (if sd_HasMore d then nl @ ''    - ... and more files'' else '''') @ nl @ ''  </key_info>''
      else '''') @
     nl @ ''</context_summary>''"

definition simpleSummary :: "compress_env \<Rightarrow> Message list \<Rightarrow> string" where
  "simpleSummary env messages = render_summary (extractSummaryData env messages)"

definition withoutContextualUserMessages :: "Message list \<Rightarrow> Message list" where
  "withoutContextualUserMessages messages = filter (\<lambda>msg. \<not> IsContextualUser msg) messages"

section \<open>Partitioning\<close>

definition rough_index :: "compress_env \<Rightarrow> Compressor \<Rightarrow> Message list \<Rightarrow> int \<Rightarrow> nat" where
  "rough_index env c messages preserveTokens =
     (case find (\<lambda>i. countTokens env c (drop i messages) \<ge> preserveTokens) (rev [0..<length messages]) of
        None \<Rightarrow> 0 | Some i \<Rightarrow> i)"

text \<open>A boundary before a real user message that does not follow a tool message.\<close>

definition safe_boundary :: "Message list \<Rightarrow> nat \<Rightarrow> bool" where
  "safe_boundary messages idx \<longleftrightarrow>
     msg_Role (messages ! idx) = RoleUser \<and> \<not> IsContextualUser (messages ! idx) \<and>
     \<not> (idx > 0 \<and> msg_Role (messages ! (idx - 1)) = RoleTool)"

definition findSafePartitionPoint :: "compress_env \<Rightarrow> Compressor \<Rightarrow> Message list \<Rightarrow> int \<Rightarrow> nat" where
  "findSafePartitionPoint env c messages preserveTokens =
     (if messages = [] then 0
      else
        (let roughIdx = rough_index env c messages preserveTokens
         in case find (safe_boundary messages) [max 1 roughIdx..<length messages] of
              Some idx \<Rightarrow> idx
            | None \<Rightarrow>
                (case find (safe_boundary messages) (rev [1..<roughIdx + 1]) of
                   Some idx \<Rightarrow> idx
                 | None \<Rightarrow> roughIdx)))"

section \<open>Compression\<close>

definition saveTranscript :: "compress_env \<Rightarrow> Compressor \<Rightarrow> Message list \<Rightarrow> string" where
  "saveTranscript env c messages =
     (let dir = cc_TranscriptDir (co_config c)
      in if dir = '''' \<or> \<not> ce_mkdir env \<or> \<not> ce_create env \<or> \<not> list_all (ce_encode env) messages then ''''
         else path_join dir (''transcript_'' @ show_int (ce_nano env) @ ''.jsonl''))"

datatype compress_error = ErrSummarize summary_error | ErrEmptySummary

definition summary_message :: "string \<Rightarrow> string \<Rightarrow> Message" where
  "summary_message summary path =
     message_of RoleUser
       [(part_of ContentTypeText)\<lparr>cp_Text :=
          ''[Previous conversation summary]'' @ nl @ summary @
          (if path \<noteq> '''' then nl @ nl @
             ''If you need specific details from before compaction, read the full transcript at: '' @ path else '''')\<rparr>] 0"

definition preserve_tokens :: "compress_env \<Rightarrow> Compressor \<Rightarrow> Message list \<Rightarrow> int" where
  "preserve_tokens env c conversationMsgs =
     min (scaled (countTokens env c conversationMsgs) (cc_PreserveRatio (co_config c)))
         (scaled (cc_ContextWindowSize (co_config c)) (cc_TargetRatio (co_config c)))"

definition make_summary ::
  "compress_env \<Rightarrow> Compressor \<Rightarrow> (summary_error + string) option \<Rightarrow> Message list \<Rightarrow> summary_error + string"
where
  "make_summary env c summarize summaryInput =
     (case summarize of
        Some r \<Rightarrow> r
      | None \<Rightarrow> (case co_summarizer c of
                   Some f \<Rightarrow> f summaryInput
                 | None \<Rightarrow> Inr (simpleSummary env summaryInput)))"

definition kept_result :: "compress_env \<Rightarrow> Compressor \<Rightarrow> Message list \<Rightarrow> nat \<Rightarrow> string \<Rightarrow> string \<Rightarrow> CompressionResult" where
  "kept_result env c messages idx path summary =
     (let tokens = countTokens env c messages
      in \<lparr>cr_OriginalTokens = tokens, cr_CompressedTokens = tokens, cr_MessagesBefore = length messages,
          cr_MessagesAfter = length messages, cr_Summary = summary, cr_Compressed = False,
          cr_PartitionIndex = idx, cr_TranscriptPath = path\<rparr>)"

text \<open>
  An error leaves the counts after the compression at zero, as in the struct the code returns.
\<close>

definition compressLocked ::
  "compress_env \<Rightarrow> Compressor \<Rightarrow> Message list \<Rightarrow> (summary_error + string) option
     \<Rightarrow> Message list \<times> CompressionResult \<times> compress_error option"
where
  "compressLocked env c messages summarize =
     (let systemMsgs = filter (\<lambda>m. msg_Role m = RoleSystem) messages;
          conversationMsgs = filter (\<lambda>m. msg_Role m \<noteq> RoleSystem) messages
      in if conversationMsgs = [] then (messages, kept_result env c messages 0 '''' '''', None)
         else
           (let idx = findSafePartitionPoint env c conversationMsgs (preserve_tokens env c conversationMsgs)
            in if idx \<le> 0 then (messages, kept_result env c messages idx '''' '''', None)
               else
                 (let toCompress = take idx conversationMsgs;
                      toPreserve = drop idx conversationMsgs;
                      path = saveTranscript env c toCompress;
                      failed = (kept_result env c messages idx path '''')\<lparr>cr_CompressedTokens := 0, cr_MessagesAfter := 0\<rparr>
                  in case make_summary env c summarize (withoutContextualUserMessages toCompress) of
                       Inl e \<Rightarrow> (messages, failed, Some (ErrSummarize e))
                     | Inr summary \<Rightarrow>
                         if TrimSpace summary = '''' then (messages, failed, Some ErrEmptySummary)
                         else
                           (let compressed = systemMsgs @ [summary_message summary path] @ toPreserve
                            in if countTokens env c compressed < countTokens env c messages then
                                 (compressed,
                                  (kept_result env c messages idx path summary)\<lparr>
                                    cr_CompressedTokens := countTokens env c compressed,
                                    cr_MessagesAfter := length compressed, cr_Compressed := True\<rparr>, None)
                               else (messages, kept_result env c messages idx path summary, None)))))"

definition Compress ::
  "compress_env \<Rightarrow> Compressor \<Rightarrow> Message list \<Rightarrow> Message list \<times> CompressionResult \<times> compress_error option"
where
  "Compress env c messages0 =
     (let messages = truncateToolResults env c messages0 (cc_ToolOutputThreshold (co_config c))
      in if countTokens env c messages \<le> trigger c then (messages, kept_result env c messages 0 '''' '''', None)
         else compressLocked env c messages None)"

definition ForceCompressWithSummary ::
  "compress_env \<Rightarrow> Compressor \<Rightarrow> Message list \<Rightarrow> (summary_error + string) option
     \<Rightarrow> Message list \<times> CompressionResult \<times> compress_error option"
where
  "ForceCompressWithSummary env c messages summarize =
     compressLocked env c (truncateToolResults env c messages (cc_ToolOutputThreshold (co_config c))) summarize"

definition ForceCompress ::
  "compress_env \<Rightarrow> Compressor \<Rightarrow> Message list \<Rightarrow> Message list \<times> CompressionResult \<times> compress_error option"
where
  "ForceCompress env c messages =
     compressLocked env c (truncateToolResults env c messages (cc_ToolOutputThreshold (co_config c))) None"

section \<open>Occupancy of the next request\<close>

definition usage_measured :: "Usage \<Rightarrow> bool" where
  "usage_measured u \<longleftrightarrow>
     \<not> (sint (InputTokens u) < 0 \<or> sint (CacheCreationInputTokens u) < 0 \<or> sint (CacheReadInputTokens u) < 0 \<or>
        sint (TotalInput u) \<le> 0)"

text \<open>The latest message with a measurement, and whether that measurement still applies.\<close>

fun context_scan :: "compress_env \<Rightarrow> ContextInput \<Rightarrow> Message list \<Rightarrow> nat \<Rightarrow> (nat \<times> Usage \<times> ContextInput) option" where
  "context_scan env prompt history 0 = None"
| "context_scan env prompt history (Suc index) =
     (let message = history ! index
      in case msg_Metadata message of
           None \<Rightarrow> context_scan env prompt history index
         | Some meta \<Rightarrow>
             (case (msg_Role message = RoleAssistant, meta_Usage meta) of
                (True, Some usage) \<Rightarrow>
                  (case meta_ContextInput meta of
                     None \<Rightarrow> None
                   | Some anchor \<Rightarrow>
                       if ci_PromptKey anchor = '''' \<or> ci_ProfileKey anchor = '''' \<or>
                          ci_ProfileKey anchor \<noteq> ci_ProfileKey prompt \<or> \<not> usage_measured usage \<or>
                          ci_HistoryDigest anchor \<noteq> ce_digest env (take index history)
                       then None
                       else Some (index, usage, anchor))
              | _ \<Rightarrow> context_scan env prompt history index))"

definition ContextTokens :: "compress_env \<Rightarrow> Compressor \<Rightarrow> Message list \<Rightarrow> ContextInput \<Rightarrow> int \<times> bool" where
  "ContextTokens env c history0 prompt =
     (let history = ProjectPrompt env c history0 2000
      in case context_scan env prompt history (length history) of
           Some (index, usage, anchor) \<Rightarrow>
             (sint (TotalInput usage) + max 0 (ci_PrefixTokens prompt - ci_PrefixTokens anchor) +
              CountTokens env c (drop index history), True)
         | None \<Rightarrow> (ci_PrefixTokens prompt + CountTokens env c history, False))"

section \<open>Projecting twice\<close>

text \<open>
  Projecting a conversation that is already projected changes nothing, for any budget the caller
  passes, as long as the tokenizer gives the empty text no tokens.  So a conversation restored from
  its record is sent to the model as it was sent live, and its token count is the same.
\<close>

theorem projection_idempotent:
  assumes "co_counter c '''' \<le> 0" "0 < n \<or> 0 < cc_ToolOutputThreshold (co_config c)"
  shows "truncateToolResults env c (truncateToolResults env c messages n) n = truncateToolResults env c messages n"
proof -
  define m where "m = (if n \<le> 0 then cc_ToolOutputThreshold (co_config c) else n)"
  have m: "co_counter c '''' \<le> m" "0 < m" using assms by (auto simp: m_def)
  show ?thesis
    using project_part_idem [of "co_counter c" m "ce_marshal env", OF m]
    by (simp add: truncateToolResults_def m_def [symmetric] comp_def Let_def)
qed

text \<open>A window of 100 tokens, the rough estimate as tokenizer, and a result with inline media, for the witnesses.\<close>

definition plain_env :: compress_env where
  "plain_env = \<lparr>ce_marshal = (\<lambda>_. None), ce_order = id, ce_nano = 0, ce_mkdir = True, ce_create = True,
     ce_encode = (\<lambda>_. True), ce_digest = (\<lambda>ms. show_int (int (length ms)))\<rparr>"

definition small_compressor :: Compressor where
  "small_compressor =
     SetSummarizer (NewCompressor None (DefaultCompressorConfig\<lparr>cc_ContextWindowSize := 100\<rparr>)) (Some (\<lambda>_. Inr ''short''))"

definition media_result :: "Message list" where
  "media_result =
     [NewToolMessage 1 [NewTextToolResult ''c'' ''see data:image/png;base64,QUJDRA== and a long text'' False]]"

theorem projection_idempotent_witness:
  "truncateToolResults plain_env small_compressor (truncateToolResults plain_env small_compressor media_result 4) 4 =
     truncateToolResults plain_env small_compressor media_result 4 \<and>
   truncateToolResults plain_env small_compressor media_result 4 \<noteq> media_result"
proof -
  have "co_counter small_compressor '''' \<le> 0" by code_simp
  then have "truncateToolResults plain_env small_compressor (truncateToolResults plain_env small_compressor media_result 4) 4 =
      truncateToolResults plain_env small_compressor media_result 4"
    by (intro projection_idempotent) simp_all
  moreover have "map (\<lambda>m. map tr_Text (tool_results m)) (truncateToolResults plain_env small_compressor media_result 4)
      \<noteq> map (\<lambda>m. map tr_Text (tool_results m)) media_result"
    by code_simp
  ultimately show ?thesis by auto
qed

section \<open>What a compression yields\<close>

lemma rough_index_less: "messages \<noteq> [] \<Longrightarrow> rough_index env c messages n < length messages"
  by (auto simp: rough_index_def find_Some_iff rev_nth split: option.splits)

lemma find_upt_less: "find P [a..<n] = Some i \<Longrightarrow> i < n \<and> a \<le> i \<and> P i"
  by (auto simp: find_Some_iff)

lemma find_rev_upt: "find P (rev [a..<n]) = Some i \<Longrightarrow> i < n \<and> a \<le> i \<and> P i"
  by (auto simp: find_Some_iff rev_nth)

lemma findSafePartitionPoint_less:
  "messages \<noteq> [] \<Longrightarrow> findSafePartitionPoint env c messages n < length messages"
  using rough_index_less [of messages env c n]
  by (auto simp: findSafePartitionPoint_def Let_def split: option.splits dest!: find_upt_less find_rev_upt)

lemma compressLocked_cases:
  assumes "compressLocked env c messages summarize = (out, result, err)"
  shows "(out = messages \<and> \<not> cr_Compressed result) \<or>
    (err = None \<and> cr_Compressed result \<and> countTokens env c out < countTokens env c messages \<and>
     cr_CompressedTokens result = countTokens env c out \<and> cr_MessagesAfter result = length out \<and>
     (let conv = filter (\<lambda>m. msg_Role m \<noteq> RoleSystem) messages; k = cr_PartitionIndex result
      in 0 < k \<and> k < length conv \<and>
         out = filter (\<lambda>m. msg_Role m = RoleSystem) messages @
               summary_message (cr_Summary result) (cr_TranscriptPath result) # drop k conv))"
proof (cases "cr_Compressed result")
  case False
  then show ?thesis
    using assms by (auto simp: compressLocked_def Let_def kept_result_def split: if_splits sum.splits)
next
  case True
  define conv where "conv = filter (\<lambda>m. msg_Role m \<noteq> RoleSystem) messages"
  define k where "k = findSafePartitionPoint env c conv (preserve_tokens env c conv)"
  have "conv \<noteq> []" "0 < k" "err = None" "cr_PartitionIndex result = k"
    and out: "out = filter (\<lambda>m. msg_Role m = RoleSystem) messages @
      summary_message (cr_Summary result) (cr_TranscriptPath result) # drop k conv"
    "countTokens env c out < countTokens env c messages" "cr_CompressedTokens result = countTokens env c out"
    "cr_MessagesAfter result = length out"
    using assms True unfolding compressLocked_def conv_def [symmetric] k_def [symmetric] Let_def
    by (auto simp: kept_result_def Let_def split: if_splits sum.splits)
  moreover have "k < length conv"
    using findSafePartitionPoint_less [OF \<open>conv \<noteq> []\<close>] by (simp add: k_def)
  ultimately show ?thesis
    using True unfolding conv_def [symmetric] by simp
qed

text \<open>
  Compressing a conversation yields its projected form, when that fits or cannot be made smaller,
  or else, with strictly fewer tokens, all system messages in order, one summary, and a non-empty
  proper suffix of the other messages; an error always yields the projected form.  The result says
  which, and counts what is returned.
\<close>

theorem compression_shape:
  assumes "Compress env c messages = (out, result, err)"
    and "projected = truncateToolResults env c messages (cc_ToolOutputThreshold (co_config c))"
  shows "(out = projected \<and> \<not> cr_Compressed result) \<or>
    (NeedsCompression env c messages \<and> err = None \<and> cr_Compressed result \<and>
     countTokens env c out < countTokens env c projected \<and>
     cr_CompressedTokens result = countTokens env c out \<and> cr_MessagesAfter result = length out \<and>
     (let conv = filter (\<lambda>m. msg_Role m \<noteq> RoleSystem) projected; k = cr_PartitionIndex result
      in 0 < k \<and> k < length conv \<and>
         out = filter (\<lambda>m. msg_Role m = RoleSystem) projected @
               summary_message (cr_Summary result) (cr_TranscriptPath result) # drop k conv))"
proof (cases "NeedsCompression env c messages")
  case True
  then have "compressLocked env c projected None = (out, result, err)"
    using assms by (simp add: Compress_def Let_def NeedsCompression_def CountTokens_def)
  from compressLocked_cases [OF this] True show ?thesis by simp
next
  case False
  then show ?thesis
    using assms by (auto simp: Compress_def Let_def NeedsCompression_def CountTokens_def kept_result_def)
qed

section \<open>Tool results stay with their calls\<close>

text \<open>
  Every tool message answers calls of the assistant message it follows, with only other tool messages
  between them.
\<close>

definition calls_closed :: "Message list \<Rightarrow> bool" where
  "calls_closed ms \<longleftrightarrow>
     (\<forall>k < length ms. msg_Role (ms ! k) = RoleTool \<longrightarrow>
        (\<exists>a < k. msg_Role (ms ! a) = RoleAssistant \<and> (\<forall>j < k. a < j \<longrightarrow> msg_Role (ms ! j) = RoleTool) \<and>
           set (map tr_ToolCallID (tool_results (ms ! k))) \<subseteq> set (map tc_ID (tool_calls (ms ! a)))))"

lemma calls_closed_drop:
  assumes "calls_closed ms" "i < length ms" "msg_Role (ms ! i) = RoleUser"
  shows "calls_closed (drop i ms)"
  unfolding calls_closed_def
proof (intro allI impI)
  fix k
  assume k: "k < length (drop i ms)" "msg_Role (drop i ms ! k) = RoleTool"
  then have "i + k < length ms" "msg_Role (ms ! (i + k)) = RoleTool" by auto
  then obtain a where a: "a < i + k" "msg_Role (ms ! a) = RoleAssistant" "\<forall>j < i + k. a < j \<longrightarrow> msg_Role (ms ! j) = RoleTool"
    "set (map tr_ToolCallID (tool_results (ms ! (i + k)))) \<subseteq> set (map tc_ID (tool_calls (ms ! a)))"
    using assms(1) [unfolded calls_closed_def, rule_format, of "i + k"] by blast
  have "i \<le> a"
  proof (rule ccontr)
    assume "\<not> i \<le> a"
    moreover have "0 < k" using k assms(2,3) by (cases k) auto
    ultimately have "msg_Role (ms ! i) = RoleTool" using a(3) by auto
    then show False using assms(3) by simp
  qed
  then show "\<exists>b < k. msg_Role (drop i ms ! b) = RoleAssistant \<and>
      (\<forall>j < k. b < j \<longrightarrow> msg_Role (drop i ms ! j) = RoleTool) \<and>
      set (map tr_ToolCallID (tool_results (drop i ms ! k))) \<subseteq> set (map tc_ID (tool_calls (drop i ms ! b)))"
    using a k assms(2) by (intro exI [of _ "a - i"]) auto
qed

lemma calls_closed_Cons:
  assumes "calls_closed ms" "msg_Role m \<noteq> RoleTool"
  shows "calls_closed (m # ms)"
  unfolding calls_closed_def
proof (intro allI impI)
  fix k
  assume k: "k < length (m # ms)" "msg_Role ((m # ms) ! k) = RoleTool"
  then obtain k' where k': "k = Suc k'" "k' < length ms" "msg_Role (ms ! k') = RoleTool"
    using assms(2) by (cases k) auto
  then obtain a where a: "a < k'" "msg_Role (ms ! a) = RoleAssistant" "\<forall>j < k'. a < j \<longrightarrow> msg_Role (ms ! j) = RoleTool"
    "set (map tr_ToolCallID (tool_results (ms ! k'))) \<subseteq> set (map tc_ID (tool_calls (ms ! a)))"
    using assms(1) [unfolded calls_closed_def, rule_format, of k'] by blast
  have "msg_Role ((m # ms) ! j) = RoleTool" if "Suc a < j" "j < Suc k'" for j
    using that a(3) by (cases j) auto
  then show "\<exists>b < k. msg_Role ((m # ms) ! b) = RoleAssistant \<and>
      (\<forall>j < k. b < j \<longrightarrow> msg_Role ((m # ms) ! j) = RoleTool) \<and>
      set (map tr_ToolCallID (tool_results ((m # ms) ! k))) \<subseteq> set (map tc_ID (tool_calls ((m # ms) ! b)))"
    using a unfolding k'(1) by (intro exI [of _ "Suc a"]) auto
qed

lemma find_eq_None: "find P xs = None \<Longrightarrow> x \<in> set xs \<Longrightarrow> \<not> P x"
  by (simp add: find_None_iff)

lemma findSafePartitionPoint_safe:
  assumes "0 < i" "i < length messages" "safe_boundary messages i"
  shows "safe_boundary messages (findSafePartitionPoint env c messages n)"
proof -
  define r where "r = rough_index env c messages n"
  have ne: "messages \<noteq> []" using assms(2) by auto
  show ?thesis
  proof (cases "find (safe_boundary messages) [max 1 r..<length messages]")
    case (Some idx)
    then show ?thesis
      using ne find_upt_less [OF Some] by (simp add: findSafePartitionPoint_def Let_def r_def [symmetric])
  next
    case none: None
    then have "i < max 1 r" using find_eq_None [OF none, of i] assms by fastforce
    then have "i \<in> set (rev [1..<r + 1])" using assms(1) by auto
    then obtain idx where idx: "find (safe_boundary messages) (rev [1..<r + 1]) = Some idx"
      using find_eq_None assms(3) by (metis option.exhaust)
    then show ?thesis
      using ne none find_rev_upt [OF idx] by (simp add: findSafePartitionPoint_def Let_def r_def [symmetric])
  qed
qed

text \<open>
  C31. Where the conversation has a safe boundary, a compression keeps every tool result together with
  the call it answers.
\<close>

theorem compression_keeps_chains:
  assumes comp: "compressLocked env c messages summarize = (out, result, err)"
    and conv: "conv = filter (\<lambda>m. msg_Role m \<noteq> RoleSystem) messages" "calls_closed conv"
    and safe: "0 < i" "i < length conv" "safe_boundary conv i"
  shows "calls_closed (filter (\<lambda>m. msg_Role m \<noteq> RoleSystem) out)"
proof (cases "cr_Compressed result")
  case False
  then have "out = messages" using compressLocked_cases [OF comp] by auto
  then show ?thesis using conv by simp
next
  case True
  let ?k = "cr_PartitionIndex result"
  have k: "?k < length conv" "out = filter (\<lambda>m. msg_Role m = RoleSystem) messages @
      summary_message (cr_Summary result) (cr_TranscriptPath result) # drop ?k conv"
    using compressLocked_cases [OF comp] True by (auto simp: conv(1) Let_def)
  have "?k = findSafePartitionPoint env c conv (preserve_tokens env c conv)"
    using comp True unfolding compressLocked_def conv(1) [symmetric]
    by (auto simp: Let_def kept_result_def split: if_splits sum.splits)
  then have "safe_boundary conv ?k"
    using findSafePartitionPoint_safe [OF safe] by metis
  then have "calls_closed (drop ?k conv)"
    using calls_closed_drop [OF conv(2) k(1)] by (simp add: safe_boundary_def)
  moreover have "filter (\<lambda>m. msg_Role m \<noteq> RoleSystem) (drop ?k conv) = drop ?k conv"
    using set_drop_subset [of ?k conv] unfolding conv(1) by (intro filter_True) auto
  ultimately show ?thesis
    unfolding k(2) using calls_closed_Cons by (simp add: summary_message_def)
qed

text \<open>Two turns with a tool call each.\<close>

definition call_message :: "string \<Rightarrow> Message" where
  "call_message i = AddToolCall (NewAssistantMessage 1 '''') \<lparr>tc_Index = 0, tc_ID = i, tc_Name = ''shell'', tc_Arguments = ''{}''\<rparr>"

definition two_turns :: "Message list" where
  "two_turns =
     [NewUserMessage 1 (replicate 80 CHR ''x''), call_message ''c1'',
      NewToolMessage 1 [NewTextToolResult ''c1'' ''ok'' False], NewAssistantMessage 1 ''done'',
      NewUserMessage 1 ''next'', call_message ''c2'', NewToolMessage 1 [NewTextToolResult ''c2'' ''ok'' False]]"

theorem compression_shape_witness:
  "let (out, result, err) = Compress plain_env (SetContextWindow small_compressor 60) two_turns
   in err = None \<and> cr_Compressed result \<and> cr_PartitionIndex result = 4 \<and>
      cr_MessagesAfter result = length out"
proof -
  let ?r = "Compress plain_env (SetContextWindow small_compressor 60) two_turns"
  have "(cr_Compressed (fst (snd ?r)), cr_PartitionIndex (fst (snd ?r))) = (True, 4)"
    by code_simp
  then show ?thesis
    using compression_shape [of plain_env "SetContextWindow small_compressor 60" two_turns "fst ?r" "fst (snd ?r)" "snd (snd ?r)", OF _ refl]
    by (simp add: case_prod_beta)
qed

lemma calls_closed_two_turns: "calls_closed two_turns"
  by code_simp

theorem compression_keeps_chains_witness:
  "calls_closed (filter (\<lambda>m. msg_Role m \<noteq> RoleSystem) (fst (compressLocked plain_env small_compressor two_turns None)))"
proof -
  have "filter (\<lambda>m. msg_Role m \<noteq> RoleSystem) two_turns = two_turns"
    by (simp add: two_turns_def call_message_def AddToolCall_def)
  moreover have "safe_boundary two_turns 4" by code_simp
  moreover have "length two_turns = 7" by (simp add: two_turns_def)
  moreover obtain out result err where "compressLocked plain_env small_compressor two_turns None = (out, result, err)"
    by (metis prod.exhaust)
  ultimately show ?thesis
    using compression_keeps_chains [of plain_env small_compressor two_turns None out result err two_turns 4]
      calls_closed_two_turns
    by simp
qed

definition one_long_turn :: "Message list" where
  "one_long_turn =
     [NewUserMessage 1 (replicate 80 CHR ''x''), call_message ''c1'',
      NewToolMessage 1 [NewTextToolResult ''c1'' (replicate 40 CHR ''y'') False]]"


end
