(* ===== verification/Agent_Input.thy ===== *)
theory Agent_Input
  imports Agent_Audit
begin

text \<open>
  User input of an agent (\<open>core/agent/agent.go\<close>): starting a turn with a message, steering a
  running turn with queued messages that are merged into one before the next request, and saving
  and restoring the whole state.

  What the user-context builder makes of the current state is an argument, an error or the text to
  show and the new cursor; \<open>None\<close> stands for an agent without one.  The admission callback is the
  error it reports, if any.

  Shown: steering input enters the conversation in the order it was admitted, completely and once,
  and a failed admission or a failed record loses nothing; a restored snapshot is the saved one.
\<close>

section \<open>Queueing\<close>

datatype input_refusal =
    RefNotUser | RefRequired | RefCompacting | RefNotRunning | RefAdmission string

fun normalize_part :: "ContentPart \<Rightarrow> ContentPart option" where
  "normalize_part part =
     (if cp_Type part = ContentTypeText then
        (let text = TrimSpace (cp_Text part) in if text \<noteq> '''' then Some (part\<lparr>cp_Text := text\<rparr>) else None)
      else if cp_Type part = ContentTypeImage then (if cp_Image part \<noteq> None then Some part else None)
      else None)"

definition normalizeQueuedTurnUserMessage :: "time \<Rightarrow> Message \<Rightarrow> input_refusal + Message" where
  "normalizeQueuedTurnUserMessage now msg =
     (if msg_Role msg \<noteq> RoleUser then Inl RefNotUser
      else
        (let content = List.map_filter normalize_part (msg_Content msg)
         in if content = [] then Inl RefRequired
            else Inr (msg\<lparr>msg_Content := content,
                   msg_CreatedAt := (if msg_CreatedAt msg = 0 then now else msg_CreatedAt msg)\<rparr>)))"

text \<open>Taking the lock fails only while a summary is being made.\<close>

definition QueueTurnUserMessageWithAdmission ::
  "time \<Rightarrow> bool \<Rightarrow> string option \<Rightarrow> Message \<Rightarrow> 'r Agent \<Rightarrow> 'r Agent \<times> input_refusal option"
where
  "QueueTurnUserMessageWithAdmission now compacting admit msg0 a =
     (case normalizeQueuedTurnUserMessage now msg0 of
        Inl e \<Rightarrow> (a, Some e)
      | Inr msg \<Rightarrow>
          if compacting then (a, Some RefCompacting)
          else if ag_state a \<noteq> StateRunning \<and> ag_state a \<noteq> StatePaused then (a, Some RefNotRunning)
          else case admit of
                 Some e \<Rightarrow> (a, Some (RefAdmission e))
               | None \<Rightarrow> (a\<lparr>ag_pendingTurnUser := ag_pendingTurnUser a @ [msg]\<rparr>, None))"

definition QueueTurnUserMessage :: "time \<Rightarrow> bool \<Rightarrow> Message \<Rightarrow> 'r Agent \<Rightarrow> 'r Agent \<times> input_refusal option" where
  "QueueTurnUserMessage now compacting msg a = QueueTurnUserMessageWithAdmission now compacting None msg a"

definition QueueTurnUserInput :: "time \<Rightarrow> bool \<Rightarrow> string \<Rightarrow> 'r Agent \<Rightarrow> 'r Agent \<times> input_refusal option" where
  "QueueTurnUserInput now compacting text0 a =
     (let text = TrimSpace text0
      in if text = '''' then (a, Some RefRequired) else QueueTurnUserMessage now compacting (NewUserMessage now text) a)"

definition ClearPendingTurnUserInput :: "'r Agent \<Rightarrow> 'r Agent" where
  "ClearPendingTurnUserInput a = a\<lparr>ag_pendingTurnUser := []\<rparr>"

section \<open>Appending input to the conversation\<close>

datatype userInputBoundary = userInputContinuesTurn | userInputStartsTurn

datatype append_error = ErrBuildContext string | ErrRecord conversation_error

type_synonym context_update = "(string + string \<times> UserContextState option) option"

definition messageRequestContext :: "Message \<Rightarrow> RequestContext option" where
  "messageRequestContext msg = Option.bind (msg_Metadata msg) meta_RequestContext"

definition null_context :: string where
  "null_context = ''<request_context>'' @ [CHR 0x0A] @ ''null'' @ [CHR 0x0A] @ ''</request_context>''"

definition input_messages ::
  "time \<Rightarrow> string \<Rightarrow> 'r Agent \<Rightarrow> Message \<Rightarrow> userInputBoundary \<Rightarrow> Message list"
where
  "input_messages now contextText a msg boundary =
     (if contextText \<noteq> '''' then [NewContextualUserMessage now contextText] else []) @
     (case messageRequestContext msg of
        Some rc \<Rightarrow> [NewContextualUserMessage now (PromptText (Some rc))]
      | None \<Rightarrow>
          if boundary = userInputStartsTurn \<and> ts_RequestContext (ag_turnSafety a) \<noteq> None
          then [NewContextualUserMessage now null_context] else []) @
     [msg]"

definition appendUserInputLocked ::
  "'r record_fn \<Rightarrow> time \<Rightarrow> context_update \<Rightarrow> Message \<Rightarrow> userInputBoundary \<Rightarrow> 'r Agent \<Rightarrow> 'r Agent \<times> append_error option"
where
  "appendUserInputLocked rec now update msg boundary a =
     (let append_with = (\<lambda>contextText nextState.
            case conversation_append rec (ag_conversation a) (input_messages now contextText a msg boundary)
              nextState (update \<noteq> None) of
              (conv, err) \<Rightarrow> (a\<lparr>ag_conversation := conv\<rparr>, map_option ErrRecord err))
      in case update of
           None \<Rightarrow> append_with '''' None
         | Some (Inl e) \<Rightarrow> (a, Some (ErrBuildContext e))
         | Some (Inr (contextText, state)) \<Rightarrow> append_with contextText state)"

section \<open>Draining\<close>

text \<open>The loop over the parts: texts are gathered until another part or the end flushes them.\<close>

definition flushText :: "string list \<Rightarrow> ContentPart list \<Rightarrow> ContentPart list" where
  "flushText texts content =
     (if texts = [] then content
      else content @ [(part_of ContentTypeText)\<lparr>cp_Text := Join texts [CHR 0x0A, CHR 0x0A]\<rparr>])"

fun drain_parts :: "ContentPart list \<Rightarrow> string list \<Rightarrow> ContentPart list \<Rightarrow> ContentPart list" where
  "drain_parts [] texts content = flushText texts content"
| "drain_parts (part # parts) texts content =
     (if cp_Type part = ContentTypeText then
        (let text = TrimSpace (cp_Text part)
         in drain_parts parts (if text \<noteq> '''' then texts @ [text] else texts) content)
      else drain_parts parts [] (flushText texts content @ [part]))"

definition drained_message :: "time \<Rightarrow> Message list \<Rightarrow> Message" where
  "drained_message now pending = message_of RoleUser (drain_parts (concat (map msg_Content pending)) [] []) now"

definition drainPendingTurnUserInputLocked ::
  "'r record_fn \<Rightarrow> time \<Rightarrow> context_update \<Rightarrow> nat \<Rightarrow> 'r Agent \<Rightarrow> 'r Agent \<times> (append_error + bool)"
where
  "drainPendingTurnUserInputLocked rec now update pendingCount a =
     (if pendingCount \<le> 0 \<or> length (ag_pendingTurnUser a) < pendingCount then (a, Inr False)
      else case appendUserInputLocked rec now update
             (drained_message now (take pendingCount (ag_pendingTurnUser a))) userInputContinuesTurn a of
             (a', Some e) \<Rightarrow> (a', Inl e)
           | (a', None) \<Rightarrow>
               (a'\<lparr>ag_pendingTurnUser := drop pendingCount (ag_pendingTurnUser a')\<rparr>, Inr True))"

text \<open>
  The host is told which messages are about to be applied and may refuse or be cancelled before the
  drain; meanwhile \<open>later\<close> messages may have been queued.
\<close>

definition applyPendingTurnUserInput ::
  "'r record_fn \<Rightarrow> time \<Rightarrow> context_update \<Rightarrow> string option \<Rightarrow> Message list \<Rightarrow> 'r Agent
     \<Rightarrow> 'r Agent \<times> ((string + append_error) + bool)"
where
  "applyPendingTurnUserInput rec now update ack later a =
     (let pendingCount = length (ag_pendingTurnUser a)
      in if pendingCount = 0 then (a, Inr False)
         else
           (let a1 = a\<lparr>ag_pendingTurnUser := ag_pendingTurnUser a @ later\<rparr>
            in case ack of
                 Some e \<Rightarrow> (a1, Inl (Inl e))
               | None \<Rightarrow>
                   (case drainPendingTurnUserInputLocked rec now update pendingCount a1 of
                      (a2, Inl e) \<Rightarrow> (a2, Inl (Inr e))
                    | (a2, Inr b) \<Rightarrow> (a2, Inr b))))"

section \<open>Starting a turn\<close>

datatype run_error =
    ErrAlreadyRunning | ErrDurabilityFailed | ErrInputWhilePaused | ErrAwaitingOutputs
  | ErrAppend append_error | ErrAppendHistory conversation_error

text \<open>
  The part of \<open>RunMessage\<close> before the loop starts; a message without a role only continues the run.
\<close>

definition run_admit ::
  "'r record_fn \<Rightarrow> time \<Rightarrow> context_update \<Rightarrow> Message option \<Rightarrow> 'r Agent \<Rightarrow> 'r Agent \<times> run_error option"
where
  "run_admit rec now update msg a =
     (case msg of
        None \<Rightarrow> (a, None)
      | Some m \<Rightarrow>
          if ag_state a = StatePaused then (a, Some ErrInputWhilePaused)
          else if msg_Role m = RoleUser then
            (case appendUserInputLocked rec now update m userInputStartsTurn a of
               (a', Some e) \<Rightarrow> (a', Some (ErrAppend e))
             | (a', None) \<Rightarrow> (startNewTurn now (DisplayString m) (messageRequestContext m) a', None))
          else
            (case appendMessages rec (ag_conversation a) [m] of
               (conv, Some e) \<Rightarrow> (a\<lparr>ag_conversation := conv\<rparr>, Some (ErrAppendHistory e))
             | (conv, None) \<Rightarrow> (a\<lparr>ag_conversation := conv\<rparr>, None)))"

definition RunMessage_start ::
  "'r record_fn \<Rightarrow> time \<Rightarrow> context_update \<Rightarrow> bool \<Rightarrow> Message option \<Rightarrow> 'r Agent \<Rightarrow> 'r Agent \<times> run_error option"
where
  "RunMessage_start rec now update runActive msg a =
     (if runActive then (a, Some ErrAlreadyRunning)
      else if ag_state a = StateDurabilityFailed then (a, Some ErrDurabilityFailed)
      else case run_admit rec now update msg a of
             (a', Some e) \<Rightarrow> (a', Some e)
           | (a', None) \<Rightarrow>
               if ag_state a' = StatePaused \<and> ag_pendingActions a' \<noteq> [] then (a', Some ErrAwaitingOutputs)
               else (a'\<lparr>ag_state := StateRunning\<rparr>, None))"

section \<open>Saving and restoring\<close>

definition Agent_Snapshot :: "time \<Rightarrow> 'r Agent \<Rightarrow> Snapshot" where
  "Agent_Snapshot now a =
     (let (hist, ucs) = conversation_snapshot (ag_conversation a)
      in \<lparr>sn_State = ag_state a, sn_History = hist, sn_CumulativeUsage = Normalized (ag_cumulativeUsage a),
          sn_PendingActions = ag_pendingActions a, sn_DeferredActions = ag_deferredActions a,
          sn_TurnSafety = ag_turnSafety a, sn_Turns = ag_turns a, sn_UserContextState = ucs, sn_CreatedAt = now\<rparr>)"

definition Restore :: "Snapshot \<Rightarrow> 'r Agent \<Rightarrow> 'r Agent" where
  "Restore s a =
     (let usage = Normalized (sn_CumulativeUsage s)
      in a\<lparr>ag_state := sn_State s,
           ag_conversation := conversation_restore (ag_conversation a) (sn_History s) (sn_UserContextState s),
           ag_cumulativeUsage := (if usage = zero_Usage then Normalized (SessionUsage (sn_History s)) else usage),
           ag_pendingTurnUser := [],
           ag_pendingActions := sn_PendingActions s,
           ag_deferredActions := sn_DeferredActions s,
           ag_turnSafety := sn_TurnSafety s,
           ag_turns := sn_Turns s\<rparr>)"

definition ClearHistory :: "'r Agent \<Rightarrow> 'r Agent" where
  "ClearHistory a =
     a\<lparr>ag_conversation := conversation_restore (ag_conversation a) [] None, ag_pendingTurnUser := [],
       ag_pendingActions := [], ag_deferredActions := [], ag_turnSafety := zero_TurnSafetyState, ag_turns := []\<rparr>"

section \<open>Steering input is applied in order\<close>

text \<open>
  What a sequence of parts says: its non-empty trimmed texts and its other parts, in order.  A
  rendered group is a run of texts joined into one part, or a single other part.
\<close>

definition part_items :: "ContentPart \<Rightarrow> (string + ContentPart) list" where
  "part_items part =
     (if cp_Type part = ContentTypeText then
        (let text = TrimSpace (cp_Text part) in if text \<noteq> '''' then [Inl text] else [])
      else [Inr part])"

fun group_items :: "string list + ContentPart \<Rightarrow> (string + ContentPart) list" where
  "group_items (Inl texts) = map Inl texts"
| "group_items (Inr part) = [Inr part]"

fun render_group :: "string list + ContentPart \<Rightarrow> ContentPart" where
  "render_group (Inl texts) = (part_of ContentTypeText)\<lparr>cp_Text := Join texts [CHR 0x0A, CHR 0x0A]\<rparr>"
| "render_group (Inr part) = part"

lemma flushText_groups: "\<exists>gs. flushText texts content = content @ map render_group gs \<and> concat (map group_items gs) = map Inl texts"
  by (cases "texts = []") (auto simp: flushText_def intro!: exI [of _ "[Inl texts]"])

lemma drain_parts_groups:
  "\<exists>gs. drain_parts parts texts content = content @ map render_group gs \<and>
     concat (map group_items gs) = map Inl texts @ concat (map part_items parts)"
proof (induction parts arbitrary: texts content)
  case Nil
  then show ?case using flushText_groups by simp
next
  case (Cons part parts)
  show ?case
  proof (cases "cp_Type part = ContentTypeText")
    case True
    let ?texts = "if TrimSpace (cp_Text part) \<noteq> '''' then texts @ [TrimSpace (cp_Text part)] else texts"
    obtain gs where "drain_parts parts ?texts content = content @ map render_group gs"
      "concat (map group_items gs) = map Inl ?texts @ concat (map part_items parts)"
      using Cons.IH by blast
    then show ?thesis
      using True by (intro exI [of _ gs]) (auto simp: Let_def part_items_def [of part])
  next
    case False
    obtain gs1 where gs1: "flushText texts content = content @ map render_group gs1" "concat (map group_items gs1) = map Inl texts"
      using flushText_groups by blast
    obtain gs2 where "drain_parts parts [] (flushText texts content @ [part]) = (flushText texts content @ [part]) @ map render_group gs2"
      "concat (map group_items gs2) = map Inl [] @ concat (map part_items parts)"
      using Cons.IH by blast
    then show ?thesis
      using False gs1 by (intro exI [of _ "gs1 @ Inr part # gs2"]) (simp add: part_items_def [of part])
  qed
qed

lemma input_messages_split:
  "\<exists>ctx. input_messages now t a m b = ctx @ [m] \<and> list_all IsContextualUser ctx"
proof -
  have [simp]: "IsContextualUser (NewContextualUserMessage now s)" for s
    by (simp add: IsContextualUser_def NewContextualUserMessage_def NewUserMessage_def)
  show ?thesis by (auto simp: input_messages_def split: option.splits)
qed

lemma conversation_append_cases:
  assumes "conversation_append rec s ms u h = (s', err)"
  shows "if err = None then history s' = history s @ ms else conversation_snapshot s' = conversation_snapshot s"
  using assms
  by (cases err) (auto simp: conversation_append_def conversation_apply_ok conversation_snapshot_def apply_mutation_def
      dest!: conversation_apply_err)

lemma appendUserInputLocked_cases:
  assumes "appendUserInputLocked rec now update msg boundary a = (a', err)"
  shows "a' = a\<lparr>ag_conversation := ag_conversation a'\<rparr> \<and>
    (if err = None then \<exists>ctx. history (ag_conversation a') = history (ag_conversation a) @ ctx @ [msg] \<and> list_all IsContextualUser ctx
     else conversation_snapshot (ag_conversation a') = conversation_snapshot (ag_conversation a))"
proof (cases "\<exists>e. update = Some (Inl e)")
  case True
  then show ?thesis using assms by (auto simp: appendUserInputLocked_def)
next
  case False
  then obtain t u where step: "appendUserInputLocked rec now update msg boundary a =
      (case conversation_append rec (ag_conversation a) (input_messages now t a msg boundary) u (update \<noteq> None) of
         (conv, err) \<Rightarrow> (a\<lparr>ag_conversation := conv\<rparr>, map_option ErrRecord err))"
    by (cases update; cases "the update") (auto simp: appendUserInputLocked_def Let_def)
  obtain conv e where app: "conversation_append rec (ag_conversation a) (input_messages now t a msg boundary) u (update \<noteq> None) = (conv, e)"
    by fastforce
  then have a': "a' = a\<lparr>ag_conversation := conv\<rparr>" "err = map_option ErrRecord e"
    using assms unfolding step by simp_all
  obtain ctx where ctx: "input_messages now t a msg boundary = ctx @ [msg]" "list_all IsContextualUser ctx"
    using input_messages_split by blast
  have same: "ag_conversation a' = conv" "a' = a\<lparr>ag_conversation := ag_conversation a'\<rparr>"
    by (simp_all add: a'(1))
  show ?thesis
  proof (cases e)
    case None
    then have "history conv = history (ag_conversation a) @ ctx @ [msg]" "err = None"
      using conversation_append_cases [OF app] ctx(1) a'(2) by simp_all
    then show ?thesis using same ctx(2) by metis
  next
    case (Some x)
    then have "conversation_snapshot conv = conversation_snapshot (ag_conversation a)" "err \<noteq> None"
      using conversation_append_cases [OF app] a'(2) by simp_all
    then show ?thesis using same by metis
  qed
qed

text \<open>
  C27. When the host lets a running turn take up its steering input, everything queued so far enters
  the conversation as one user message at its end, each text and each image once and in the order
  of admission; input queued meanwhile stays queued.  When the host refuses or the record fails,
  the conversation is unchanged and nothing is dropped from the queue.
\<close>

theorem steering_applied_in_order:
  assumes "applyPendingTurnUserInput rec now update ack later a = (a', r)" "ag_pendingTurnUser a \<noteq> []"
  shows "(r = Inr True \<and> ag_pendingTurnUser a' = later \<and>
     (\<exists>ctx gs. history (ag_conversation a') = history (ag_conversation a) @ ctx @ [message_of RoleUser (map render_group gs) now] \<and>
        list_all IsContextualUser ctx \<and>
        concat (map group_items gs) = concat (map part_items (concat (map msg_Content (ag_pendingTurnUser a)))))) \<or>
    (\<exists>e. r = Inl e \<and> ag_pendingTurnUser a' = ag_pendingTurnUser a @ later \<and>
      conversation_snapshot (ag_conversation a') = conversation_snapshot (ag_conversation a))"
proof (cases ack)
  case (Some e)
  then show ?thesis using assms by (auto simp: applyPendingTurnUserInput_def Let_def)
next
  case None
  define a1 where "a1 = a\<lparr>ag_pendingTurnUser := ag_pendingTurnUser a @ later\<rparr>"
  let ?m = "drained_message now (ag_pendingTurnUser a)"
  obtain a2 err where app: "appendUserInputLocked rec now update ?m userInputContinuesTurn a1 = (a2, err)" by fastforce
  have drain: "drainPendingTurnUserInputLocked rec now update (length (ag_pendingTurnUser a)) a1 =
      (case err of Some e \<Rightarrow> (a2, Inl e)
       | None \<Rightarrow> (a2\<lparr>ag_pendingTurnUser := drop (length (ag_pendingTurnUser a)) (ag_pendingTurnUser a2)\<rparr>, Inr True))"
    using assms(2) app by (simp add: drainPendingTurnUserInputLocked_def a1_def split: option.split)
  have a2: "a2 = a1\<lparr>ag_conversation := ag_conversation a2\<rparr>"
    using appendUserInputLocked_cases [OF app] by simp
  then have pend: "ag_pendingTurnUser a2 = ag_pendingTurnUser a @ later"
    by (metis Agent.select_convs(16) Agent.surjective Agent.update_convs(14) a1_def Agent.update_convs(16))
  obtain gs where gs: "msg_Content ?m = map render_group gs"
    "concat (map group_items gs) = concat (map part_items (concat (map msg_Content (ag_pendingTurnUser a))))"
    using drain_parts_groups [of "concat (map msg_Content (ag_pendingTurnUser a))" "[]" "[]"] by (auto simp: drained_message_def)
  have m: "?m = message_of RoleUser (map render_group gs) now"
    using gs(1) by (simp add: drained_message_def)
  show ?thesis
  proof (cases err)
    case none: None
    then obtain ctx where "history (ag_conversation a2) = history (ag_conversation a) @ ctx @ [?m]" "list_all IsContextualUser ctx"
      using appendUserInputLocked_cases [OF app] by (auto simp: a1_def)
    moreover have "a' = a2\<lparr>ag_pendingTurnUser := later\<rparr>" "r = Inr True"
      using assms None none drain pend by (auto simp: applyPendingTurnUserInput_def Let_def a1_def [symmetric])
    ultimately show ?thesis
      using gs(2) m by auto
  next
    case (Some e)
    then have "a' = a2" "r = Inl (Inr e)"
      using assms None drain by (auto simp: applyPendingTurnUserInput_def Let_def a1_def [symmetric])
    then show ?thesis
      using Some pend appendUserInputLocked_cases [OF app] by (auto simp: a1_def)
  qed
qed

section \<open>Starting a turn is all or nothing\<close>

text \<open>
  A run that is refused leaves the conversation, the state, the queue and the turns as they were.
  A run that is admitted with a user message ends the conversation with that message and opens
  a new turn for it.
\<close>

theorem run_start_atomic:
  assumes "RunMessage_start rec now update runActive msg a = (a', err)"
  shows "(err \<noteq> None \<longrightarrow> conversation_snapshot (ag_conversation a') = conversation_snapshot (ag_conversation a) \<and>
      a' = a\<lparr>ag_conversation := ag_conversation a'\<rparr>) \<and>
    (err = None \<and> (\<exists>m. msg = Some m \<and> msg_Role m = RoleUser) \<longrightarrow>
      ag_state a' = StateRunning \<and> last (history (ag_conversation a')) = the msg \<and>
      length (ag_turns a') = Suc (length (ag_turns a)) \<and>
      ts_RequestContext (ag_turnSafety a') = messageRequestContext (the msg))"
proof -
  have err: "conversation_snapshot conv = conversation_snapshot s" if "appendMessages rec s [m] = (conv, Some e)" for conv s m e
    using that conversation_append_cases [of rec s "[m]" None False conv "Some e"] by (simp add: appendMessages_def)
  have app: "\<exists>conv. a1 = a\<lparr>ag_conversation := conv\<rparr> \<and> conversation_snapshot conv = conversation_snapshot (ag_conversation a)"
    if "appendUserInputLocked rec now update m b a = (a1, Some e)" for m b a1 e
    using appendUserInputLocked_cases [OF that] by auto
  have ok: "\<exists>conv ctx. a1 = a\<lparr>ag_conversation := conv\<rparr> \<and> history conv = history (ag_conversation a) @ ctx @ [m]"
    if "appendUserInputLocked rec now update m b a = (a1, None)" for m b a1
    using appendUserInputLocked_cases [OF that] by auto
  show ?thesis
  proof (cases "runActive \<or> ag_state a = StateDurabilityFailed")
    case True
    then show ?thesis using assms by (auto simp: RunMessage_start_def split: if_splits)
  next
    case False
    show ?thesis
    proof (cases msg)
      case None
      then show ?thesis
        using assms False by (auto simp: RunMessage_start_def run_admit_def split: if_splits)
    next
      case msg: (Some m)
      obtain a1 e1 where a1: "appendUserInputLocked rec now update m userInputStartsTurn a = (a1, e1)" by fastforce
      show ?thesis
      proof (cases e1)
        case None
        then obtain conv ctx where "a1 = a\<lparr>ag_conversation := conv\<rparr>" "history conv = history (ag_conversation a) @ ctx @ [m]"
          using ok [of m userInputStartsTurn a1] a1 by auto
        then show ?thesis
          using assms False msg a1 None err [of "ag_conversation a" m]
          by (auto simp: RunMessage_start_def run_admit_def startNewTurn_def split: if_splits option.splits prod.splits)
      next
        case (Some e)
        then obtain conv where "a1 = a\<lparr>ag_conversation := conv\<rparr>" "conversation_snapshot conv = conversation_snapshot (ag_conversation a)"
          using app [of m userInputStartsTurn a1] a1 by auto
        then show ?thesis
          using assms False msg a1 Some err [of "ag_conversation a" m]
          by (auto simp: RunMessage_start_def run_admit_def startNewTurn_def split: if_splits option.splits prod.splits)
      qed
    qed
  qed
qed

section \<open>Saving and restoring\<close>

text \<open>
  C28. Restoring a snapshot into any agent and saving it again yields the same snapshot, with no
  steering input left over, provided the saved usage is not empty or the history has none.
\<close>

theorem snapshot_restore_roundtrip:
  assumes "Normalized (ag_cumulativeUsage a) \<noteq> zero_Usage \<or> SessionUsage (history (ag_conversation a)) = zero_Usage"
  shows "Agent_Snapshot now (Restore (Agent_Snapshot t a) b) = Agent_Snapshot now a \<and>
    ag_pendingTurnUser (Restore (Agent_Snapshot t a) b) = []"
  using assms
  by (auto simp: Agent_Snapshot_def Restore_def Let_def conversation_snapshot_def conversation_restore_def)

section \<open>Witnesses\<close>

definition steered_agent :: "unit Agent" where
  "steered_agent = sample_agent\<lparr>ag_state := StateRunning,
     ag_conversation := newConversationState\<lparr>history := [NewUserMessage 1 ''hello'']\<rparr>,
     ag_pendingTurnUser := [NewUserMessage 2 ''also'', NewUserMessage 3 ''this'']\<rparr>"

theorem steering_applied_in_order_witness:
  "ag_pendingTurnUser (fst (applyPendingTurnUserInput (\<lambda>r m. (r, None)) 4 None None [NewUserMessage 4 ''late''] steered_agent))
     = [NewUserMessage 4 ''late'']"
proof -
  let ?out = "applyPendingTurnUserInput (\<lambda>r m. (r, None)) 4 None None [NewUserMessage 4 ''late''] steered_agent"
  have "snd ?out = Inr True" by code_simp
  moreover have "ag_pendingTurnUser steered_agent \<noteq> []" by (simp add: steered_agent_def)
  moreover have "?out = (fst ?out, snd ?out)" by (rule prod.collapse [symmetric])
  ultimately show ?thesis
    using steering_applied_in_order [of "\<lambda>r m. (r, None)" 4 None None "[NewUserMessage 4 ''late'']" steered_agent "fst ?out" "snd ?out"]
    by (metis Inl_Inr_False)
qed

theorem run_start_atomic_witness:
  "last (history (ag_conversation (fst (RunMessage_start (\<lambda>r m. (r, None)) 4 None False (Some (NewUserMessage 4 ''go'')) steered_agent))))
     = NewUserMessage 4 ''go''"
proof -
  let ?out = "RunMessage_start (\<lambda>r m. (r, None)) 4 None False (Some (NewUserMessage 4 ''go'')) steered_agent"
  have "snd ?out = None" by code_simp
  then show ?thesis
    using run_start_atomic [OF prod.collapse [symmetric, of ?out]]
    by simp
qed

theorem snapshot_restore_roundtrip_witness:
  "Agent_Snapshot 9 (Restore (Agent_Snapshot 8 steered_agent) sample_agent) = Agent_Snapshot 9 steered_agent"
proof -
  have "SessionUsage (history (ag_conversation steered_agent)) = zero_Usage" by code_simp
  then show ?thesis
    using snapshot_restore_roundtrip [of steered_agent 9 8 sample_agent] by simp
qed

end
