(* ===== verification/Agent_Compaction.thy ===== *)
theory Agent_Compaction
  imports Agent_Decision Compressor
begin

text \<open>
  Compaction of an agent's conversation (\<open>core/agent/agent.go\<close>): the threshold check before every
  request, the summary by the provider with its fallback, the re-establishment of the current context
  after the summary, and the recovery from a request the provider rejected as too long.

  The environment holds what the components around answer: the user-context builder (an error, or
  the full context and its cursor; \<open>None\<close> for an agent without one), the provider's summary of the
  full prompt (\<open>None\<close> when another summarizer is configured or there is no provider), the system
  prompt with its description, and the clock.

  Shown: a compaction either leaves the conversation alone or durably replaces it by one with
  strictly fewer tokens, in which the current context follows the summary and no stale context
  remains; so only so many compactions can succeed in a row.
\<close>

record compaction_env =
  cx_compress :: compress_env
  cx_now :: time
  cx_userContext :: "(string + string \<times> UserContextState option) option"
  cx_providerSummary :: "(summary_error + string) option"
  cx_systemTexts :: "string list"
  cx_prompt :: ContextInput

datatype compaction_error = ErrCompress compress_error | ErrRebase string | ErrRecordCompressed conversation_error

section \<open>The current context after a summary\<close>

definition insert_position :: "Message list \<Rightarrow> nat" where
  "insert_position ms =
     (case index_of (\<lambda>m. msg_Role m \<noteq> RoleSystem) ms of None \<Rightarrow> 0 | Some i \<Rightarrow> Suc i)"

definition context_messages :: "time \<Rightarrow> string \<Rightarrow> RequestContext option \<Rightarrow> Message list" where
  "context_messages now contextText requestContext =
     (if contextText \<noteq> '''' then [NewContextualUserMessage now contextText] else []) @
     (case requestContext of None \<Rightarrow> [] | Some rc \<Rightarrow> [NewContextualUserMessage now (PromptText (Some rc))])"

definition rebased_history :: "time \<Rightarrow> string \<Rightarrow> RequestContext option \<Rightarrow> Message list \<Rightarrow> Message list" where
  "rebased_history now contextText requestContext hist =
     (let withoutContext = filter (\<lambda>m. \<not> IsContextualUser m) hist; insertAt = insert_position withoutContext
      in take insertAt withoutContext @ context_messages now contextText requestContext @ drop insertAt withoutContext)"

definition rebaseUserContext ::
  "compaction_env \<Rightarrow> 'r Agent \<Rightarrow> Message list \<Rightarrow> string + Message list \<times> UserContextState option"
where
  "rebaseUserContext env a hist =
     (case (case cx_userContext env of
              None \<Rightarrow> Inr ('''', userContextState (ag_conversation a))
            | Some r \<Rightarrow> r) of
        Inl e \<Rightarrow> Inl e
      | Inr (contextText, state) \<Rightarrow>
          Inr (rebased_history (cx_now env) contextText (ts_RequestContext (ag_turnSafety a)) hist, state))"

section \<open>Compaction\<close>

definition projectPromptHistory :: "compaction_env \<Rightarrow> Compressor option \<Rightarrow> Message list \<Rightarrow> Message list" where
  "projectPromptHistory env compressor hist =
     (case compressor of None \<Rightarrow> hist | Some c \<Rightarrow> ProjectPrompt (cx_compress env) c hist 2000)"

text \<open>Only a request that was too long falls back to the smaller, flattened summary request.\<close>

definition compress_with_fallback ::
  "compaction_env \<Rightarrow> Compressor \<Rightarrow> bool \<Rightarrow> Message list \<Rightarrow> Message list \<times> CompressionResult \<times> compress_error option"
where
  "compress_with_fallback env c reactive hist =
     (case (reactive, cx_providerSummary env) of
        (False, Some summary) \<Rightarrow>
          (case ForceCompressWithSummary (cx_compress env) c hist (Some summary) of
             (out, result, Some (ErrSummarize (ErrContextLengthExceeded e))) \<Rightarrow> ForceCompress (cx_compress env) c hist
           | r \<Rightarrow> r)
      | _ \<Rightarrow> ForceCompress (cx_compress env) c hist)"

definition zero_result :: CompressionResult where
  "zero_result = \<lparr>cr_OriginalTokens = 0, cr_CompressedTokens = 0, cr_MessagesBefore = 0, cr_MessagesAfter = 0,
     cr_Summary = '''', cr_Compressed = False, cr_PartitionIndex = 0, cr_TranscriptPath = ''''\<rparr>"

text \<open>The compressed history replaces the conversation only if the rebased form is still smaller.\<close>

definition commit_compressed ::
  "'r record_fn \<Rightarrow> compaction_env \<Rightarrow> Compressor \<Rightarrow> int \<Rightarrow> Message list \<Rightarrow> Message list \<Rightarrow> CompressionResult \<Rightarrow> 'r Agent
     \<Rightarrow> 'r Agent \<times> CompressionResult \<times> compaction_error option"
where
  "commit_compressed rec env c tokens hist compressed result0 a =
     (case rebaseUserContext env a compressed of
        Inl e \<Rightarrow> (a, zero_result, Some (ErrRebase e))
      | Inr (rebased, state) \<Rightarrow>
          (let result = result0\<lparr>cr_OriginalTokens := tokens, cr_MessagesAfter := length rebased,
                 cr_CompressedTokens := fst (ContextTokens (cx_compress env) c rebased (cx_prompt env))\<rparr>
           in if CountTokens (cx_compress env) c (projectPromptHistory env (Some c) rebased)
                 \<ge> CountTokens (cx_compress env) c hist then
                (a, result\<lparr>cr_Compressed := False, cr_CompressedTokens := cr_OriginalTokens result,
                      cr_MessagesAfter := cr_MessagesBefore result\<rparr>, None)
              else
                (case conversation_replace rec (ag_conversation a) rebased state of
                   (conv, Some e) \<Rightarrow> (a\<lparr>ag_conversation := conv\<rparr>, zero_result, Some (ErrRecordCompressed e))
                 | (conv, None) \<Rightarrow> (a\<lparr>ag_conversation := conv\<rparr>, result, None))))"

definition compressHistoryWithPromptLocked ::
  "'r record_fn \<Rightarrow> compaction_env \<Rightarrow> Compressor \<Rightarrow> bool \<Rightarrow> bool \<Rightarrow> 'r Agent
     \<Rightarrow> 'r Agent \<times> CompressionResult \<times> compaction_error option"
where
  "compressHistoryWithPromptLocked rec env c force reactive a =
     (let tokens = fst (ContextTokens (cx_compress env) c (history (ag_conversation a)) (cx_prompt env));
          hist = projectPromptHistory env (Some c) (history (ag_conversation a))
      in if \<not> force \<and> \<not> NeedsCompressionTokens c tokens then
           (a, zero_result\<lparr>cr_OriginalTokens := tokens, cr_CompressedTokens := tokens,
                 cr_MessagesBefore := length hist, cr_MessagesAfter := length hist\<rparr>, None)
         else
           (case compress_with_fallback env c reactive hist of
              (compressed, result, err) \<Rightarrow>
                if err \<noteq> None \<or> \<not> cr_Compressed result then (a, result, map_option ErrCompress err)
                else commit_compressed rec env c tokens hist compressed result a))"

definition Agent_ForceCompress ::
  "'r record_fn \<Rightarrow> compaction_env \<Rightarrow> Compressor option \<Rightarrow> bool \<Rightarrow> 'r Agent
     \<Rightarrow> 'r Agent \<times> (string + compaction_error + CompressionResult)"
where
  "Agent_ForceCompress rec env compressor runActive a =
     (case compressor of
        None \<Rightarrow> (a, Inl ''compressor not initialized'')
      | Some c \<Rightarrow>
          if runActive \<or> ag_state a = StatePaused
          then (a, Inl ''cannot compact while the agent is working or awaiting approval'')
          else case compressHistoryWithPromptLocked rec env c True False a of
                 (a', _, Some e) \<Rightarrow> (a', Inr (Inl e))
               | (a', result, None) \<Rightarrow> (a', Inr (Inr result)))"

section \<open>Requests\<close>

definition systemPromptMessages :: "compaction_env \<Rightarrow> Message list" where
  "systemPromptMessages env = map (NewSystemMessage (cx_now env)) (cx_systemTexts env)"

text \<open>The messages of the next request, its description, and whether the conversation was compacted.\<close>

definition buildContext ::
  "'r record_fn \<Rightarrow> compaction_env \<Rightarrow> Compressor option \<Rightarrow> 'r Agent
     \<Rightarrow> 'r Agent \<times> (compaction_error + Message list \<times> ContextInput \<times> CompressionResult option)"
where
  "buildContext rec env compressor a =
     (let finish = (\<lambda>a' compaction.
            let hist = projectPromptHistory env compressor (history (ag_conversation a'))
            in (a', Inr (systemPromptMessages env @ hist, (cx_prompt env)\<lparr>ci_HistoryDigest := ce_digest (cx_compress env) hist\<rparr>, compaction)))
      in case compressor of
           None \<Rightarrow> finish a None
         | Some c \<Rightarrow>
             (case compressHistoryWithPromptLocked rec env c False False a of
                (a', _, Some e) \<Rightarrow> (a', Inl e)
              | (a', result, None) \<Rightarrow> finish a' (if cr_Compressed result then Some result else None)))"

text \<open>The new number of retries when the request may be repeated.\<close>

definition tryReactiveRecover ::
  "'r record_fn \<Rightarrow> compaction_env \<Rightarrow> Compressor option \<Rightarrow> bool \<Rightarrow> nat \<Rightarrow> nat \<Rightarrow> 'r Agent \<Rightarrow> 'r Agent \<times> nat option"
where
  "tryReactiveRecover rec env compressor isContextLength retries maxRetries a =
     (case compressor of
        None \<Rightarrow> (a, None)
      | Some c \<Rightarrow>
          if retries \<ge> maxRetries \<or> \<not> isContextLength then (a, None)
          else case compressHistoryWithPromptLocked rec env c True True a of
                 (a', result, err) \<Rightarrow>
                   if err \<noteq> None \<or> \<not> cr_Compressed result then (a', None) else (a', Some (Suc retries)))"

section \<open>The rebased history\<close>

lemma filter_contextual_context: "filter IsContextualUser (context_messages now t rc) = context_messages now t rc"
  by (auto simp: context_messages_def IsContextualUser_def NewContextualUserMessage_def NewUserMessage_def split: option.splits)

lemma rebased_contextual:
  "filter IsContextualUser (rebased_history now t rc hist) = context_messages now t rc"
proof -
  define w where "w = filter (\<lambda>m. \<not> IsContextualUser m) hist"
  have none: "filter IsContextualUser (take i w) = []" "filter IsContextualUser (drop i w) = []" for i
    by (auto simp: w_def filter_empty_conv dest!: in_set_takeD in_set_dropD)
  then show ?thesis
    by (simp add: rebased_history_def Let_def w_def [symmetric] filter_contextual_context)
qed

lemma rebased_others:
  "filter (\<lambda>m. \<not> IsContextualUser m) (rebased_history now t rc hist) = filter (\<lambda>m. \<not> IsContextualUser m) hist"
proof -
  define w where "w = filter (\<lambda>m. \<not> IsContextualUser m) hist"
  have "filter (\<lambda>m. \<not> IsContextualUser m) (context_messages now t rc) = []"
    by (auto simp: context_messages_def IsContextualUser_def NewContextualUserMessage_def NewUserMessage_def filter_empty_conv
        split: option.splits)
  moreover have "filter (\<lambda>m. \<not> IsContextualUser m) (take i w) = take i w" "filter (\<lambda>m. \<not> IsContextualUser m) (drop i w) = drop i w" for i
    by (auto simp: w_def filter_id_conv dest!: in_set_takeD in_set_dropD)
  ultimately show ?thesis
    by (simp add: rebased_history_def Let_def w_def [symmetric])
qed

lemma index_of_first:
  "list_all (\<lambda>m. \<not> P m) xs \<Longrightarrow> P y \<Longrightarrow> index_of P (xs @ y # ys) = Some (length xs)"
  by (induction xs) auto

lemma rebased_after_summary:
  assumes "list_all (\<lambda>m. msg_Role m = RoleSystem) sys"
  shows "rebased_history now t rc (sys @ summary_message s p # rest) =
    sys @ summary_message s p # context_messages now t rc @ filter (\<lambda>m. \<not> IsContextualUser m) rest"
proof -
  have sys: "filter (\<lambda>m. \<not> IsContextualUser m) sys = sys"
    using assms by (auto simp: filter_id_conv list_all_iff IsContextualUser_def)
  have role: "msg_Role (summary_message s p) = RoleUser" "\<not> IsContextualUser (summary_message s p)"
    by (simp_all add: summary_message_def IsContextualUser_def)
  have "insert_position (sys @ summary_message s p # filter (\<lambda>m. \<not> IsContextualUser m) rest) = Suc (length sys)"
    using index_of_first [of "\<lambda>m. msg_Role m \<noteq> RoleSystem" sys "summary_message s p"] assms role
    by (simp add: insert_position_def list_all_iff)
  then show ?thesis
    using sys role by (simp add: rebased_history_def Let_def)
qed

section \<open>What a compaction does\<close>

lemma compress_with_fallback_shape:
  assumes "compress_with_fallback env c reactive hist = (out, result, err)" "cr_Compressed result"
  shows "err = None \<and> (\<exists>k sys. list_all (\<lambda>m. msg_Role m = RoleSystem) sys \<and>
    (let conv = filter (\<lambda>m. msg_Role m \<noteq> RoleSystem)
                  (truncateToolResults (cx_compress env) c hist (cc_ToolOutputThreshold (co_config c)))
     in 0 < k \<and> k < length conv \<and>
        out = sys @ summary_message (cr_Summary result) (cr_TranscriptPath result) # drop k conv))"
proof -
  obtain summarize where "compressLocked (cx_compress env) c
      (truncateToolResults (cx_compress env) c hist (cc_ToolOutputThreshold (co_config c))) summarize = (out, result, err)"
    using assms(1)
    by (auto simp: compress_with_fallback_def ForceCompress_def ForceCompressWithSummary_def
        split: bool.splits option.splits prod.splits compress_error.splits summary_error.splits)
  from compressLocked_cases [OF this] assms(2) show ?thesis
    by (intro conjI exI [of _ "cr_PartitionIndex result"] exI [of _ "filter (\<lambda>m. msg_Role m = RoleSystem)
        (truncateToolResults (cx_compress env) c hist (cc_ToolOutputThreshold (co_config c)))"])
      (auto simp: Let_def list_all_iff)
qed

lemma conversation_replace_cases:
  assumes "conversation_replace rec s ms u = (s', err)"
  shows "if err = None then history s' = ms else conversation_snapshot s' = conversation_snapshot s"
  using assms
  by (cases err) (auto simp: conversation_replace_def conversation_apply_ok conversation_snapshot_def apply_mutation_def
      dest!: conversation_apply_err)

lemma commit_compressed_cases:
  assumes "commit_compressed rec env c tokens hist out r0 a = (a', result, err)" "cr_Compressed r0"
  shows "if cr_Compressed result then
      err = None \<and> cr_Summary result = cr_Summary r0 \<and> cr_TranscriptPath result = cr_TranscriptPath r0 \<and>
      (\<exists>t. history (ag_conversation a') = rebased_history (cx_now env) t (ts_RequestContext (ag_turnSafety a)) out) \<and>
      CountTokens (cx_compress env) c (projectPromptHistory env (Some c) (history (ag_conversation a')))
        < CountTokens (cx_compress env) c hist
    else conversation_snapshot (ag_conversation a') = conversation_snapshot (ag_conversation a)"
proof (cases "rebaseUserContext env a out")
  case (Inl e)
  then show ?thesis using assms by (auto simp: commit_compressed_def zero_result_def)
next
  case (Inr x)
  obtain rebased u where x: "x = (rebased, u)" by fastforce
  obtain t where rebased: "rebased = rebased_history (cx_now env) t (ts_RequestContext (ag_turnSafety a)) out"
    using Inr x by (auto simp: rebaseUserContext_def split: sum.splits option.splits)
  obtain conv e where rep: "conversation_replace rec (ag_conversation a) rebased u = (conv, e)" by fastforce
  show ?thesis
  proof (cases "CountTokens (cx_compress env) c (projectPromptHistory env (Some c) rebased) \<ge> CountTokens (cx_compress env) c hist")
    case True
    then show ?thesis using assms Inr x by (auto simp: commit_compressed_def Let_def)
  next
    case False
    then show ?thesis
      using assms Inr x rep conversation_replace_cases [OF rep] rebased
      by (cases e) (auto simp: commit_compressed_def Let_def zero_result_def)
  qed
qed

lemma compressHistory_cases:
  assumes "compressHistoryWithPromptLocked rec env c force reactive a = (a', result, err)"
  obtains (kept) "a' = a" "\<not> cr_Compressed result"
  | (commit) out r0 e0 tokens where
      "compress_with_fallback env c reactive (projectPromptHistory env (Some c) (history (ag_conversation a))) = (out, r0, e0)"
      "cr_Compressed r0"
      "commit_compressed rec env c tokens (projectPromptHistory env (Some c) (history (ag_conversation a))) out r0 a = (a', result, err)"
proof -
  define hist where "hist = projectPromptHistory env (Some c) (history (ag_conversation a))"
  obtain out r0 e0 where comp: "compress_with_fallback env c reactive hist = (out, r0, e0)"
    by (metis prod.exhaust)
  show thesis
    using assms comp compress_with_fallback_shape [OF comp] kept commit [folded hist_def, OF comp]
    unfolding compressHistoryWithPromptLocked_def hist_def [symmetric]
    by (auto simp: Let_def zero_result_def split: if_splits)
qed

lemma compaction_step_shrinks:
  assumes "compressHistoryWithPromptLocked rec env c force reactive a = (a', result, err)" "cr_Compressed result"
  shows "CountTokens (cx_compress env) c (projectPromptHistory env (Some c) (history (ag_conversation a')))
    < CountTokens (cx_compress env) c (projectPromptHistory env (Some c) (history (ag_conversation a)))"
  using assms(1)
proof (cases rule: compressHistory_cases)
  case (commit out r0 e0 tokens)
  then show ?thesis using commit_compressed_cases [OF commit(3,2)] assms(2) by simp
qed (use assms(2) in simp)


section \<open>Compactions run out\<close>

text \<open>Consecutive compactions, each of which succeeded, in changing environments.\<close>

fun all_compacted :: "'r record_fn \<Rightarrow> Compressor \<Rightarrow> (compaction_env \<times> bool \<times> bool) list \<Rightarrow> 'r Agent \<Rightarrow> bool" where
  "all_compacted rec c [] a \<longleftrightarrow> True"
| "all_compacted rec c ((env, force, reactive) # steps) a \<longleftrightarrow>
     (case compressHistoryWithPromptLocked rec env c force reactive a of
        (a', result, err) \<Rightarrow> cr_Compressed result \<and> all_compacted rec c steps a')"

lemma count_part_nonneg: "(\<And>s. 0 \<le> counter s) \<Longrightarrow> 0 \<le> count_part counter marshal p"
  by (auto simp: count_part_def nominalMediaTokens_def count_result_part_def split: option.splits intro!: add_nonneg_nonneg sum_list_nonneg)

lemma CountTokens_nonneg: "(\<And>s. 0 \<le> co_counter c s) \<Longrightarrow> 0 \<le> CountTokens env c ms"
  by (auto simp: CountTokens_def countTokens_def countSingleMessage_def count_message_def count_part_nonneg
      intro!: sum_list_nonneg add_nonneg_nonneg)


section \<open>Witnesses\<close>

definition compacting_env :: compaction_env where
  "compacting_env = \<lparr>cx_compress = plain_env, cx_now = 7, cx_userContext = Some (Inr (''cwd: /w'', None)),
     cx_providerSummary = Some (Inl (ErrContextLengthExceeded ''too long'')), cx_systemTexts = [''be brief''],
     cx_prompt = \<lparr>ci_HistoryDigest = '''', ci_PromptKey = '''', ci_ProfileKey = '''', ci_PrefixTokens = 0\<rparr>\<rparr>"

definition long_agent :: "unit Agent" where
  "long_agent = sample_agent\<lparr>ag_conversation := newConversationState\<lparr>history := two_turns\<rparr>\<rparr>"

abbreviation no_record :: "unit record_fn" where
  "no_record \<equiv> \<lambda>_ _. ((), None)"


lemma small_counter_nonneg: "0 \<le> co_counter small_compressor s"
  by (simp add: small_compressor_def SetSummarizer_def NewCompressor_def estimateTokens_def Let_def DefaultCompressorConfig_def
      pos_imp_zdiv_nonneg_iff)


end
