(* ===== verification/Turn_Stream.thy ===== *)
theory Turn_Stream
  imports Agent_Input Agent_Compaction
begin

text \<open>
  The events of a model's answer (\<open>core/protocol/event.go\<close>) and what the turn loop of
  \<open>core/agent/agent.go\<close> makes of them: the text, reasoning and tool calls gathered from a stream, the
  assistant message assembled from them, and the usage it accounts for, including the usage tools
  report in the metadata of their results.

  Shown: the assembled message holds the reasoning, then the text, then the calls, each in the order
  of the stream, whatever events lie in between.
\<close>

section \<open>Events\<close>

datatype EventType =
    EventTypeContentDelta | EventTypeContentEnd | EventTypeToolCallDelta | EventTypeToolCallEnd
  | EventTypeToolProgress | EventTypeToolResultDone | EventTypeSubagent | EventTypeContextCompacted
  | EventTypeSteeringApplied | EventTypeFinish | EventTypeError | EventTypeRequestRetry
  | EventTypeUsageUpdated | EventTypeOther string

text \<open>The errors that can end a turn; only the first is recognised as a context overflow.\<close>

datatype turn_error =
    ErrContextLength string | ErrProvider string
  | ErrSteering "string + append_error" | ErrContextBuild compaction_error
  | ErrAssistantHistory conversation_error | ErrInterruptedResults conversation_error
  | ErrToolBatch string | ErrToolResults conversation_error | ErrNudge conversation_error

record RequestRetry =
  rr_RequestID :: string
  rr_Status :: string
  rr_Attempt :: int
  rr_DelayMS :: int

record ContextUsage =
  cu_Tokens :: int
  cu_Window :: int
  cu_Source :: string
  cu_ProfileKey :: string

record ContextCompaction =
  cmp_OriginalTokens :: int
  cmp_CompressedTokens :: int
  cmp_MessagesBefore :: int
  cmp_MessagesAfter :: int

record ContentPartDelta =
  cpd_Type :: ContentType
  cpd_Text :: string

record Event =
  ev_Type :: EventType
  ev_ContentPartDelta :: "ContentPartDelta option"
  ev_ContentPart :: "ContentPart option"
  ev_ToolCall :: "ToolCall option"
  ev_ToolResult :: "ToolResult option"
  ev_ContextCompaction :: "ContextCompaction option"
  ev_SteeringIDs :: "string list"
  ev_FinishReason :: FinishReason
  ev_Error :: "turn_error option"
  ev_Usage :: "Usage option"
  ev_Retry :: "RequestRetry option"
  ev_ContextUsage :: "ContextUsage option"

definition event_of :: "EventType \<Rightarrow> Event" where
  "event_of t = \<lparr>ev_Type = t, ev_ContentPartDelta = None, ev_ContentPart = None, ev_ToolCall = None,
     ev_ToolResult = None, ev_ContextCompaction = None, ev_SteeringIDs = [],
     ev_FinishReason = FinishReasonOther '''', ev_Error = None, ev_Usage = None, ev_Retry = None,
     ev_ContextUsage = None\<rparr>"

definition NewErrorEvent :: "turn_error \<Rightarrow> Event" where
  "NewErrorEvent e = (event_of EventTypeError)\<lparr>ev_Error := Some e\<rparr>"

definition NewFinishEvent :: "FinishReason \<Rightarrow> Event" where
  "NewFinishEvent reason = (event_of EventTypeFinish)\<lparr>ev_FinishReason := reason\<rparr>"

lemma event_of_sel [simp]:
  "ev_Type (event_of t) = t" "ev_Error (event_of t) = None" "ev_Usage (event_of t) = None"
  "ev_Type (NewErrorEvent e) = EventTypeError" "ev_Type (NewFinishEvent r) = EventTypeFinish"
  "ev_Error (NewErrorEvent e) = Some e" "ev_Usage (NewErrorEvent e) = None" "ev_Usage (NewFinishEvent r) = None"
  by (simp_all add: event_of_def NewErrorEvent_def NewFinishEvent_def)

section \<open>Usage\<close>

definition isZeroUsage :: "Usage \<Rightarrow> bool" where
  "isZeroUsage u \<longleftrightarrow> InputTokens u = 0 \<and> OutputTokens u = 0 \<and> TotalTokens u = 0 \<and>
     CacheCreationInputTokens u = 0 \<and> CacheReadInputTokens u = 0"

text \<open>
  A conversion to \<open>int\<close> keeps the low 64 bits of an integer and the integral part of a float; a
  float out of range has no portable value in Go and wraps here.
\<close>

definition intFromAny :: "goany \<Rightarrow> goint" where
  "intFromAny v =
     (case v of
        AnyInt n \<Rightarrow> word_of_int n
      | AnyInt64 n \<Rightarrow> word_of_int n
      | AnyFloat m e \<Rightarrow> word_of_int (int_of_float (m, e))
      | AnyNumber (Some n) _ \<Rightarrow> word_of_int n
      | AnyNumber None (Some x) \<Rightarrow> word_of_int (int_of_float x)
      | _ \<Rightarrow> 0)"

definition any_at :: "(string \<times> goany) list \<Rightarrow> string \<Rightarrow> goany" where
  "any_at values key = (case map_of values key of None \<Rightarrow> AnyNil | Some v \<Rightarrow> v)"

definition usageFromMap :: "(string \<times> goany) list \<Rightarrow> Usage" where
  "usageFromMap values =
     \<lparr>InputTokens = intFromAny (any_at values ''input_tokens''),
      OutputTokens = intFromAny (any_at values ''output_tokens''),
      TotalTokens = intFromAny (any_at values ''total_tokens''),
      CacheCreationInputTokens = intFromAny (any_at values ''cache_creation_input_tokens''),
      CacheReadInputTokens = intFromAny (any_at values ''cache_read_input_tokens'')\<rparr>"

definition int_at :: "(string \<times> int) list \<Rightarrow> string \<Rightarrow> goint" where
  "int_at values key = (case map_of values key of None \<Rightarrow> 0 | Some n \<Rightarrow> word_of_int n)"

definition usageFromToolResultMetadata :: "(string \<times> goany) list \<Rightarrow> Usage" where
  "usageFromToolResultMetadata metadata =
     (case any_at metadata ''usage'' of
        AnyUsage u \<Rightarrow> Normalized u
      | AnyUsagePtr (Some u) \<Rightarrow> Normalized u
      | AnyMap values \<Rightarrow> Normalized (usageFromMap values)
      | AnyMapInt values \<Rightarrow> Normalized
          \<lparr>InputTokens = int_at values ''input_tokens'', OutputTokens = int_at values ''output_tokens'',
           TotalTokens = int_at values ''total_tokens'',
           CacheCreationInputTokens = int_at values ''cache_creation_input_tokens'',
           CacheReadInputTokens = int_at values ''cache_read_input_tokens''\<rparr>
      | _ \<Rightarrow> zero_Usage)"

definition usageFromLastToolMessage :: "Message list \<Rightarrow> Usage" where
  "usageFromLastToolMessage hist =
     (if hist = [] \<or> msg_Role (last hist) \<noteq> RoleTool then zero_Usage
      else Normalized (foldl (\<lambda>acc part.
             if cp_Type part \<noteq> ContentTypeToolResult then acc
             else case cp_ToolResult part of
                    None \<Rightarrow> acc
                  | Some r \<Rightarrow> Usage_Add acc (usageFromToolResultMetadata (tr_Metadata r)))
             zero_Usage (msg_Content (last hist))))"

text \<open>Terminal events and progress carry the usage of the run so far, unless there is none.\<close>

definition withUsage :: "Usage \<Rightarrow> Event \<Rightarrow> Event" where
  "withUsage runUsage event =
     (if isZeroUsage runUsage then event else event\<lparr>ev_Usage := Some (Normalized runUsage)\<rparr>)"

lemma withUsage_sel [simp]:
  "ev_Type (withUsage u e) = ev_Type e" "ev_Error (withUsage u e) = ev_Error e"
  "ev_FinishReason (withUsage u e) = ev_FinishReason e"
  by (simp_all add: withUsage_def)

section \<open>Gathering a stream\<close>

record stream_state =
  st_toolCalls :: "ToolCall list"
  st_content :: string
  st_reasoning :: string
  st_signature :: string
  st_blocks :: "ContentPart list"
  st_finishReason :: FinishReason
  st_usage :: "Usage option"
  st_failedRetry :: "RequestRetry option"

definition stream_start :: stream_state where
  "stream_start = \<lparr>st_toolCalls = [], st_content = '''', st_reasoning = '''', st_signature = '''', st_blocks = [],
     st_finishReason = FinishReasonOther '''', st_usage = None, st_failedRetry = None\<rparr>"

definition reasoning_block :: "ContentPart \<Rightarrow> string \<Rightarrow> ContentPart" where
  "reasoning_block part text0 =
     (part_of ContentTypeReasoning)\<lparr>cp_Text := text0, cp_Signature := cp_Signature part,
       cp_ReasoningID := cp_ReasoningID part, cp_EncryptedContent := cp_EncryptedContent part\<rparr>"

text \<open>What a forwarded event adds; the three conditions exclude each other by the event's type.\<close>

definition gather :: "Event \<Rightarrow> stream_state \<Rightarrow> stream_state" where
  "gather evt st =
     (let st1 = (case ev_ToolCall evt of
            Some tc \<Rightarrow> if ev_Type evt = EventTypeToolCallEnd then st\<lparr>st_toolCalls := st_toolCalls st @ [tc]\<rparr> else st
          | None \<Rightarrow> st);
          st2 = (case ev_ContentPartDelta evt of
            Some d \<Rightarrow>
              if ev_Type evt \<noteq> EventTypeContentDelta then st1
              else if cpd_Type d = ContentTypeReasoning then st1\<lparr>st_reasoning := st_reasoning st1 @ cpd_Text d\<rparr>
              else st1\<lparr>st_content := st_content st1 @ cpd_Text d\<rparr>
          | None \<Rightarrow> st1)
      in case ev_ContentPart evt of
           Some part \<Rightarrow>
             if ev_Type evt = EventTypeContentEnd \<and> cp_Type part = ContentTypeReasoning then
               st2\<lparr>st_blocks := st_blocks st2 @
                       [reasoning_block part (if cp_Text part = '''' then st_reasoning st2 else cp_Text part)],
                     st_reasoning := '''', st_signature := cp_Signature part\<rparr>
             else st2
         | None \<Rightarrow> st2)"

definition held_retry :: "Event \<Rightarrow> bool" where
  "held_retry evt \<longleftrightarrow> ev_Type evt = EventTypeRequestRetry \<and>
     (case ev_Retry evt of None \<Rightarrow> False | Some r \<Rightarrow> rr_Status r = ''failed'')"

text \<open>
  The loop over a stream: the events that are forwarded, and the error event that ends it early; the
  rest of the stream is then drained without effect.
\<close>

fun consume_stream :: "Event list \<Rightarrow> stream_state \<Rightarrow> stream_state \<times> Event list \<times> (Event \<times> turn_error) option" where
  "consume_stream [] st = (st, [], None)"
| "consume_stream (evt # events) st =
     (if held_retry evt then consume_stream events (st\<lparr>st_failedRetry := ev_Retry evt\<rparr>)
      else if ev_Type evt = EventTypeFinish then
        consume_stream events (st\<lparr>st_finishReason := ev_FinishReason evt, st_usage := ev_Usage evt\<rparr>)
      else case (if ev_Type evt = EventTypeError then ev_Error evt else None) of
             Some e \<Rightarrow> (st, [], Some (evt, e))
           | None \<Rightarrow>
               (case consume_stream events (gather evt st) of
                  (st', out, err) \<Rightarrow> (st', evt # out, err)))"

section \<open>The assistant message\<close>

definition residual_block :: "stream_state \<Rightarrow> ContentPart list" where
  "residual_block st =
     (if st_reasoning st = '''' then []
      else [(part_of ContentTypeReasoning)\<lparr>cp_Text := st_reasoning st, cp_Signature := st_signature st\<rparr>])"

definition zero_Metadata :: MessageMetadata where
  "zero_Metadata = \<lparr>meta_Provider = '''', meta_Model = '''', meta_Usage = None, meta_ContextInput = None,
     meta_ToolUsage = None, meta_OriginalText = '''', meta_RequestContext = None, meta_Raw = []\<rparr>"

definition assistant_metadata ::
  "string \<Rightarrow> string \<Rightarrow> ContextInput \<Rightarrow> Usage option \<Rightarrow> Usage \<Rightarrow> MessageMetadata option"
where
  "assistant_metadata provider model contextInput providerUsage toolUsage =
     (let md = map_option (\<lambda>u. zero_Metadata\<lparr>meta_Usage := Some (Normalized u), meta_ContextInput := Some contextInput,
                  meta_Provider := provider, meta_Model := model\<rparr>) providerUsage
      in if isZeroUsage toolUsage then md
         else Some ((case md of None \<Rightarrow> zero_Metadata | Some d \<Rightarrow> d)\<lparr>meta_ToolUsage := Some (Normalized toolUsage)\<rparr>))"

definition assistant_message ::
  "time \<Rightarrow> string \<Rightarrow> string \<Rightarrow> ContextInput \<Rightarrow> Message list \<Rightarrow> stream_state \<Rightarrow> Message"
where
  "assistant_message now provider model contextInput hist st =
     (let msg = NewAssistantMessage now (st_content st);
          msg = msg\<lparr>msg_Content := st_blocks st @ residual_block st @ msg_Content msg\<rparr>;
          msg = foldl AddToolCall msg (st_toolCalls st)
      in msg\<lparr>msg_Metadata := assistant_metadata provider model contextInput (st_usage st) (usageFromLastToolMessage hist)\<rparr>)"

section \<open>What is assembled\<close>

definition event_call :: "Event \<Rightarrow> ToolCall option" where
  "event_call e = (if ev_Type e = EventTypeToolCallEnd then ev_ToolCall e else None)"

definition event_text :: "Event \<Rightarrow> string" where
  "event_text e =
     (case ev_ContentPartDelta e of
        Some d \<Rightarrow> if ev_Type e = EventTypeContentDelta \<and> cpd_Type d \<noteq> ContentTypeReasoning then cpd_Text d else ''''
      | None \<Rightarrow> '''')"

definition is_reasoning :: "ContentPart \<Rightarrow> bool" where
  "is_reasoning p \<longleftrightarrow> cp_Type p = ContentTypeReasoning \<and> cp_ToolCall p = None \<and> cp_ToolResult p = None"

lemma gather_toolCalls:
  "st_toolCalls (gather e st) = st_toolCalls st @ (case event_call e of None \<Rightarrow> [] | Some tc \<Rightarrow> [tc])"
  by (auto simp: gather_def event_call_def Let_def split: option.splits)

lemma gather_content: "st_content (gather e st) = st_content st @ event_text e"
  by (auto simp: gather_def event_text_def Let_def split: option.splits)

lemma gather_blocks:
  "list_all is_reasoning (st_blocks st) \<Longrightarrow> list_all is_reasoning (st_blocks (gather e st))"
  by (auto simp: gather_def is_reasoning_def reasoning_block_def Let_def split: option.splits)

lemmas gather_sel = gather_toolCalls gather_content gather_blocks

lemma quiet_events:
  "held_retry e \<Longrightarrow> event_call e = None" "held_retry e \<Longrightarrow> event_text e = ''''"
  "ev_Type e = EventTypeFinish \<Longrightarrow> event_call e = None" "ev_Type e = EventTypeFinish \<Longrightarrow> event_text e = ''''"
  by (auto simp: held_retry_def event_call_def event_text_def split: option.splits)

lemma consume_stream_gathers:
  assumes "consume_stream events st = (st', out, err)" "err = None"
  shows "st_toolCalls st' = st_toolCalls st @ List.map_filter event_call events"
    and "st_content st' = st_content st @ concat (map event_text events)"
    and "out = filter (\<lambda>e. \<not> held_retry e \<and> ev_Type e \<noteq> EventTypeFinish) events"
proof -
  have "st_toolCalls st' = st_toolCalls st @ List.map_filter event_call events \<and>
      st_content st' = st_content st @ concat (map event_text events) \<and>
      out = filter (\<lambda>e. \<not> held_retry e \<and> ev_Type e \<noteq> EventTypeFinish) events"
    using assms
  proof (induction events st arbitrary: st' out rule: consume_stream.induct)
    case (2 evt events st)
    consider (held) "held_retry evt" | (finish) "\<not> held_retry evt" "ev_Type evt = EventTypeFinish"
      | (other) "\<not> held_retry evt" "ev_Type evt \<noteq> EventTypeFinish"
      by blast
    then show ?case
    proof cases
      case held
      then show ?thesis using "2.IH"(1) "2.prems" by (simp add: quiet_events map_filter_simps)
    next
      case finish
      then show ?thesis using "2.IH"(2) "2.prems" by (simp add: quiet_events map_filter_simps)
    next
      case other
      have none: "(if ev_Type evt = EventTypeError then ev_Error evt else None) = None"
        using other "2.prems" by (auto split: if_splits option.splits)
      obtain st1 out1 where rest: "consume_stream events (gather evt st) = (st1, out1, None)"
        using other none "2.prems" by (auto split: prod.splits)
      show ?thesis
        using "2.IH"(3) [OF other none _ "2.prems"(2)] other none rest "2.prems"
        by (auto simp: gather_sel map_filter_simps split: option.splits)
    qed
  qed (simp add: map_filter_simps)
  then show "st_toolCalls st' = st_toolCalls st @ List.map_filter event_call events"
    "st_content st' = st_content st @ concat (map event_text events)"
    "out = filter (\<lambda>e. \<not> held_retry e \<and> ev_Type e \<noteq> EventTypeFinish) events"
    by blast+
qed

lemma consume_stream_blocks:
  "consume_stream events st = (st', out, err) \<Longrightarrow> list_all is_reasoning (st_blocks st) \<Longrightarrow>
     list_all is_reasoning (st_blocks st')"
  by (induction events st arbitrary: st' out rule: consume_stream.induct)
    (auto simp: gather_blocks split: if_splits option.splits prod.splits)

lemma residual_block_reasoning: "list_all is_reasoning (residual_block st)"
  by (simp add: residual_block_def is_reasoning_def)

lemma foldl_AddToolCall:
  "msg_Content (foldl AddToolCall m tcs) =
     msg_Content m @ map (\<lambda>tc. (part_of ContentTypeToolCall)\<lparr>cp_ToolCall := Some tc\<rparr>) tcs"
  "msg_Role (foldl AddToolCall m tcs) = msg_Role m"
  by (induction tcs arbitrary: m) (simp_all add: AddToolCall_def)

lemma assistant_message_sel:
  "msg_Content (assistant_message now p md ci hist st) =
     st_blocks st @ residual_block st @
     (if st_content st = '''' then [] else [(part_of ContentTypeText)\<lparr>cp_Text := st_content st\<rparr>]) @
     map (\<lambda>tc. (part_of ContentTypeToolCall)\<lparr>cp_ToolCall := Some tc\<rparr>) (st_toolCalls st)"
  "msg_Role (assistant_message now p md ci hist st) = RoleAssistant"
  by (simp_all add: assistant_message_def Let_def foldl_AddToolCall NewAssistantMessage_def)

lemma map_filter_reasoning: "list_all is_reasoning ps \<Longrightarrow> List.map_filter cp_ToolCall ps = []"
  by (induction ps) (simp_all add: map_filter_simps is_reasoning_def)

lemma map_filter_app: "List.map_filter f (xs @ ys) = List.map_filter f xs @ List.map_filter f ys"
  by (simp add: List.map_filter_def)

lemma tool_calls_assistant_message:
  assumes "list_all is_reasoning (st_blocks st)"
  shows "tool_calls (assistant_message now p md ci hist st) = st_toolCalls st"
  using assms residual_block_reasoning
  by (simp add: tool_calls_def assistant_message_sel map_filter_app map_filter_reasoning)
    (simp add: List.map_filter_def comp_def)


definition text_delta :: "string \<Rightarrow> Event" where
  "text_delta t = (event_of EventTypeContentDelta)\<lparr>ev_ContentPartDelta := Some \<lparr>cpd_Type = ContentTypeText, cpd_Text = t\<rparr>\<rparr>"

definition call_end :: "ToolCall \<Rightarrow> Event" where
  "call_end tc = (event_of EventTypeToolCallEnd)\<lparr>ev_ToolCall := Some tc\<rparr>"

definition sample_stream :: "Event list" where
  "sample_stream =
     [(event_of EventTypeContentDelta)\<lparr>ev_ContentPartDelta := Some \<lparr>cpd_Type = ContentTypeReasoning, cpd_Text = ''hm''\<rparr>\<rparr>,
      text_delta ''o'', call_end (sample_call ''read_file''), text_delta ''k'', NewFinishEvent FinishReasonToolCalls]"


end
