(* ===== verification/Runtime_Profile.thy ===== *)
theory Runtime_Profile
  imports Agent_Decision Compressor
begin

text \<open>
  Switching the profile of an agent at run time (\<open>core/agent/runtime_profile.go\<close>): a request is
  queued, superseded by a later one, and applied at once while the agent is idle or else before the
  next generation.  A profile is what the host prepared: the classifier, the approval fallback, the
  context window and the summarizer of the new provider, and whether committing the switch failed.

  The mutex makes each definition atomic; a request taken out of the slot is in flight until its
  result is delivered, and \<open>profileApplyMu\<close> allows one at a time.  The steps of the relation are the
  critical sections, in any order the code allows.

  Shown: every request gets exactly one result, results are final, and the profile in use is that of
  the last request reported as successful.
\<close>

section \<open>State\<close>

record RuntimeProfile =
  rp_Name :: string
  rp_HasProvider :: bool
  rp_ContextWindow :: int
  rp_Summarizer :: "Message list \<Rightarrow> summary_error + string"
  rp_Classifier :: "SafetyClassifier option"
  rp_ClassifierUnavailableReason :: string
  rp_ForceManualApproval :: bool
  rp_BeforeApply :: "string option"

text \<open>A request carries a number in the place of its result channel.\<close>

record runtimeProfileRequest =
  rq_id :: nat
  rq_profile :: RuntimeProfile

datatype profile_error = ErrRuntimeProfileSuperseded | ErrProfileInvalid | ErrBeforeApply string

record 'r profile_host =
  ph_agent :: "'r Agent"
  ph_compressor :: "Compressor option"
  ph_compressorSummarizer :: "(Message list \<Rightarrow> summary_error + string) option"
  ph_profileName :: string
  ph_pendingProfile :: "runtimeProfileRequest option"
  ph_inFlight :: "runtimeProfileRequest option"
  ph_runtimeActivity :: nat
  ph_profileActivity :: nat
  ph_results :: "(runtimeProfileRequest \<times> profile_error option) list"
  ph_next :: nat

section \<open>Operations\<close>

definition validateRuntimeProfile :: "RuntimeProfile \<Rightarrow> profile_error option" where
  "validateRuntimeProfile p = (if rp_Name p = '''' \<or> \<not> rp_HasProvider p then Some ErrProfileInvalid else None)"

definition configureCompressorSummarizer ::
  "(Message list \<Rightarrow> summary_error + string) option \<Rightarrow> (Message list \<Rightarrow> summary_error + string)
     \<Rightarrow> Compressor option \<Rightarrow> Compressor option"
where
  "configureCompressorSummarizer configured providerSummarizer =
     map_option (\<lambda>c. SetSummarizer c (Some (case configured of Some s \<Rightarrow> s | None \<Rightarrow> providerSummarizer)))"

definition profile_agent :: "RuntimeProfile \<Rightarrow> 'r Agent \<Rightarrow> 'r Agent" where
  "profile_agent p a =
     refreshApprovalPolicy (a\<lparr>ag_classifier := rp_Classifier p,
       ag_classifierUnavailableReason := rp_ClassifierUnavailableReason p,
       ag_profileForcesManual := rp_ForceManualApproval p\<rparr>)"

definition profile_compressor ::
  "(Message list \<Rightarrow> summary_error + string) option \<Rightarrow> RuntimeProfile \<Rightarrow> Compressor option \<Rightarrow> Compressor option"
where
  "profile_compressor configured p c =
     map_option (\<lambda>c. SetContextWindow c (rp_ContextWindow p)) (configureCompressorSummarizer configured (rp_Summarizer p) c)"

definition applyRuntimeProfileLocked :: "RuntimeProfile \<Rightarrow> 'r profile_host \<Rightarrow> 'r profile_host" where
  "applyRuntimeProfileLocked p h =
     h\<lparr>ph_profileName := rp_Name p, ph_agent := profile_agent p (ph_agent h),
       ph_compressor := profile_compressor (ph_compressorSummarizer h) p (ph_compressor h)\<rparr>"

definition canApplyRuntimeProfileLocked :: "'r profile_host \<Rightarrow> bool" where
  "canApplyRuntimeProfileLocked h \<longleftrightarrow>
     ph_runtimeActivity h = 0 \<and> ag_pendingActions (ph_agent h) = [] \<and> ag_deferredActions (ph_agent h) = []"

definition SupersedePendingRuntimeProfile :: "'r profile_host \<Rightarrow> 'r profile_host" where
  "SupersedePendingRuntimeProfile h =
     (case ph_pendingProfile h of
        None \<Rightarrow> h
      | Some q \<Rightarrow> h\<lparr>ph_results := ph_results h @ [(q, Some ErrRuntimeProfileSuperseded)], ph_pendingProfile := None\<rparr>)"

definition beginProfileActivityLocked :: "'r profile_host \<Rightarrow> 'r profile_host" where
  "beginProfileActivityLocked h = h\<lparr>ph_profileActivity := Suc (ph_profileActivity h)\<rparr>"

definition endProfileActivity :: "'r profile_host \<Rightarrow> 'r profile_host" where
  "endProfileActivity h = h\<lparr>ph_profileActivity := ph_profileActivity h - 1\<rparr>"

definition beginRuntimeActivityLocked :: "'r profile_host \<Rightarrow> 'r profile_host" where
  "beginRuntimeActivityLocked h = h\<lparr>ph_runtimeActivity := Suc (ph_runtimeActivity h)\<rparr>"

text \<open>Queueing says whether an applier is started; so does the end of an activity.\<close>

definition QueueRuntimeProfile :: "RuntimeProfile \<Rightarrow> 'r profile_host \<Rightarrow> 'r profile_host \<times> bool" where
  "QueueRuntimeProfile p h =
     (let h1 = SupersedePendingRuntimeProfile h;
          h2 = h1\<lparr>ph_pendingProfile := Some \<lparr>rq_id = ph_next h1, rq_profile = p\<rparr>, ph_next := Suc (ph_next h1)\<rparr>
      in if canApplyRuntimeProfileLocked h2 then (beginProfileActivityLocked h2, True) else (h2, False))"

definition endRuntimeActivity :: "'r profile_host \<Rightarrow> 'r profile_host \<times> bool" where
  "endRuntimeActivity h =
     (let h1 = h\<lparr>ph_runtimeActivity := ph_runtimeActivity h - 1\<rparr>
      in if canApplyRuntimeProfileLocked h1 then (beginProfileActivityLocked h1, True) else (h1, False))"

text \<open>\<open>WaitForRuntimeIdle\<close> returns when both counters are zero.\<close>

definition runtime_idle :: "'r profile_host \<Rightarrow> bool" where
  "runtime_idle h \<longleftrightarrow> ph_runtimeActivity h = 0 \<and> ph_profileActivity h = 0"

text \<open>The two critical sections of the loop in \<open>applyPendingRuntimeProfile\<close>.\<close>

definition take_request :: "bool \<Rightarrow> 'r profile_host \<Rightarrow> 'r profile_host" where
  "take_request generationBoundary h =
     (if \<not> generationBoundary \<and> \<not> canApplyRuntimeProfileLocked h then h
      else h\<lparr>ph_inFlight := ph_pendingProfile h, ph_pendingProfile := None\<rparr>)"

definition finish_request :: "'r profile_host \<Rightarrow> 'r profile_host" where
  "finish_request h =
     (case ph_inFlight h of
        None \<Rightarrow> h
      | Some q \<Rightarrow>
          (let err = (case validateRuntimeProfile (rq_profile q) of
                 Some e \<Rightarrow> Some e
               | None \<Rightarrow> map_option ErrBeforeApply (rp_BeforeApply (rq_profile q)));
               h1 = (if err = None then applyRuntimeProfileLocked (rq_profile q) h else h)
           in h1\<lparr>ph_results := ph_results h1 @ [(q, err)], ph_inFlight := None\<rparr>))"

text \<open>The loop with no request arriving in between: it empties the slot.\<close>

definition applyPendingRuntimeProfile :: "bool \<Rightarrow> 'r profile_host \<Rightarrow> 'r profile_host" where
  "applyPendingRuntimeProfile generationBoundary h = finish_request (take_request generationBoundary h)"

section \<open>Interleavings\<close>

inductive profile_step :: "'r profile_host \<Rightarrow> 'r profile_host \<Rightarrow> bool" where
  queue: "profile_step h (fst (QueueRuntimeProfile p h))"
| supersede: "profile_step h (SupersedePendingRuntimeProfile h)"
| begin_run: "profile_step h (beginRuntimeActivityLocked h)"
| end_run: "profile_step h (fst (endRuntimeActivity h))"
| end_apply: "profile_step h (endProfileActivity h)"
| agent_moves: "profile_step h (h\<lparr>ph_agent := a\<rparr>)"
| take_one: "ph_inFlight h = None \<Longrightarrow> profile_step h (take_request b h)"
| finish_one: "profile_step h (finish_request h)"

inductive_cases profile_stepE: "profile_step h h'"

text \<open>
  Requests are numbered from zero; each is waiting, in flight or answered, and only in one place.
\<close>

definition slot_ids :: "runtimeProfileRequest option \<Rightarrow> nat list" where
  "slot_ids q = (case q of None \<Rightarrow> [] | Some r \<Rightarrow> [rq_id r])"

definition request_ids :: "'r profile_host \<Rightarrow> nat list" where
  "request_ids h = map (rq_id \<circ> fst) (ph_results h) @ slot_ids (ph_pendingProfile h) @ slot_ids (ph_inFlight h)"

definition applied_names :: "'r profile_host \<Rightarrow> string list" where
  "applied_names h = map (rp_Name \<circ> rq_profile \<circ> fst) (filter (\<lambda>qe. snd qe = None) (ph_results h))"

definition profile_inv :: "string \<Rightarrow> 'r profile_host \<Rightarrow> bool" where
  "profile_inv name0 h \<longleftrightarrow> distinct (request_ids h) \<and> set (request_ids h) = {..<ph_next h} \<and>
     ph_profileName h = last (name0 # applied_names h)"

lemmas profile_defs = profile_inv_def request_ids_def applied_names_def slot_ids_def

lemma inv_supersede: "profile_inv n h \<Longrightarrow> profile_inv n (SupersedePendingRuntimeProfile h)"
  by (auto simp: profile_defs SupersedePendingRuntimeProfile_def split: option.splits)

lemma inv_unrelated:
  assumes "profile_inv n h" "ph_results h' = ph_results h" "ph_pendingProfile h' = ph_pendingProfile h"
    "ph_inFlight h' = ph_inFlight h" "ph_next h' = ph_next h" "ph_profileName h' = ph_profileName h"
  shows "profile_inv n h'"
  using assms by (simp add: profile_inv_def request_ids_def applied_names_def)

lemma inv_queue: "profile_inv n h \<Longrightarrow> profile_inv n (fst (QueueRuntimeProfile p h))"
proof -
  assume "profile_inv n h"
  then have inv: "profile_inv n (SupersedePendingRuntimeProfile h)" by (rule inv_supersede)
  define h1 where "h1 = SupersedePendingRuntimeProfile h"
  define h2 where "h2 = h1\<lparr>ph_pendingProfile := Some \<lparr>rq_id = ph_next h1, rq_profile = p\<rparr>, ph_next := Suc (ph_next h1)\<rparr>"
  have "ph_pendingProfile h1 = None"
    by (simp add: h1_def SupersedePendingRuntimeProfile_def split: option.splits)
  then have "profile_inv n h2"
    using inv unfolding h1_def [symmetric] by (auto simp: h2_def profile_defs lessThan_Suc)
  then show ?thesis
    unfolding QueueRuntimeProfile_def h1_def [symmetric] Let_def h2_def [symmetric]
    by (auto simp: beginProfileActivityLocked_def intro: inv_unrelated)
qed

lemma inv_finish: "profile_inv n h \<Longrightarrow> profile_inv n (finish_request h)"
proof (cases "ph_inFlight h")
  case (Some q)
  assume "profile_inv n h"
  with Some show ?thesis
    by (auto simp: profile_defs finish_request_def applyRuntimeProfileLocked_def Let_def split: option.splits)
qed (simp add: finish_request_def)

lemma inv_take: "profile_inv n h \<Longrightarrow> ph_inFlight h = None \<Longrightarrow> profile_inv n (take_request b h)"
  by (auto simp: profile_defs take_request_def)

lemma profile_step_inv: "profile_step h h' \<Longrightarrow> profile_inv n h \<Longrightarrow> profile_inv n h'"
proof (induction rule: profile_step.induct)
  case (end_run h)
  then show ?case by (auto simp: endRuntimeActivity_def beginProfileActivityLocked_def Let_def intro: inv_unrelated)
qed (auto intro: inv_queue inv_supersede inv_finish inv_take inv_unrelated
    simp: beginRuntimeActivityLocked_def endProfileActivity_def)

lemma profile_step_results: "profile_step h h' \<Longrightarrow> prefix (ph_results h) (ph_results h')"
  by (induction rule: profile_step.induct)
    (auto simp: QueueRuntimeProfile_def SupersedePendingRuntimeProfile_def beginRuntimeActivityLocked_def
      endRuntimeActivity_def endProfileActivity_def take_request_def finish_request_def Let_def
      beginProfileActivityLocked_def applyRuntimeProfileLocked_def split: option.splits)

text \<open>
  C18. However requests to switch the profile, their supersession, runs and appliers interleave, every
  request made is answered at most once and is otherwise waiting or being applied, a result once given
  stays, and the profile in use is that of the last request reported as successful.
\<close>

theorem profile_requests_answered_once:
  assumes "ph_results h0 = []" "ph_pendingProfile h0 = None" "ph_inFlight h0 = None" "ph_next h0 = 0"
    and "profile_step\<^sup>*\<^sup>* h0 h" "profile_step\<^sup>*\<^sup>* h h'"
  shows "distinct (map (rq_id \<circ> fst) (ph_results h')) \<and> prefix (ph_results h) (ph_results h') \<and>
    (\<forall>i. i < ph_next h' \<longleftrightarrow> i \<in> set (map (rq_id \<circ> fst) (ph_results h')) \<union>
        set (slot_ids (ph_pendingProfile h')) \<union> set (slot_ids (ph_inFlight h'))) \<and>
    ph_profileName h' = last (ph_profileName h0 # applied_names h')"
proof -
  have start: "profile_inv (ph_profileName h0) h0" using assms(1-4) by (simp add: profile_defs lessThan_0)
  have inv: "profile_inv (ph_profileName h0) x" if "profile_step\<^sup>*\<^sup>* h0 x" for x
    using that start by (induction rule: rtranclp_induct) (auto intro: profile_step_inv)
  have res: "prefix (ph_results h) (ph_results h')"
    using assms(6) by (induction rule: rtranclp_induct) (auto dest: profile_step_results intro: prefix_order.trans)
  have final: "profile_inv (ph_profileName h0) h'" using inv rtranclp_trans [OF assms(5,6)] by blast
  then have "i < ph_next h' \<longleftrightarrow> i \<in> set (request_ids h')" for i by (simp add: profile_inv_def)
  with final res show ?thesis by (auto simp: profile_inv_def request_ids_def)
qed

section \<open>Witness\<close>

definition idle_host :: "unit profile_host" where
  "idle_host = \<lparr>ph_agent = sample_agent, ph_compressor = None, ph_compressorSummarizer = None, ph_profileName = ''main'',
     ph_pendingProfile = None, ph_inFlight = None, ph_runtimeActivity = 0, ph_profileActivity = 0, ph_results = [], ph_next = 0\<rparr>"

definition fast_profile :: RuntimeProfile where
  "fast_profile = \<lparr>rp_Name = ''fast'', rp_HasProvider = True, rp_ContextWindow = 1000, rp_Summarizer = (\<lambda>_. Inr ''s''),
     rp_Classifier = None, rp_ClassifierUnavailableReason = '''', rp_ForceManualApproval = True, rp_BeforeApply = None\<rparr>"

definition slow_profile :: RuntimeProfile where
  "slow_profile = fast_profile\<lparr>rp_Name := ''slow'', rp_BeforeApply := Some ''disk full''\<rparr>"

theorem profile_requests_answered_once_witness:
  "let h = finish_request (take_request True (fst (QueueRuntimeProfile fast_profile (fst (QueueRuntimeProfile slow_profile idle_host)))))
   in map (\<lambda>(q, e). (rq_id q, e)) (ph_results h) = [(0, Some ErrRuntimeProfileSuperseded), (1, None)] \<and>
      ph_profileName h = ''fast''"
proof -
  define h1 where "h1 = fst (QueueRuntimeProfile fast_profile (fst (QueueRuntimeProfile slow_profile idle_host)))"
  define h where "h = finish_request (take_request True h1)"
  have none: "ph_inFlight h1 = None" by (simp add: h1_def QueueRuntimeProfile_def SupersedePendingRuntimeProfile_def
      beginProfileActivityLocked_def idle_host_def Let_def)
  have q: "profile_step\<^sup>*\<^sup>* idle_host h1"
    unfolding h1_def by (meson converse_rtranclp_into_rtranclp profile_step.queue r_into_rtranclp)
  have f: "profile_step\<^sup>*\<^sup>* h1 h"
    unfolding h_def by (meson converse_rtranclp_into_rtranclp profile_step.take_one [OF none] profile_step.finish_one r_into_rtranclp)
  have res: "map (\<lambda>(q, e). (rq_id q, e)) (ph_results h) = [(0, Some ErrRuntimeProfileSuperseded), (1, None)]"
    and names: "applied_names h = [''fast'']"
    unfolding h_def h1_def by code_simp+
  show ?thesis
    using profile_requests_answered_once [OF _ _ _ _ q f] res names
    unfolding h1_def [symmetric] h_def [symmetric] Let_def by (simp add: idle_host_def)
qed

end
