(* ===== verification/Agent_Loop.thy ===== *)
theory Agent_Loop
  imports Agent_Actions Turn_Stream Runtime_Profile
begin

text \<open>
  The turn loop of an agent (\<open>RunMessage\<close> in \<open>core/agent/agent.go\<close>): each round takes up profile
  switches and steering input, builds a request, streams the answer of the model, records it, and runs
  or defers the tool calls in it, until the model has nothing more to do, a human is needed, or an
  error ends the turn.

  A round is a chain of phases over the state of the loop.  The environment of a round says what the
  outside did during it: the profiles applied, the answers of the host and of the provider, what the
  tools do, and the messages other goroutines steered into the turn between two critical sections.
  Two fields of the state are not in the code: the requests sent and the actions started.  The events
  of running tools, tracing and debug logs are left out.

  Theories \<open>Agent_Turns\<close>, \<open>Turn_Permissions\<close> and \<open>Turn_Endings\<close> show that every request a run sends
  answers all tool calls in it, that under manual approval a run starts only calls their tools rate
  safe, and that a run without tool calls and steering ends after at most three requests.
\<close>

section \<open>State and environment\<close>

datatype steer_ack = AckCancelled string | AckAnswered "string option"

record turn_env =
  tn_now :: time
  tn_profiles :: "RuntimeProfile list"
  tn_update :: context_update
  tn_ack_start :: steer_ack
  tn_ack_answer :: steer_ack
  tn_ack_end :: steer_ack
  tn_compaction :: compaction_env
  tn_recovery :: compaction_env
  tn_provider :: string
  tn_model :: string
  tn_window :: int
  tn_stream :: "turn_error + Event list"
  tn_classifierModel :: "string \<times> string"
  tn_tools :: tool_env
  tn_steer_start :: "Message list"
  tn_steer_answer :: "Message list"
  tn_steer_decide :: "Message list"
  tn_steer_tools :: "Message list"
  tn_steer_drain :: "Message list"
  tn_steer_empty :: "Message list"
  tn_steer_end :: "Message list"
  tn_steer_late :: "Message list"

record 'r loop_state =
  lp_agent :: "'r Agent"
  lp_compressor :: "Compressor option"
  lp_compressorSummarizer :: "(Message list \<Rightarrow> summary_error + string) option"
  lp_emptyRecovery :: nat
  lp_reactiveRetries :: nat
  lp_runUsage :: Usage
  lp_out :: "Event list"
  lp_requests :: "Message list list"
  lp_started :: "PendingAction list"

text \<open>A phase goes on with a value, starts the next round, or returns.\<close>

datatype 'x phase = Next 'x | Again | Stop "turn_error option"

definition and_then ::
  "'r loop_state \<times> 'x phase \<Rightarrow> ('x \<Rightarrow> 'r loop_state \<Rightarrow> 'r loop_state \<times> 'y phase) \<Rightarrow> 'r loop_state \<times> 'y phase"
where
  "and_then r f = (case r of (s, Next x) \<Rightarrow> f x s | (s, Again) \<Rightarrow> (s, Again) | (s, Stop e) \<Rightarrow> (s, Stop e))"

definition emit :: "Event list \<Rightarrow> 'r loop_state \<Rightarrow> 'r loop_state" where
  "emit es s = s\<lparr>lp_out := lp_out s @ es\<rparr>"

definition emit_usage :: "Event \<Rightarrow> 'r loop_state \<Rightarrow> 'r loop_state" where
  "emit_usage e s = emit [withUsage (lp_runUsage s) e] s"

text \<open>The error of a phase that returns is also sent to the host, with the usage of the run.\<close>

definition fail :: "turn_error \<Rightarrow> 'r loop_state \<Rightarrow> 'r loop_state \<times> 'x phase" where
  "fail e s = (emit_usage (NewErrorEvent e) s, Stop (Some e))"

definition steer :: "Message list \<Rightarrow> 'r loop_state \<Rightarrow> 'r loop_state" where
  "steer ms s = s\<lparr>lp_agent := (lp_agent s)\<lparr>ag_pendingTurnUser := ag_pendingTurnUser (lp_agent s) @ ms\<rparr>\<rparr>"

section \<open>The phases of a round\<close>

definition check_paused :: "'r loop_state \<Rightarrow> 'r loop_state \<times> unit phase" where
  "check_paused s =
     (if ag_state (lp_agent s) = StatePaused
      then (emit_usage (NewFinishEvent (FinishReasonOther ''need_approval'')) s, Stop None) else (s, Next ()))"

definition switch_profiles :: "RuntimeProfile list \<Rightarrow> 'r loop_state \<Rightarrow> 'r loop_state" where
  "switch_profiles ps s =
     foldl (\<lambda>s p. s\<lparr>lp_agent := profile_agent p (lp_agent s),
                     lp_compressor := profile_compressor (lp_compressorSummarizer s) p (lp_compressor s)\<rparr>) s ps"

definition take_steering ::
  "'r record_fn \<Rightarrow> turn_env \<Rightarrow> steer_ack \<Rightarrow> Message list \<Rightarrow> 'r loop_state \<Rightarrow> 'r loop_state \<times> bool phase"
where
  "take_steering rec env ack later s =
     (let ids = filter (\<lambda>i. i \<noteq> '''') (map msg_ID (ag_pendingTurnUser (lp_agent s)));
          (told, err) = (case ack of
             AckCancelled e \<Rightarrow> ([], Some e)
           | AckAnswered r \<Rightarrow> ([(event_of EventTypeSteeringApplied)\<lparr>ev_SteeringIDs := ids\<rparr>], r));
          s1 = (if ag_pendingTurnUser (lp_agent s) = [] then s else emit told s);
          (a, r) = applyPendingTurnUserInput rec (tn_now env) (tn_update env) err later (lp_agent s1)
      in (s1\<lparr>lp_agent := a\<rparr>,
          case r of Inl e \<Rightarrow> Stop (Some (ErrSteering e)) | Inr drained \<Rightarrow> Next drained))"

definition contextUsageLocked ::
  "compress_env \<Rightarrow> Compressor option \<Rightarrow> int \<Rightarrow> ContextInput \<Rightarrow> 'r Agent \<Rightarrow> ContextUsage option"
where
  "contextUsageLocked env compressor win input a =
     map_option (\<lambda>c.
       let (tokens, calibrated) = ContextTokens env c (ag_history a) input
       in \<lparr>cu_Tokens = tokens, cu_Window = (if win \<le> 0 then DefaultContextWindow else win),
           cu_Source = (if calibrated then ''provider_estimate'' else ''estimate''), cu_ProfileKey = ci_ProfileKey input\<rparr>)
       compressor"

definition usage_event :: "turn_env \<Rightarrow> ContextInput \<Rightarrow> 'r loop_state \<Rightarrow> Event" where
  "usage_event env input s =
     (event_of EventTypeUsageUpdated)\<lparr>ev_ContextUsage :=
        contextUsageLocked (cx_compress (tn_compaction env)) (lp_compressor s) (tn_window env) input (lp_agent s)\<rparr>"

definition compaction_event :: "CompressionResult \<Rightarrow> Event" where
  "compaction_event r =
     (event_of EventTypeContextCompacted)\<lparr>ev_ContextCompaction :=
        Some \<lparr>cmp_OriginalTokens = cr_OriginalTokens r, cmp_CompressedTokens = cr_CompressedTokens r,
              cmp_MessagesBefore = int (cr_MessagesBefore r), cmp_MessagesAfter = int (cr_MessagesAfter r)\<rparr>\<rparr>"

definition make_request :: "'r record_fn \<Rightarrow> turn_env \<Rightarrow> 'r loop_state \<Rightarrow> 'r loop_state \<times> ContextInput phase" where
  "make_request rec env s =
     (case buildContext rec (tn_compaction env) (lp_compressor s) (lp_agent s) of
        (a, Inl e) \<Rightarrow> fail (ErrContextBuild e) (s\<lparr>lp_agent := a\<rparr>)
      | (a, Inr (msgs, input, compaction)) \<Rightarrow>
          (let s1 = s\<lparr>lp_agent := a, lp_requests := lp_requests s @ [msgs]\<rparr>
           in (emit ((case compaction of None \<Rightarrow> [] | Some r \<Rightarrow> [compaction_event r]) @ [usage_event env input s1]) s1,
               Next input)))"

text \<open>The notice a user sees when a rejected request is retried; its dash and arrow are UTF-8.\<close>

definition recovery_notice :: "int \<Rightarrow> int \<Rightarrow> Event" where
  "recovery_notice original compressed =
     (event_of EventTypeContentDelta)\<lparr>ev_ContentPartDelta := Some \<lparr>cpd_Type = ContentTypeReasoning,
        cpd_Text = ''[context exceeded '' @ [CHR 0xE2, CHR 0x80, CHR 0x94] @ '' auto-compacted '' @ show_int original @
          [CHR 0xE2, CHR 0x86, CHR 0x92] @ show_int compressed @ '' tokens, retrying]'' @ [CHR 0x0A]\<rparr>\<rparr>"

definition recovery_events :: "'r record_fn \<Rightarrow> turn_env \<Rightarrow> Compressor option \<Rightarrow> 'r Agent \<Rightarrow> Event list" where
  "recovery_events rec env compressor a =
     (case compressor of
        None \<Rightarrow> []
      | Some c \<Rightarrow>
          (case compressHistoryWithPromptLocked rec (tn_recovery env) c True True a of
             (_, result, _) \<Rightarrow> [compaction_event result, recovery_notice (cr_OriginalTokens result) (cr_CompressedTokens result)]))"

definition is_context_length :: "turn_error \<Rightarrow> bool" where
  "is_context_length e = (case e of ErrContextLength _ \<Rightarrow> True | _ \<Rightarrow> False)"

text \<open>A rejected request: compact and start over, or give up.\<close>

definition recover_or_fail :: "'r record_fn \<Rightarrow> turn_env \<Rightarrow> turn_error \<Rightarrow> 'r loop_state \<Rightarrow> 'r loop_state \<times> 'x phase" where
  "recover_or_fail rec env e s =
     (case tryReactiveRecover rec (tn_recovery env) (lp_compressor s) (is_context_length e) (lp_reactiveRetries s) 1 (lp_agent s) of
        (a, Some retries) \<Rightarrow>
          (emit (recovery_events rec env (lp_compressor s) (lp_agent s)) (s\<lparr>lp_agent := a, lp_reactiveRetries := retries\<rparr>), Again)
      | (a, None) \<Rightarrow> fail e (s\<lparr>lp_agent := a\<rparr>))"

text \<open>An error in the stream: its usage counts, and a held-back retry is resolved together with it.\<close>

definition add_usage :: "Usage \<Rightarrow> 'r loop_state \<Rightarrow> 'r loop_state" where
  "add_usage u s =
     s\<lparr>lp_runUsage := Normalized (Usage_Add (lp_runUsage s) u),
       lp_agent := (lp_agent s)\<lparr>ag_cumulativeUsage := Normalized (Usage_Add (ag_cumulativeUsage (lp_agent s)) u)\<rparr>\<rparr>"

definition stream_failed ::
  "'r record_fn \<Rightarrow> turn_env \<Rightarrow> stream_state \<Rightarrow> Event \<Rightarrow> turn_error \<Rightarrow> 'r loop_state \<Rightarrow> 'r loop_state \<times> 'x phase"
where
  "stream_failed rec env st evt e s =
     (let s1 = (case ev_Usage evt of None \<Rightarrow> s | Some u \<Rightarrow> add_usage u s);
          reactive = (is_context_length e \<and> lp_reactiveRetries s < 1);
          s2 = (case st_failedRetry st of
             None \<Rightarrow> s1
           | Some r \<Rightarrow> emit [(event_of EventTypeRequestRetry)\<lparr>ev_Retry :=
                  Some (if reactive then r\<lparr>rr_Status := ''context_recovery''\<rparr> else r)\<rparr>] s1)
      in if reactive then recover_or_fail rec env e s2
         else (emit_usage evt s2, Stop (Some e)))"

definition stream_answer :: "'r record_fn \<Rightarrow> turn_env \<Rightarrow> 'r loop_state \<Rightarrow> 'r loop_state \<times> stream_state phase" where
  "stream_answer rec env s =
     (case tn_stream env of
        Inl e \<Rightarrow> recover_or_fail rec env e s
      | Inr events \<Rightarrow>
          (case consume_stream events stream_start of
             (st, out, None) \<Rightarrow> (emit out s, Next st)
           | (st, out, Some (evt, e)) \<Rightarrow> stream_failed rec env st evt e (emit out s)))"

text \<open>Recording the answer; the value says whether steering input is waiting.\<close>

definition record_answer ::
  "'r record_fn \<Rightarrow> turn_env \<Rightarrow> ContextInput \<Rightarrow> stream_state \<Rightarrow> 'r loop_state \<Rightarrow> 'r loop_state \<times> bool phase"
where
  "record_answer rec env input st s0 =
     (let s = steer (tn_steer_answer env) s0;
          asstMsg = assistant_message (tn_now env) (tn_provider env) (tn_model env) input (ag_history (lp_agent s)) st
      in case appendMessages rec (ag_conversation (lp_agent s)) [asstMsg] of
           (conv, Some e) \<Rightarrow> fail (ErrAssistantHistory e) (s\<lparr>lp_agent := (lp_agent s)\<lparr>ag_conversation := conv\<rparr>\<rparr>)
         | (conv, None) \<Rightarrow>
             (let s1 = add_usage (SessionUsage [asstMsg]) (s\<lparr>lp_agent := (lp_agent s)\<lparr>ag_conversation := conv\<rparr>\<rparr>);
                  s2 = emit_usage (usage_event env input s1) s1
              in (if st_content st \<noteq> '''' \<or> st_toolCalls st \<noteq> [] then s2\<lparr>lp_emptyRecovery := 0\<rparr> else s2,
                  Next (ag_pendingTurnUser (lp_agent s) \<noteq> []))))"

definition result_event :: "ToolResult \<Rightarrow> Event" where
  "result_event r = (event_of EventTypeToolResultDone)\<lparr>ev_ToolResult := Some r\<rparr>"

definition record_results ::
  "'r record_fn \<Rightarrow> turn_env \<Rightarrow> (conversation_error \<Rightarrow> turn_error) \<Rightarrow> bool \<Rightarrow> ToolResult list \<Rightarrow> 'r loop_state
     \<Rightarrow> 'r loop_state \<times> 'x phase"
where
  "record_results rec env wrap executed results s =
     (case appendMessages rec (ag_conversation (lp_agent s)) [NewToolMessage (tn_now env) results] of
        (conv, Some e) \<Rightarrow>
          (let a = (lp_agent s)\<lparr>ag_conversation := conv\<rparr>
           in fail (wrap e) (s\<lparr>lp_agent := (if executed then markDurabilityFailed a else a)\<rparr>))
      | (conv, None) \<Rightarrow>
          (emit (map result_event results) (s\<lparr>lp_agent := (lp_agent s)\<lparr>ag_conversation := conv\<rparr>\<rparr>), Again))"

definition recordInterruptedToolCalls ::
  "'r record_fn \<Rightarrow> turn_env \<Rightarrow> ToolCall list \<Rightarrow> 'r loop_state \<Rightarrow> 'r loop_state \<times> 'x phase"
where
  "recordInterruptedToolCalls rec env calls s =
     record_results rec env ErrInterruptedResults False (interruptedToolResults calls) s"

section \<open>Tool calls\<close>

definition decision_event :: "string \<times> string \<Rightarrow> 'r Agent \<Rightarrow> ToolCall \<Rightarrow> ActionDecision \<Rightarrow> AuditEvent" where
  "decision_event classifierModel a tc decision =
     \<lparr>ae_Timestamp = 0, ae_TurnID = '''', ae_ToolCallID = tc_ID tc, ae_ToolName = tc_Name tc,
      ae_ToolArgsSummary = summarizeText (tc_Arguments tc) 240, ae_DecisionSource = ad_Source decision,
      ae_Decision = mapExecutionDecision (ad_Decision decision), ae_Reason = ad_Reason decision,
      ae_RiskLevel = ad_RiskLevel decision, ae_SnapshotStatus = SnapshotStatusNotNeeded, ae_SnapshotID = '''',
      ae_ClassifierProvider = fst classifierModel, ae_ClassifierModel = snd classifierModel,
      ae_ContextSummary = \<lparr>ac_UserPrompt = ts_CurrentUserPrompt (ag_turnSafety a), ac_RecentActions = [],
        ac_Trigger = ad_Reason decision, ac_RequestContext = None\<rparr>,
      ae_RawContext = ad_RawContext decision\<rparr>"

definition pending_action :: "nat \<Rightarrow> ToolCall \<Rightarrow> ActionDecision \<Rightarrow> PendingAction" where
  "pending_action i tc decision =
     \<lparr>pa_ToolCallID = tc_ID tc, pa_Name = tc_Name tc, pa_Arguments = tc_Arguments tc, pa_Decision = decision,
      pa_Order = int i, pa_ToolCall = Some tc\<rparr>"

fun classify_calls :: "time \<Rightarrow> string \<times> string \<Rightarrow> nat \<Rightarrow> ToolCall list \<Rightarrow> 'r Agent \<Rightarrow> 'r Agent \<times> PendingAction list" where
  "classify_calls now cm i [] a = (a, [])"
| "classify_calls now cm i (tc # calls) a =
     (let decision = classifyToolCall a tc;
          (a', actions) = classify_calls now cm (Suc i) calls (appendSafetyEvent now (decision_event cm a tc decision) a)
      in (a', pending_action i tc decision # actions))"

abbreviation decided :: "ExecutionDecision \<Rightarrow> PendingAction list \<Rightarrow> PendingAction list" where
  "decided d \<equiv> filter (\<lambda>x. ad_Decision (pa_Decision x) = d)"

definition execute_calls ::
  "(string \<Rightarrow> string) \<Rightarrow> 'r record_fn \<Rightarrow> turn_env \<Rightarrow> PendingAction list \<Rightarrow> 'r loop_state \<Rightarrow> 'r loop_state \<times> 'x phase"
where
  "execute_calls sum8 rec env actions s =
     (case executeActions sum8 (tn_now env) (tn_tools env) actions True (lp_agent s) of
        (a, Inl e) \<Rightarrow> (emit [NewErrorEvent (ErrToolBatch e)] (s\<lparr>lp_agent := a\<rparr>), Stop (Some (ErrToolBatch e)))
      | (a, Inr (results, started)) \<Rightarrow>
          record_results rec env ErrToolResults (started \<noteq> []) results
            (steer (tn_steer_tools env) (s\<lparr>lp_agent := a, lp_started := lp_started s @ started\<rparr>)))"

definition handle_calls ::
  "(string \<Rightarrow> string) \<Rightarrow> 'r record_fn \<Rightarrow> turn_env \<Rightarrow> ToolCall list \<Rightarrow> 'r loop_state \<Rightarrow> 'r loop_state \<times> 'x phase"
where
  "handle_calls sum8 rec env calls s0 =
     (let (a, actions) = classify_calls (tn_now env) (tn_classifierModel env) 0 calls (lp_agent s0);
          s = steer (tn_steer_decide env) (s0\<lparr>lp_agent := a\<rparr>);
          autoCalls = decided ExecutionDecisionAutoExecute actions;
          approvalCalls = decided ExecutionDecisionRequireApproval actions;
          blockedCalls = decided ExecutionDecisionBlock actions;
          executable = orderedActions (autoCalls @ blockedCalls)
      in if approvalCalls \<noteq> [] then
           if ag_pendingTurnUser (lp_agent s) \<noteq> [] then recordInterruptedToolCalls rec env calls s
           else (s\<lparr>lp_agent := (lp_agent s)\<lparr>ag_state := StatePaused,
                   ag_pendingActions := ag_pendingActions (lp_agent s) @ approvalCalls,
                   ag_deferredActions := ag_deferredActions (lp_agent s) @ autoCalls @ blockedCalls\<rparr>\<rparr>, Again)
         else if executable \<noteq> [] then execute_calls sum8 rec env executable s
         else (s, Again))"

section \<open>The end of a turn\<close>

definition nudge_text :: string where
  "nudge_text = ''<system-reminder>'' @ [CHR 0x0A] @
     ''Your previous response contained no visible text and no tool call. If the task is not '' @
     ''yet complete, continue by emitting the next tool call. If the task is complete, reply with a short '' @
     ''summary of what was done.'' @ [CHR 0x0A] @ ''</system-reminder>''"

definition nudge_empty ::
  "'r record_fn \<Rightarrow> turn_env \<Rightarrow> stream_state \<Rightarrow> 'r loop_state \<Rightarrow> 'r loop_state \<times> unit phase"
where
  "nudge_empty rec env st s0 =
     (if st_content st = '''' \<and> st_toolCalls st = [] \<and> lp_emptyRecovery s0 < 1 then
        (let s = steer (tn_steer_empty env) s0
         in if ag_pendingTurnUser (lp_agent s) \<noteq> [] then (s, Again)
            else (case appendMessages rec (ag_conversation (lp_agent s)) [NewUserMessage (tn_now env) nudge_text] of
                    (conv, err) \<Rightarrow>
                      (let s1 = s\<lparr>lp_emptyRecovery := Suc (lp_emptyRecovery s),
                              lp_agent := (lp_agent s)\<lparr>ag_conversation := conv\<rparr>\<rparr>
                       in case err of Some e \<Rightarrow> fail (ErrNudge e) s1 | None \<Rightarrow> (s1, Again))))
      else (s0, Next ()))"

text \<open>The last check for steering input and the reset of the queue are two critical sections.\<close>

definition finish_turn :: "turn_env \<Rightarrow> stream_state \<Rightarrow> 'r loop_state \<Rightarrow> 'r loop_state \<times> 'x phase" where
  "finish_turn env st s0 =
     (let s = steer (tn_steer_late env) s0 in
     (emit_usage (NewFinishEvent (st_finishReason st))
        (s\<lparr>lp_agent := (lp_agent s)\<lparr>ag_pendingTurnUser := [], ag_state := StateIdle\<rparr>\<rparr>), Stop None))"

definition end_turn ::
  "'r record_fn \<Rightarrow> turn_env \<Rightarrow> stream_state \<Rightarrow> 'r loop_state \<Rightarrow> 'r loop_state \<times> unit phase"
where
  "end_turn rec env st s =
     and_then (take_steering rec env (tn_ack_answer env) [] (steer (tn_steer_drain env) s))
       (\<lambda>drained s. if drained then (s, Again)
          else and_then (nudge_empty rec env st s)
            (\<lambda>_ s. and_then (take_steering rec env (tn_ack_end env) [] (steer (tn_steer_end env) s))
               (\<lambda>drained s. if drained then (s, Again) else finish_turn env st s)))"

section \<open>A round and a run\<close>

definition after_answer ::
  "(string \<Rightarrow> string) \<Rightarrow> 'r record_fn \<Rightarrow> turn_env \<Rightarrow> stream_state \<Rightarrow> bool \<Rightarrow> 'r loop_state \<Rightarrow> 'r loop_state \<times> unit phase"
where
  "after_answer sum8 rec env st steeringPending s =
     (if steeringPending then
        (if st_toolCalls st \<noteq> [] then recordInterruptedToolCalls rec env (st_toolCalls st) s else (s, Again))
      else if st_toolCalls st \<noteq> [] then handle_calls sum8 rec env (st_toolCalls st) s
      else end_turn rec env st s)"

definition turn_step ::
  "(string \<Rightarrow> string) \<Rightarrow> 'r record_fn \<Rightarrow> turn_env \<Rightarrow> 'r loop_state \<Rightarrow> 'r loop_state \<times> unit phase"
where
  "turn_step sum8 rec env s =
     and_then (check_paused s) (\<lambda>_ s.
     and_then (take_steering rec env (tn_ack_start env) (tn_steer_start env) (switch_profiles (tn_profiles env) s)) (\<lambda>_ s.
     and_then (make_request rec env s) (\<lambda>input s.
     and_then (stream_answer rec env s) (\<lambda>st s.
     and_then (record_answer rec env input st s) (\<lambda>steeringPending s.
     after_answer sum8 rec env st steeringPending s)))))"

text \<open>
  The loop, as long as the environment has rounds; the result is \<open>None\<close> while it is still running.
\<close>

fun run_loop ::
  "(string \<Rightarrow> string) \<Rightarrow> 'r record_fn \<Rightarrow> turn_env list \<Rightarrow> 'r loop_state \<Rightarrow> 'r loop_state \<times> turn_error option option"
where
  "run_loop sum8 rec [] s = (s, None)"
| "run_loop sum8 rec (env # envs) s =
     (case turn_step sum8 rec env s of
        (s', Stop e) \<Rightarrow> (s', Some e)
      | (s', _) \<Rightarrow> run_loop sum8 rec envs s')"

definition loop_start ::
  "Compressor option \<Rightarrow> (Message list \<Rightarrow> summary_error + string) option \<Rightarrow> 'r Agent \<Rightarrow> 'r loop_state"
where
  "loop_start compressor summarizer a =
     \<lparr>lp_agent = a, lp_compressor = compressor, lp_compressorSummarizer = summarizer, lp_emptyRecovery = 0,
      lp_reactiveRetries = 0, lp_runUsage = zero_Usage, lp_out = [], lp_requests = [], lp_started = []\<rparr>"

definition RunMessage ::
  "(string \<Rightarrow> string) \<Rightarrow> 'r record_fn \<Rightarrow> time \<Rightarrow> context_update \<Rightarrow> bool \<Rightarrow> Message option \<Rightarrow> Compressor option
     \<Rightarrow> (Message list \<Rightarrow> summary_error + string) option \<Rightarrow> turn_env list \<Rightarrow> 'r Agent
     \<Rightarrow> 'r Agent \<times> (run_error + Event list \<times> turn_error option option)"
where
  "RunMessage sum8 rec now update runActive msg compressor summarizer envs a =
     (case RunMessage_start rec now update runActive msg a of
        (a', Some e) \<Rightarrow> (a', Inl e)
      | (a', None) \<Rightarrow>
          (case run_loop sum8 rec envs (loop_start compressor summarizer a') of
             (s, outcome) \<Rightarrow> (lp_agent s, Inr (lp_out s, outcome))))"

end
