(* ===== verification/Call_Answers.thy ===== *)
theory Call_Answers
  imports Agent_Input Agent_Compaction
begin

text \<open>
  Conversations a provider accepts: every assistant message with tool calls is followed at once by a
  tool message that answers exactly these calls, in order.  Appending answered messages, dropping a
  prefix, filtering out system and contextual messages, projecting and compacting keep this.
\<close>

section \<open>Answered conversations\<close>

definition calling :: "Message \<Rightarrow> bool" where
  "calling m \<longleftrightarrow> msg_Role m = RoleAssistant \<and> tool_calls m \<noteq> []"

definition answers :: "Message \<Rightarrow> Message \<Rightarrow> bool" where
  "answers r m \<longleftrightarrow> msg_Role r = RoleTool \<and> map tr_ToolCallID (tool_results r) = map tc_ID (tool_calls m)"

fun calls_answered :: "Message list \<Rightarrow> bool" where
  "calls_answered [] \<longleftrightarrow> True"
| "calls_answered [m] \<longleftrightarrow> \<not> calling m"
| "calls_answered (m # r # ms) \<longleftrightarrow> (calling m \<longrightarrow> answers r m) \<and> calls_answered (r # ms)"

lemma calls_answered_Cons [simp]: "\<not> calling m \<Longrightarrow> calls_answered (m # ms) \<longleftrightarrow> calls_answered ms"
  by (cases ms) simp_all

lemma calls_answered_tl: "calls_answered (m # ms) \<Longrightarrow> calls_answered ms"
  by (cases ms) auto

lemma calls_answered_drop: "calls_answered ms \<Longrightarrow> calls_answered (drop k ms)"
  by (induction ms arbitrary: k) (auto simp: drop_Cons' dest: calls_answered_tl)

lemma calls_answered_append: "calls_answered xs \<Longrightarrow> calls_answered ys \<Longrightarrow> calls_answered (xs @ ys)"
  by (induction xs rule: calls_answered.induct) simp_all

lemma calls_answered_none: "list_all (\<lambda>m. \<not> calling m) ms \<Longrightarrow> calls_answered ms"
  by (induction ms) simp_all

lemma calls_answered_quiet:
  "list_all (\<lambda>m. \<not> calling m) xs \<Longrightarrow> calls_answered (xs @ ys) \<longleftrightarrow> calls_answered ys"
  by (induction xs) simp_all

lemma calls_answered_exchange: "calls_answered ms \<Longrightarrow> answers r m \<Longrightarrow> \<not> calling r \<Longrightarrow> calls_answered (ms @ [m, r])"
  by (rule calls_answered_append) auto

lemma calls_answered_filter:
  assumes "\<And>m. m \<in> set ms \<Longrightarrow> \<not> P m \<Longrightarrow> \<not> calling m \<and> msg_Role m \<noteq> RoleTool" "calls_answered ms"
  shows "calls_answered (filter P ms)"
  using assms
proof (induction ms rule: calls_answered.induct)
  case (3 m r ms)
  then have ih: "calls_answered (filter P (r # ms))" by auto
  show ?case
  proof (cases "calling m")
    case True
    then have "answers r m" "P m" using 3 by auto
    moreover then have "P r" using "3.prems"(1) [of r] by (auto simp: answers_def)
    ultimately show ?thesis using ih True by simp
  qed (use ih in simp)
qed auto

lemma calls_answered_map:
  assumes "\<And>m. msg_Role (f m) = msg_Role m" "\<And>m. map tc_ID (tool_calls (f m)) = map tc_ID (tool_calls m)"
    "\<And>m. map tr_ToolCallID (tool_results (f m)) = map tr_ToolCallID (tool_results m)"
  shows "calls_answered (map f ms) \<longleftrightarrow> calls_answered ms"
proof -
  have "calling (f m) \<longleftrightarrow> calling m" for m
    using assms(1) [of m] arg_cong [OF assms(2) [of m], of length] by (auto simp: calling_def)
  moreover have "answers (f r) (f m) \<longleftrightarrow> answers r m" for r m
    by (simp add: answers_def assms)
  ultimately show ?thesis by (induction ms rule: calls_answered.induct) simp_all
qed

section \<open>Projection\<close>

lemma project_result_text_id: "tr_ToolCallID (fst (project_result_text counter marshal n r)) = tr_ToolCallID r"
  by (simp add: project_result_text_def Let_def split: option.split prod.split)

lemma project_tool_result_id [simp]: "tr_ToolCallID (project_tool_result counter marshal n r) = tr_ToolCallID r"
proof -
  have "tr_ToolCallID t = tr_ToolCallID r" if "project_result_text counter marshal k r = (t, c)" for k t c
    using project_result_text_id [of counter marshal k r] that by simp
  then show ?thesis
    unfolding project_tool_result_def Let_def by (simp split: prod.split)
qed

lemma project_part_ids:
  "map_option tc_ID (cp_ToolCall (project_part counter marshal n p)) = map_option tc_ID (cp_ToolCall p)"
  "map_option tr_ToolCallID (cp_ToolResult (project_part counter marshal n p)) = map_option tr_ToolCallID (cp_ToolResult p)"
  by (simp_all add: project_part_def option.map_comp comp_def)

lemma map_filter_ids:
  assumes "\<And>p. map_option g (f (h p)) = map_option g (f p)"
  shows "map g (List.map_filter f (map h ps)) = map g (List.map_filter f ps)"
proof (induction ps)
  case (Cons p ps)
  then show ?case using assms [of p] by (cases "f (h p)"; cases "f p") (simp_all add: map_filter_simps)
qed (simp add: map_filter_simps)

lemma calls_answered_project [simp]: "calls_answered (truncateToolResults env c ms n) \<longleftrightarrow> calls_answered ms"
  unfolding truncateToolResults_def Let_def
  by (rule calls_answered_map) (simp_all add: tool_calls_def tool_results_def map_filter_ids project_part_ids)

lemma calls_answered_prompt [simp]:
  "calls_answered (projectPromptHistory env compressor ms) \<longleftrightarrow> calls_answered ms"
  by (simp add: projectPromptHistory_def split: option.split)

section \<open>Compaction\<close>

lemma not_calling [simp]:
  "\<not> calling (NewUserMessage now t)" "\<not> calling (NewContextualUserMessage now t)" "\<not> calling (NewToolMessage now rs)"
  "\<not> calling (NewSystemMessage now t)" "\<not> calling (summary_message s p)"
  "msg_Role m = RoleUser \<Longrightarrow> \<not> calling m" "msg_Role m = RoleSystem \<Longrightarrow> \<not> calling m"
  by (simp_all add: calling_def summary_message_def)

lemma context_messages_not_calling: "list_all (\<lambda>m. \<not> calling m) (context_messages now t rc)"
  by (simp add: context_messages_def split: option.split)

lemma compaction_keeps_answers:
  assumes comp: "compressHistoryWithPromptLocked rec env c force reactive a = (a', result, err)"
    and ok: "calls_answered (ag_history a)"
  shows "calls_answered (ag_history a')"
  using comp
proof (cases rule: compressHistory_cases)
  case (commit out r0 e0 tokens)
  note cases = commit_compressed_cases [OF commit(3,2)]
  show ?thesis
  proof (cases "cr_Compressed result")
    case True
    define hist where "hist = projectPromptHistory env (Some c) (ag_history a)"
    define conv where "conv = filter (\<lambda>m. msg_Role m \<noteq> RoleSystem)
        (truncateToolResults (cx_compress env) c hist (cc_ToolOutputThreshold (co_config c)))"
    obtain k sys where sys: "list_all (\<lambda>m. msg_Role m = RoleSystem) sys"
      and out: "out = sys @ summary_message (cr_Summary r0) (cr_TranscriptPath r0) # drop k conv"
      using compress_with_fallback_shape [OF commit(1,2)] unfolding hist_def conv_def Let_def by blast
    obtain t where t: "ag_history a' = rebased_history (cx_now env) t (ts_RequestContext (ag_turnSafety a)) out"
      using cases True by auto
    have "calls_answered hist" using ok by (simp add: hist_def)
    then have "calls_answered conv" unfolding conv_def by (intro calls_answered_filter) auto
    then have "calls_answered (filter (\<lambda>m. \<not> IsContextualUser m) (drop k conv))"
      by (intro calls_answered_filter calls_answered_drop) (auto simp: IsContextualUser_def)
    moreover have "list_all (\<lambda>m. \<not> calling m) sys" using sys by (auto simp: list_all_iff)
    ultimately show ?thesis
      unfolding t out rebased_after_summary [OF sys]
      by (simp add: calls_answered_quiet context_messages_not_calling)
  qed (use cases ok in \<open>simp add: conversation_snapshot_def\<close>)
qed (use ok in simp)

lemma buildContext_answers:
  assumes "buildContext rec env compressor a = (a', r)" "calls_answered (ag_history a)"
  shows "calls_answered (ag_history a') \<and> (case r of Inl _ \<Rightarrow> True | Inr (msgs, _) \<Rightarrow> calls_answered msgs)"
proof -
  have "list_all (\<lambda>m. \<not> calling m) (systemPromptMessages env)" by (simp add: systemPromptMessages_def list_all_iff)
  then have sys: "calls_answered (systemPromptMessages env @ ms) \<longleftrightarrow> calls_answered ms" for ms
    by (rule calls_answered_quiet)
  show ?thesis
  proof (cases compressor)
    case None
    then show ?thesis using assms by (auto simp: buildContext_def Let_def sys)
  next
    case (Some c)
    obtain b result err where comp: "compressHistoryWithPromptLocked rec env c False False a = (b, result, err)"
      by (metis prod.exhaust)
    have "calls_answered (ag_history b)" using compaction_keeps_answers [OF comp assms(2)] .
    then show ?thesis using assms(1) comp Some by (cases err) (auto simp: buildContext_def Let_def sys)
  qed
qed

lemma tryReactiveRecover_answers:
  assumes "tryReactiveRecover rec env compressor isCL retries maxRetries a = (a', r)" "calls_answered (ag_history a)"
  shows "calls_answered (ag_history a')"
  using assms compaction_keeps_answers
  by (auto simp: tryReactiveRecover_def split: option.splits if_splits prod.splits)

section \<open>Input\<close>

lemma drain_answers:
  assumes "applyPendingTurnUserInput rec now update ack later a = (a', r)" "calls_answered (ag_history a)"
  shows "calls_answered (ag_history a')"
proof -
  have app: "calls_answered (ag_history b')"
    if "appendUserInputLocked rec now update (drained_message now ms) userInputContinuesTurn b = (b', e)"
      "calls_answered (ag_history b)" for b b' e ms
  proof (cases e)
    case None
    note hyps = that
    from None obtain ctx where "ag_history b' = ag_history b @ ctx @ [drained_message now ms]" "list_all IsContextualUser ctx"
      using appendUserInputLocked_cases [OF hyps(1)] by auto
    moreover then have "calls_answered (ctx @ [drained_message now ms])"
      by (intro calls_answered_none) (auto simp: list_all_iff IsContextualUser_def drained_message_def)
    ultimately show ?thesis using hyps(2) by (simp add: calls_answered_append)
  qed (use appendUserInputLocked_cases [OF that(1)] that(2) in \<open>simp add: conversation_snapshot_def\<close>)
  show ?thesis
    using assms app
    by (auto simp: applyPendingTurnUserInput_def drainPendingTurnUserInputLocked_def Let_def
        split: if_splits option.splits prod.splits sum.splits)
qed

end
