(* ===== verification/Agent_Turns.thy ===== *)
theory Agent_Turns
  imports Agent_Loop Call_Answers
begin

text \<open>
  What the turn loop guarantees.  A small logic of phases says what holds when a phase goes on, when
  it starts the next round and when it returns; each phase has its rules, and a round follows by
  chaining them.
\<close>

section \<open>Phases\<close>

definition holds ::
  "('x \<Rightarrow> 'r loop_state \<Rightarrow> bool) \<Rightarrow> ('r loop_state \<Rightarrow> bool) \<Rightarrow> (turn_error option \<Rightarrow> 'r loop_state \<Rightarrow> bool)
     \<Rightarrow> 'r loop_state \<times> 'x phase \<Rightarrow> bool"
where
  "holds Q A E r \<longleftrightarrow> (case r of (s, Next x) \<Rightarrow> Q x s | (s, Again) \<Rightarrow> A s | (s, Stop e) \<Rightarrow> E e s)"

lemma holds_simps [simp]:
  "holds Q A E (s, Next x) \<longleftrightarrow> Q x s" "holds Q A E (s, Again) \<longleftrightarrow> A s" "holds Q A E (s, Stop e) \<longleftrightarrow> E e s"
  by (simp_all add: holds_def)

lemma holds_and_then:
  assumes "holds Q A E r" "\<And>x s. Q x s \<Longrightarrow> holds Q' A E (f x s)"
  shows "holds Q' A E (and_then r f)"
proof -
  obtain s p where "r = (s, p)" by fastforce
  then show ?thesis using assms by (cases p) (auto simp: and_then_def)
qed

lemma holds_mono:
  assumes "holds Q A E r" "\<And>x s. Q x s \<Longrightarrow> Q' x s"
  shows "holds Q' A E r"
proof -
  obtain s p where "r = (s, p)" by fastforce
  then show ?thesis using assms by (cases p) auto
qed

lemma emit_sel [simp]:
  "lp_agent (emit es s) = lp_agent s" "lp_requests (emit es s) = lp_requests s" "lp_started (emit es s) = lp_started s"
  "lp_runUsage (emit es s) = lp_runUsage s" "lp_emptyRecovery (emit es s) = lp_emptyRecovery s"
  "lp_reactiveRetries (emit es s) = lp_reactiveRetries s" "lp_compressor (emit es s) = lp_compressor s"
  "lp_agent (emit_usage e s) = lp_agent s" "lp_requests (emit_usage e s) = lp_requests s"
  "lp_started (emit_usage e s) = lp_started s" "lp_runUsage (emit_usage e s) = lp_runUsage s"
  "lp_emptyRecovery (emit_usage e s) = lp_emptyRecovery s" "lp_reactiveRetries (emit_usage e s) = lp_reactiveRetries s"
  "lp_compressor (emit_usage e s) = lp_compressor s"
  by (simp_all add: emit_def emit_usage_def)

lemma steer_sel [simp]:
  "ag_conversation (lp_agent (steer ms s)) = ag_conversation (lp_agent s)" "lp_requests (steer ms s) = lp_requests s"
  "lp_started (steer ms s) = lp_started s" "lp_runUsage (steer ms s) = lp_runUsage s"
  "lp_emptyRecovery (steer ms s) = lp_emptyRecovery s" "lp_reactiveRetries (steer ms s) = lp_reactiveRetries s"
  "ag_pendingTurnUser (lp_agent (steer ms s)) = ag_pendingTurnUser (lp_agent s) @ ms"
  "ag_state (lp_agent (steer ms s)) = ag_state (lp_agent s)"
  "ag_cumulativeUsage (lp_agent (steer ms s)) = ag_cumulativeUsage (lp_agent s)"
  "ag_tools (lp_agent (steer ms s)) = ag_tools (lp_agent s)"
  by (simp_all add: steer_def)

lemma add_usage_sel [simp]:
  "ag_conversation (lp_agent (add_usage u s)) = ag_conversation (lp_agent s)" "lp_requests (add_usage u s) = lp_requests s"
  "lp_started (add_usage u s) = lp_started s" "lp_emptyRecovery (add_usage u s) = lp_emptyRecovery s"
  "lp_reactiveRetries (add_usage u s) = lp_reactiveRetries s"
  "ag_pendingTurnUser (lp_agent (add_usage u s)) = ag_pendingTurnUser (lp_agent s)"
  "ag_state (lp_agent (add_usage u s)) = ag_state (lp_agent s)" "ag_tools (lp_agent (add_usage u s)) = ag_tools (lp_agent s)"
  by (simp_all add: add_usage_def)

lemma profile_agent_sel [simp]:
  "ag_conversation (profile_agent p a) = ag_conversation a" "ag_state (profile_agent p a) = ag_state a"
  "ag_pendingTurnUser (profile_agent p a) = ag_pendingTurnUser a" "ag_tools (profile_agent p a) = ag_tools a"
  "ag_cumulativeUsage (profile_agent p a) = ag_cumulativeUsage a"
  by (simp_all add: profile_agent_def refreshApprovalPolicy_def)

lemma switch_profiles_sel [simp]:
  "ag_conversation (lp_agent (switch_profiles ps s)) = ag_conversation (lp_agent s)"
  "ag_state (lp_agent (switch_profiles ps s)) = ag_state (lp_agent s)"
  "ag_pendingTurnUser (lp_agent (switch_profiles ps s)) = ag_pendingTurnUser (lp_agent s)"
  "ag_cumulativeUsage (lp_agent (switch_profiles ps s)) = ag_cumulativeUsage (lp_agent s)"
  "lp_requests (switch_profiles ps s) = lp_requests s" "lp_started (switch_profiles ps s) = lp_started s"
  "lp_runUsage (switch_profiles ps s) = lp_runUsage s" "lp_emptyRecovery (switch_profiles ps s) = lp_emptyRecovery s"
  "lp_reactiveRetries (switch_profiles ps s) = lp_reactiveRetries s"
  by (induction ps arbitrary: s) (simp_all add: switch_profiles_def)

lemma appendMessages_cases:
  assumes "appendMessages rec c [m] = (c', err)"
  shows "if err = None then history c' = history c @ [m] else history c' = history c"
  using assms conversation_append_cases [of rec c "[m]" None False c' err]
  by (auto simp: appendMessages_def conversation_snapshot_def split: if_splits)

section \<open>Every request answers its calls\<close>

definition sound :: "'r loop_state \<Rightarrow> bool" where
  "sound s \<longleftrightarrow> list_all calls_answered (lp_requests s)"

definition answered :: "'r loop_state \<Rightarrow> bool" where
  "answered s \<longleftrightarrow> sound s \<and> calls_answered (ag_history (lp_agent s))"

text \<open>Between rounds: all calls are answered or the agent is paused; a turn that ended leaves none open.\<close>

definition between :: "'r loop_state \<Rightarrow> bool" where
  "between s \<longleftrightarrow> sound s \<and> (ag_state (lp_agent s) = StatePaused \<or> calls_answered (ag_history (lp_agent s)))"

definition returned :: "turn_error option \<Rightarrow> 'r loop_state \<Rightarrow> bool" where
  "returned e s \<longleftrightarrow> sound s \<and> (e = None \<longrightarrow> ag_state (lp_agent s) = StatePaused \<or> calls_answered (ag_history (lp_agent s)))"

text \<open>After an answer was recorded, its calls are the only open ones.\<close>

definition asked :: "ToolCall list \<Rightarrow> 'r loop_state \<Rightarrow> bool" where
  "asked calls s \<longleftrightarrow> sound s \<and> (\<exists>ms m. ag_history (lp_agent s) = ms @ [m] \<and> calls_answered ms \<and>
     msg_Role m = RoleAssistant \<and> tool_calls m = calls)"

lemmas answer_defs = sound_def answered_def between_def returned_def asked_def

lemma holds_fail: "sound s \<Longrightarrow> holds Q between returned (fail e s)"
  by (simp add: fail_def answer_defs)

lemma hold_check_paused: "between s \<Longrightarrow> holds (\<lambda>_. answered) between returned (check_paused s)"
  by (auto simp: check_paused_def answer_defs)

lemma hold_take_steering:
  assumes "answered s"
  shows "holds (\<lambda>_. answered) between returned (take_steering rec env ack later s)"
proof -
  obtain told err where ack: "(case ack of AckCancelled e \<Rightarrow> ([], Some e)
      | AckAnswered r \<Rightarrow> ([(event_of EventTypeSteeringApplied)\<lparr>ev_SteeringIDs :=
           filter (\<lambda>i. i \<noteq> '''') (map msg_ID (ag_pendingTurnUser (lp_agent s)))\<rparr>], r)) = (told, err)"
    by fastforce
  define s1 where "s1 = (if ag_pendingTurnUser (lp_agent s) = [] then s else emit told s)"
  obtain a r where app: "applyPendingTurnUserInput rec (tn_now env) (tn_update env) err later (lp_agent s1) = (a, r)"
    by fastforce
  have s1: "lp_agent s1 = lp_agent s" "lp_requests s1 = lp_requests s" by (simp_all add: s1_def)
  have "calls_answered (ag_history a)" using drain_answers [OF app] assms by (simp add: s1 answer_defs)
  then show ?thesis
    using assms app s1 unfolding take_steering_def Let_def ack s1_def [symmetric]
    by (auto simp: ack s1_def [symmetric] answer_defs split: sum.splits)
qed

lemma hold_make_request:
  assumes "answered s"
  shows "holds (\<lambda>_. answered) between returned (make_request rec env s)"
proof -
  obtain a r where ctx: "buildContext rec (tn_compaction env) (lp_compressor s) (lp_agent s) = (a, r)" by fastforce
  show ?thesis
    using buildContext_answers [OF ctx] assms ctx
    by (cases r) (auto simp: make_request_def answer_defs fail_def Let_def)
qed

lemma hold_recover:
  assumes "answered s"
  shows "holds Q between returned (recover_or_fail rec env e s)"
proof -
  obtain a r where rcv: "tryReactiveRecover rec (tn_recovery env) (lp_compressor s) (is_context_length e) (lp_reactiveRetries s) 1
      (lp_agent s) = (a, r)" by fastforce
  show ?thesis
    using tryReactiveRecover_answers [OF rcv] assms rcv
    by (cases r) (auto simp: recover_or_fail_def answer_defs fail_def)
qed

definition gathered :: "turn_env \<Rightarrow> stream_state \<Rightarrow> bool" where
  "gathered env st \<longleftrightarrow> list_all is_reasoning (st_blocks st) \<and>
     (\<exists>events. tn_stream env = Inr events \<and> st_toolCalls st = List.map_filter event_call events)"

lemma hold_stream:
  assumes "answered s"
  shows "holds (\<lambda>st s'. answered s' \<and> gathered env st) between returned (stream_answer rec env s)"
proof (cases "tn_stream env")
  case (Inl e)
  then show ?thesis using hold_recover [OF assms] by (simp add: stream_answer_def)
next
  case (Inr events)
  obtain st out err where cons: "consume_stream events stream_start = (st, out, err)" by (metis prod.exhaust)
  show ?thesis
  proof (cases err)
    case None
    have "gathered env st"
      using consume_stream_gathers [OF cons None] consume_stream_blocks [OF cons] Inr
      by (simp add: gathered_def stream_start_def)
    then show ?thesis using Inr cons None assms by (simp add: stream_answer_def answer_defs)
  next
    case (Some ee)
    obtain evt e where ee: "ee = (evt, e)" by fastforce
    define s1 where "s1 = (case ev_Usage evt of None \<Rightarrow> emit out s | Some u \<Rightarrow> add_usage u (emit out s))"
    have s1: "answered s1" using assms by (auto simp: s1_def answer_defs split: option.splits)
    have "holds Q between returned (stream_failed rec env st evt e (emit out s))" for Q :: "stream_state \<Rightarrow> 'a loop_state \<Rightarrow> bool"
      unfolding stream_failed_def Let_def s1_def [symmetric]
      using s1 by (auto simp: answer_defs intro!: hold_recover split: option.splits)
    then show ?thesis using Inr cons Some ee by (simp add: stream_answer_def)
  qed
qed

lemma hold_record_answer:
  assumes "answered s" "gathered env st"
  shows "holds (\<lambda>_. asked (st_toolCalls st)) between returned (record_answer rec env input st s)"
proof -
  define s1 where "s1 = steer (tn_steer_answer env) s"
  define m where "m = assistant_message (tn_now env) (tn_provider env) (tn_model env) input (ag_history (lp_agent s1)) st"
  obtain conv err where app: "appendMessages rec (ag_conversation (lp_agent s1)) [m] = (conv, err)" by fastforce
  have m: "msg_Role m = RoleAssistant" "tool_calls m = st_toolCalls st"
    using assms(2) by (simp_all add: m_def assistant_message_sel tool_calls_assistant_message gathered_def)
  have s1: "answered s1" using assms(1) by (simp add: s1_def answer_defs)
  show ?thesis
  proof (cases err)
    case (Some e)
    then show ?thesis
      using app s1 unfolding record_answer_def s1_def [symmetric] Let_def m_def [symmetric]
      by (simp add: holds_fail answer_defs)
  next
    case None
    then have "history conv = ag_history (lp_agent s1) @ [m]" using appendMessages_cases [OF app] by simp
    then show ?thesis
      using app s1 None m unfolding record_answer_def s1_def [symmetric] Let_def m_def [symmetric]
      by (auto simp: answer_defs)
  qed
qed

lemma hold_record_results:
  assumes "asked calls s" "map tr_ToolCallID results = map tc_ID calls"
  shows "holds Q between returned (record_results rec env wrap executed results s)"
proof -
  define r where "r = NewToolMessage (tn_now env) results"
  obtain conv err where app: "appendMessages rec (ag_conversation (lp_agent s)) [r] = (conv, err)" by fastforce
  obtain ms m where m: "ag_history (lp_agent s) = ms @ [m]" "calls_answered ms" "msg_Role m = RoleAssistant" "tool_calls m = calls"
    using assms(1) by (auto simp: asked_def)
  have "answers r m" "\<not> calling r" using assms(2) m(4) by (simp_all add: answers_def r_def)
  then have "calls_answered (ms @ [m, r])" using calls_answered_exchange m(2) by blast
  moreover have "sound s" using assms(1) by (simp add: asked_def)
  ultimately show ?thesis
    using app appendMessages_cases [OF app] m(1)
    unfolding record_results_def r_def [symmetric]
    by (cases err) (auto simp: answer_defs fail_def Let_def)
qed

subsection \<open>Tool calls\<close>

lemma classify_calls_agent:
  "ag_conversation (fst (classify_calls now cm i calls a)) = ag_conversation a"
  "ag_state (fst (classify_calls now cm i calls a)) = ag_state a"
  "ag_pendingTurnUser (fst (classify_calls now cm i calls a)) = ag_pendingTurnUser a"
  "ag_tools (fst (classify_calls now cm i calls a)) = ag_tools a"
  by (induction calls arbitrary: i a) (simp_all add: split_beta Let_def)

lemma classify_calls_actions:
  "map pa_ToolCallID (snd (classify_calls now cm i calls a)) = map tc_ID calls"
  "map pa_Order (snd (classify_calls now cm i calls a)) = map int [i..<i + length calls]"
  by (induction calls arbitrary: i a)
    (simp_all add: split_beta Let_def pending_action_def upt_conv_Cons del: upt_Suc)

lemma classifier_decision:
  "classifyWithSafetyClassifier a tc risk = Some d \<Longrightarrow> \<exists>x. ad_Decision d = x \<and>
     x \<in> {ExecutionDecisionAutoExecute, ExecutionDecisionRequireApproval, ExecutionDecisionBlock}"
  by (auto simp: classifyWithSafetyClassifier_def Let_def
      split: if_splits option.splits sum.splits SafetyClassifierDecision.splits)

lemma classifyToolCall_decision:
  "ad_Decision (classifyToolCall a tc) \<in>
     {ExecutionDecisionAutoExecute, ExecutionDecisionRequireApproval, ExecutionDecisionBlock}"
  by (auto simp: classifyToolCall_def Let_def split: option.splits dest: classifier_decision)

lemma classify_calls_decided:
  "x \<in> set (snd (classify_calls now cm i calls a)) \<Longrightarrow> ad_Decision (pa_Decision x) \<in>
     {ExecutionDecisionAutoExecute, ExecutionDecisionRequireApproval, ExecutionDecisionBlock}"
proof (induction calls arbitrary: i a)
  case (Cons tc calls)
  then show ?case using classifyToolCall_decision [of a tc] by (auto simp: split_beta Let_def pending_action_def)
qed simp

text \<open>Splitting off the blocked actions and sorting them back restores the order of the calls.\<close>

lemma ordered_split:
  assumes "\<And>x. x \<in> set xs \<Longrightarrow> P x \<noteq> Q x" "sorted (map pa_Order xs)" "distinct (map pa_Order xs)"
  shows "orderedActions (filter P xs @ filter Q xs) = xs"
  unfolding orderedActions_def
proof (rule properties_for_sort_key)
  have "filter Q xs = filter (\<lambda>x. \<not> P x) xs" using assms(1) by (intro filter_cong) auto
  then show "mset xs = mset (filter P xs @ filter Q xs)" by simp
  show "sorted (map pa_Order xs)" by (rule assms(2))
  fix k assume k: "k \<in> set xs"
  have inj: "inj_on pa_Order (set xs)" using assms(3) by (simp add: distinct_map)
  have dist: "distinct xs" using assms(3) by (simp add: distinct_map)
  have "filter (\<lambda>x. pa_Order k = pa_Order x) ys = filter (\<lambda>x. k = x) ys" if "set ys \<subseteq> set xs" for ys
    using inj k that by (intro filter_cong) (auto dest: inj_onD)
  moreover have "filter (\<lambda>x. k = x) ys = (if k \<in> set ys then [k] else [])" if "distinct ys" for ys
    using that by (induction ys) auto
  moreover have "distinct (filter P xs @ filter Q xs)" using dist assms(1) by auto
  moreover have "k \<in> set (filter P xs @ filter Q xs)" using k assms(1) by auto
  ultimately show "filter (\<lambda>x. pa_Order k = pa_Order x) xs = filter (\<lambda>x. pa_Order k = pa_Order x) (filter P xs @ filter Q xs)"
    using dist k by (metis (no_types, lifting) Un_least filter_is_subset order_refl set_append)
qed

lemma executable_calls:
  assumes "classify_calls now cm 0 calls a = (a', actions)" "decided ExecutionDecisionRequireApproval actions = []"
  shows "orderedActions (decided ExecutionDecisionAutoExecute actions @ decided ExecutionDecisionBlock actions) = actions"
proof (rule ordered_split)
  fix x assume "x \<in> set actions"
  then show "(ad_Decision (pa_Decision x) = ExecutionDecisionAutoExecute) \<noteq> (ad_Decision (pa_Decision x) = ExecutionDecisionBlock)"
    using classify_calls_decided [of x now cm 0 calls a] assms by (auto simp: filter_empty_conv)
next
  have ord: "map pa_Order actions = map int [0..<length calls]"
    using classify_calls_actions(2) [of now cm 0 calls a] assms(1) by simp
  show "sorted (map pa_Order actions)" "distinct (map pa_Order actions)"
    unfolding ord by (simp_all add: sorted_map sorted_wrt_mono_rel [OF _ sorted_wrt_upt] distinct_map)
qed

lemma executeActions_conversation:
  "executeActions sum8 now env actions snap a = (a', r) \<Longrightarrow>
     ag_conversation a' = ag_conversation a \<and> ag_state a' = ag_state a \<and> ag_tools a' = ag_tools a"
proof -
  define b where "b = (if snap then ensureSnapshotForActions now actions a else (a, None))"
  have b: "ag_conversation (fst b) = ag_conversation a" "ag_state (fst b) = ag_state a" "ag_tools (fst b) = ag_tools a"
    by (simp_all add: b_def)
  show "executeActions sum8 now env actions snap a = (a', r) \<Longrightarrow>
     ag_conversation a' = ag_conversation a \<and> ag_state a' = ag_state a \<and> ag_tools a' = ag_tools a"
    unfolding executeActions_def b_def [symmetric] split_beta Let_def
    using b by (auto split: if_splits option.splits)
qed

lemma hold_execute:
  assumes "asked calls s" "map pa_ToolCallID actions = map tc_ID calls" "distinct (map tc_ID calls)"
  shows "holds Q between returned (execute_calls sum8 rec env actions s)"
proof -
  obtain a r where ex: "executeActions sum8 (tn_now env) (tn_tools env) actions True (lp_agent s) = (a, r)" by fastforce
  have a: "ag_conversation a = ag_conversation (lp_agent s)" using executeActions_conversation [OF ex] by simp
  show ?thesis
  proof (cases r)
    case (Inl e)
    then show ?thesis using ex assms(1) by (simp add: execute_calls_def answer_defs)
  next
    case (Inr rs)
    obtain results started where rs: "rs = (results, started)" by fastforce
    have "map tr_ToolCallID results = map tc_ID calls"
      using executeActions_ids [of actions, OF _ ex [unfolded Inr rs]] assms(2,3) by simp
    moreover have "asked calls (steer (tn_steer_tools env) (s\<lparr>lp_agent := a, lp_started := lp_started s @ started\<rparr>))"
      using assms(1) a by (simp add: asked_def sound_def)
    ultimately show ?thesis using ex Inr rs hold_record_results by (simp add: execute_calls_def)
  qed
qed

lemma hold_handle_calls:
  assumes "asked calls s" "distinct (map tc_ID calls)" "calls \<noteq> []"
  shows "holds Q between returned (handle_calls sum8 rec env calls s)"
proof -
  obtain a actions where cl: "classify_calls (tn_now env) (tn_classifierModel env) 0 calls (lp_agent s) = (a, actions)" by fastforce
  define s1 where "s1 = steer (tn_steer_decide env) (s\<lparr>lp_agent := a\<rparr>)"
  have "ag_conversation a = ag_conversation (lp_agent s)"
    using classify_calls_agent(1) [of "tn_now env" "tn_classifierModel env" 0 calls "lp_agent s"] cl by simp
  then have s1: "asked calls s1" using assms(1) by (simp add: s1_def asked_def sound_def)
  have ids: "map pa_ToolCallID actions = map tc_ID calls"
    using classify_calls_actions(1) [of "tn_now env" "tn_classifierModel env" 0 calls "lp_agent s"] cl by simp
  note interrupted = hold_record_results [OF s1, of "interruptedToolResults calls"]
  show ?thesis
  proof (cases "decided ExecutionDecisionRequireApproval actions = []")
    case False
    then show ?thesis
      using s1 interrupted
      by (auto simp: handle_calls_def cl Let_def s1_def [symmetric] recordInterruptedToolCalls_def answer_defs)
  next
    case True
    have "actions \<noteq> []" using ids assms(3) by auto
    then show ?thesis
      using executable_calls [OF cl True] True hold_execute [OF s1 ids assms(2)]
      by (simp add: handle_calls_def cl Let_def s1_def [symmetric])
  qed
qed

subsection \<open>A round and a run\<close>

lemma answered_steer [simp]: "answered (steer ms s) \<longleftrightarrow> answered s"
  by (simp add: answer_defs)

lemma hold_nudge:
  assumes "answered s"
  shows "holds (\<lambda>_. answered) between returned (nudge_empty rec env st s)"
proof -
  define s1 where "s1 = steer (tn_steer_empty env) s"
  obtain conv err where app: "appendMessages rec (ag_conversation (lp_agent s1)) [NewUserMessage (tn_now env) nudge_text] = (conv, err)"
    by fastforce
  have "answered s1" using assms by (simp add: s1_def)
  moreover have "calls_answered (history conv)"
    using appendMessages_cases [OF app] \<open>answered s1\<close> by (cases err) (auto simp: answer_defs intro: calls_answered_append)
  ultimately show ?thesis
    using assms app unfolding nudge_empty_def s1_def [symmetric] Let_def
    by (auto simp: answer_defs fail_def split: option.splits)
qed

lemma hold_finish: "answered s \<Longrightarrow> holds Q between returned (finish_turn env st s)"
  by (simp add: finish_turn_def answer_defs Let_def)

lemma hold_end_turn: "answered s \<Longrightarrow> holds Q between returned (end_turn rec env st s)"
  unfolding end_turn_def
  by (intro holds_and_then [OF hold_take_steering] holds_and_then [OF hold_nudge])
    (auto simp: answer_defs [of s for s] hold_finish intro!: holds_and_then [OF hold_take_steering] holds_and_then [OF hold_nudge])

definition distinct_calls :: "turn_env \<Rightarrow> bool" where
  "distinct_calls env \<longleftrightarrow>
     (case tn_stream env of Inl _ \<Rightarrow> True | Inr events \<Rightarrow> distinct (map tc_ID (List.map_filter event_call events)))"

lemma asked_nothing: "asked [] s \<Longrightarrow> answered s"
  by (auto simp: answer_defs calling_def intro!: calls_answered_append)

lemma hold_after_answer:
  assumes "asked (st_toolCalls st) s" "gathered env st" "distinct_calls env"
  shows "holds Q between returned (after_answer sum8 rec env st steeringPending s)"
proof -
  have dist: "distinct (map tc_ID (st_toolCalls st))" using assms(2,3) by (auto simp: gathered_def distinct_calls_def)
  show ?thesis
  proof (cases "st_toolCalls st = []")
    case True
    then have "answered s" using assms(1) asked_nothing by simp
    from this [THEN hold_end_turn] this show ?thesis
      using True by (auto simp: after_answer_def between_def answered_def)
  next
    case False
    have "holds Q between returned (record_results rec env ErrInterruptedResults False (interruptedToolResults (st_toolCalls st)) s)"
      by (rule hold_record_results [OF assms(1)]) simp
    moreover have "holds Q between returned (handle_calls sum8 rec env (st_toolCalls st) s)"
      by (rule hold_handle_calls [OF assms(1) dist False])
    ultimately show ?thesis
      using False by (simp add: after_answer_def recordInterruptedToolCalls_def)
  qed
qed

lemma hold_turn_step:
  fixes s :: "'r loop_state"
  assumes "between s" "distinct_calls env"
  shows "holds (\<lambda>_. between) between returned (turn_step sum8 rec env s)"
  unfolding turn_step_def
proof (rule holds_and_then [OF hold_check_paused [OF assms(1)]], rule holds_and_then [OF hold_take_steering])
  fix s :: "'r loop_state" assume "answered s"
  then show "answered (switch_profiles (tn_profiles env) s)" by (simp add: answer_defs)
next
  fix s :: "'r loop_state" assume "answered s"
  then show "holds (\<lambda>_. between) between returned (and_then (make_request rec env s) (\<lambda>input s.
     and_then (stream_answer rec env s) (\<lambda>st s.
     and_then (record_answer rec env input st s) (\<lambda>steeringPending s.
     after_answer sum8 rec env st steeringPending s))))"
  proof (rule holds_and_then [OF hold_make_request])
    fix input and s :: "'r loop_state" assume "answered s"
    then show "holds (\<lambda>_. between) between returned (and_then (stream_answer rec env s) (\<lambda>st s.
       and_then (record_answer rec env input st s) (\<lambda>steeringPending s.
       after_answer sum8 rec env st steeringPending s)))"
    proof (rule holds_and_then [OF hold_stream])
      fix st and s :: "'r loop_state" assume st: "answered s \<and> gathered env st"
      then show "holds (\<lambda>_. between) between returned (and_then (record_answer rec env input st s) (\<lambda>steeringPending s.
         after_answer sum8 rec env st steeringPending s))"
        using hold_after_answer [OF _ _ assms(2)] by (intro holds_and_then [OF hold_record_answer]) auto
    qed
  qed
qed

lemma run_loop_between:
  assumes "run_loop sum8 rec envs s = (s', outcome)" "between s" "list_all distinct_calls envs"
  shows "case outcome of None \<Rightarrow> between s' | Some e \<Rightarrow> returned e s'"
  using assms
proof (induction envs arbitrary: s)
  case (Cons env envs)
  obtain s1 p where step: "turn_step sum8 rec env s = (s1, p)" by fastforce
  show ?case
    using hold_turn_step [OF Cons.prems(2), of env sum8 rec] Cons step
    by (cases p) auto
qed simp

text \<open>
  C2. Every request a run sends is one a provider accepts: each tool call in it is answered, at once
  and in order, whatever tools, steering, compaction, profile switches and failures the run goes
  through.  A run that ends without an error leaves the conversation so, unless it waits for a human.
\<close>

theorem requests_answer_calls:
  assumes "run_loop sum8 rec envs (loop_start compressor summarizer a) = (s, outcome)"
    and "calls_answered (ag_history a)" "list_all distinct_calls envs"
  shows "list_all calls_answered (lp_requests s) \<and>
    (outcome = Some None \<longrightarrow> ag_state (lp_agent s) = StatePaused \<or> calls_answered (ag_history (lp_agent s)))"
proof -
  have "between (loop_start compressor summarizer a)"
    using assms(2) by (simp add: loop_start_def answer_defs)
  from run_loop_between [OF assms(1) this assms(3)] show ?thesis
    by (cases outcome) (auto simp: answer_defs)
qed

section \<open>Sample rounds\<close>

definition quiet_tools :: tool_env where
  "quiet_tools = \<lparr>te_record_start = (\<lambda>_. None), te_invoke = (\<lambda>x. Inr (OutString ''ok'')), te_reminder = (\<lambda>_. ''''),
     te_ctx_err = None, te_irq_start = (\<lambda>_. False), te_irq_done = (\<lambda>_. False), te_irq_end = False\<rparr>"

definition quiet_round :: "Event list \<Rightarrow> turn_env" where
  "quiet_round events = \<lparr>tn_now = 9, tn_profiles = [], tn_update = None, tn_ack_start = AckAnswered None,
     tn_ack_answer = AckAnswered None, tn_ack_end = AckAnswered None, tn_compaction = compacting_env,
     tn_recovery = compacting_env, tn_provider = ''p'', tn_model = ''m'', tn_window = 0, tn_stream = Inr events,
     tn_classifierModel = ('''', ''''), tn_tools = quiet_tools, tn_steer_start = [], tn_steer_answer = [],
     tn_steer_decide = [], tn_steer_tools = [], tn_steer_drain = [], tn_steer_empty = [], tn_steer_end = [],
     tn_steer_late = []\<rparr>"

definition asking_agent :: "unit Agent" where
  "asking_agent = sample_agent\<lparr>ag_state := StateRunning,
     ag_conversation := newConversationState\<lparr>history := [NewUserMessage 1 ''go'']\<rparr>\<rparr>"

abbreviation ask_run :: "turn_env list \<Rightarrow> unit loop_state \<times> turn_error option option" where
  "ask_run envs \<equiv> run_loop (\<lambda>x. x) no_record envs (loop_start None None asking_agent)"

definition two_rounds :: "turn_env list" where
  "two_rounds = [quiet_round [call_end (sample_call ''read''), NewFinishEvent FinishReasonToolCalls],
     (quiet_round [text_delta ''done'', NewFinishEvent FinishReasonStop])]"

lemma two_rounds_run:
  "(\<lambda>(s, outcome). (map (map msg_Role) (lp_requests s), map (\<lambda>x. (pa_ToolCallID x, pa_Name x)) (lp_started s),
      ag_state (lp_agent s), outcome)) (ask_run two_rounds) =
     ([[RoleSystem, RoleUser], [RoleSystem, RoleUser, RoleAssistant, RoleTool]], [(''c1'', ''read'')], StateIdle, Some None)"
  by code_simp

lemmas two_rounds_results = two_rounds_run [unfolded case_prod_beta prod.inject]

theorem requests_answer_calls_witness:
  "list_all calls_answered (lp_requests (fst (ask_run two_rounds))) \<and>
   length (lp_requests (fst (ask_run two_rounds))) = 2 \<and> calls_answered (ag_history (lp_agent (fst (ask_run two_rounds))))"
proof -
  note run = two_rounds_results
  have len: "length (lp_requests (fst (ask_run two_rounds))) = 2"
    using arg_cong [OF conjunct1 [OF run], of length] by simp
  have ok: "calls_answered (ag_history asking_agent)" "list_all distinct_calls two_rounds" by code_simp+
  show ?thesis
    using requests_answer_calls [OF prod.collapse [symmetric] ok, of "\<lambda>x. x" no_record None None] run len by simp
qed

end
