(* ===== verification/Turn_Permissions.thy ===== *)
theory Turn_Permissions
  imports Agent_Turns
begin

text \<open>
  What a run may start on its own.  Nothing a round does changes the tools of the agent, its
  directories or the requested policy, so the policy in force when the run began decides.
\<close>

section \<open>Permissions\<close>

definition permissions ::
  "'r Agent \<Rightarrow> ApprovalPolicy \<times> bool \<times> (string \<rightharpoonup> Tool) \<times> Executor \<times> string list"
where
  "permissions a = (ag_requestedPolicy a, ag_reviewAllTools a, ag_tools a, ag_executor a, ag_extraSafeDirs a)"

lemma permissions_update [simp]:
  "permissions (a\<lparr>ag_conversation := x\<rparr>) = permissions a" "permissions (a\<lparr>ag_pendingTurnUser := y\<rparr>) = permissions a"
  "permissions (a\<lparr>ag_state := z\<rparr>) = permissions a" "permissions (a\<lparr>ag_cumulativeUsage := u\<rparr>) = permissions a"
  "permissions (a\<lparr>ag_pendingActions := v\<rparr>) = permissions a" "permissions (a\<lparr>ag_deferredActions := w\<rparr>) = permissions a"
  "permissions (a\<lparr>ag_loopDetector := d\<rparr>) = permissions a" "permissions (a\<lparr>ag_turnSafety := ts\<rparr>) = permissions a"
  "permissions (a\<lparr>ag_turns := tt\<rparr>) = permissions a"
  by (simp_all add: permissions_def)

text \<open>Under manual approval the policy is manual whatever profile is applied.\<close>

definition manual :: "'r Agent \<Rightarrow> bool" where
  "manual a \<longleftrightarrow> ag_policy a = ApprovalPolicyManual \<and> ag_requestedPolicy a = ApprovalPolicyManual \<and> \<not> ag_reviewAllTools a"

definition keeps :: "'r Agent \<Rightarrow> 'r Agent \<Rightarrow> bool" where
  "keeps a b \<longleftrightarrow> permissions b = permissions a \<and> ag_policy b = ag_policy a"

lemma keeps_refl [simp]: "keeps a a"
  by (simp add: keeps_def)

lemma keeps_trans: "keeps a b \<Longrightarrow> keeps b c \<Longrightarrow> keeps a c"
  by (simp add: keeps_def)

lemma keeps_update [simp]:
  "keeps a (b\<lparr>ag_conversation := x\<rparr>) = keeps a b" "keeps a (b\<lparr>ag_pendingTurnUser := y\<rparr>) = keeps a b"
  "keeps a (b\<lparr>ag_state := z\<rparr>) = keeps a b" "keeps a (b\<lparr>ag_cumulativeUsage := u\<rparr>) = keeps a b"
  "keeps a (b\<lparr>ag_pendingActions := v\<rparr>) = keeps a b" "keeps a (b\<lparr>ag_deferredActions := w\<rparr>) = keeps a b"
  "keeps a (b\<lparr>ag_loopDetector := d\<rparr>) = keeps a b" "keeps a (b\<lparr>ag_turnSafety := ts\<rparr>) = keeps a b"
  "keeps a (b\<lparr>ag_turns := tt\<rparr>) = keeps a b"
  by (simp_all add: keeps_def)

lemma keeps_audit [simp]: "keeps a (appendSafetyEvent now ev b) \<longleftrightarrow> keeps a b"
  by (simp add: appendSafetyEvent_def ensure_turn_def Let_def split: option.split prod.split)

lemma keeps_setTurnSnapshot [simp]: "keeps a (setTurnSnapshot now st i b) \<longleftrightarrow> keeps a b"
  by (simp add: setTurnSnapshot_def split: option.split)

lemma keeps_snapshot: "keeps a (fst (ensureSnapshotForActions now acts a))"
  by (auto simp: ensureSnapshotForActions_def Let_def split: sum.split prod.split)

lemma keeps_classify: "keeps a b \<Longrightarrow> keeps a (fst (classify_calls now cm i calls b))"
  by (induction calls arbitrary: i b) (simp_all add: split_beta Let_def)

lemma keeps_execute: "keeps a (fst (executeActions sum8 now env actions snap a))"
proof -
  define b where "b = (if snap then ensureSnapshotForActions now actions a else (a, None))"
  have b: "keeps a (fst b)" by (simp add: b_def keeps_snapshot)
  then show ?thesis
    unfolding executeActions_def b_def [symmetric] split_beta Let_def
    by (auto split: if_splits option.splits)
qed

lemma keeps_drain: "keeps a (fst (applyPendingTurnUserInput rec now update ack later a))"
proof -
  have app: "keeps b (fst (appendUserInputLocked rec now update m c b))" for b m c
    by (auto simp: appendUserInputLocked_def Let_def split: option.split sum.split prod.split)
  have "keeps a b'" if "appendUserInputLocked rec now update m c b = (b', e)" "keeps a b" for b b' e m c
    using app [of b m c] that keeps_trans by fastforce
  then show ?thesis
    by (auto simp: applyPendingTurnUserInput_def drainPendingTurnUserInputLocked_def Let_def
        split: if_splits option.splits prod.splits sum.splits)
qed

lemma keeps_compaction: "keeps a (fst (compressHistoryWithPromptLocked rec env c force reactive a))"
  by (auto simp: compressHistoryWithPromptLocked_def commit_compressed_def Let_def
      split: if_splits option.splits prod.splits sum.splits)

lemma keeps_buildContext: "keeps a (fst (buildContext rec env compressor a))"
proof (cases compressor)
  case (Some c)
  obtain b r e where "compressHistoryWithPromptLocked rec env c False False a = (b, r, e)" by (metis prod.exhaust)
  then show ?thesis
    using keeps_compaction [of a rec env c False False] Some by (cases e) (auto simp: buildContext_def Let_def)
qed (simp add: buildContext_def Let_def)

lemma keeps_recover: "keeps a (fst (tryReactiveRecover rec env compressor b n m a))"
proof (cases compressor)
  case (Some c)
  obtain b' r e where "compressHistoryWithPromptLocked rec env c True True a = (b', r, e)" by (metis prod.exhaust)
  then show ?thesis
    using keeps_compaction [of a rec env c True True] Some by (auto simp: tryReactiveRecover_def)
qed (simp add: tryReactiveRecover_def)

section \<open>Runs under manual approval\<close>

text \<open>The action's tool rates it safe, with the directories of the agent, and asks for no approval.\<close>

definition rated_safe :: "'r Agent \<Rightarrow> PendingAction \<Rightarrow> bool" where
  "rated_safe a x \<longleftrightarrow>
     (\<exists>tool. ag_tools a (pa_Name x) = Some tool \<and>
        (let dec = tool \<lparr>sc_Arguments = pa_Arguments x, sc_WorkDir = ex_WorkDir (ag_executor a), sc_SafeDirs = safeDirs a\<rparr>
         in sd_Level dec \<le> LevelSafe \<and> \<not> sd_RequiresApproval dec))"

definition guarded :: "'r Agent \<Rightarrow> 'r loop_state \<Rightarrow> bool" where
  "guarded a s \<longleftrightarrow> permissions (lp_agent s) = permissions a \<and> ag_policy (lp_agent s) = ApprovalPolicyManual \<and>
     list_all (rated_safe a) (lp_started s)"

lemma guarded_sel:
  "lp_started s' = lp_started s \<Longrightarrow> keeps (lp_agent s) (lp_agent s') \<Longrightarrow> guarded a s \<Longrightarrow> guarded a s'"
  by (simp add: guarded_def keeps_def)

lemma guarded_simps [simp]:
  "guarded a (emit es s) = guarded a s" "guarded a (emit_usage e s) = guarded a s" "guarded a (steer ms s) = guarded a s"
  "guarded a (add_usage u s) = guarded a s" "guarded a (s\<lparr>lp_emptyRecovery := n\<rparr>) = guarded a s"
  by (simp_all add: guarded_def steer_def add_usage_def)

lemma guarded_and_then:
  assumes "guarded a (fst r)" "\<And>x s. guarded a s \<Longrightarrow> guarded a (fst (f x s))"
  shows "guarded a (fst (and_then r f))"
proof -
  obtain s p where "r = (s, p)" by fastforce
  then show ?thesis using assms by (cases p) (auto simp: and_then_def)
qed

lemma guarded_fail: "guarded a s \<Longrightarrow> guarded a (fst (fail e s))"
  by (simp add: fail_def)

lemma classified_action:
  "x \<in> set (snd (classify_calls now cm i calls b)) \<Longrightarrow>
     \<exists>c tc. keeps b c \<and> pa_Decision x = classifyToolCall c tc \<and> pa_Name x = tc_Name tc \<and> pa_Arguments x = tc_Arguments tc"
proof (induction calls arbitrary: i b)
  case (Cons tc calls)
  let ?b = "appendSafetyEvent now (decision_event cm b tc (classifyToolCall b tc)) b"
  consider (head) "x = pending_action i tc (classifyToolCall b tc)" | (tail) "x \<in> set (snd (classify_calls now cm (Suc i) calls ?b))"
    using Cons.prems by (auto simp: split_beta Let_def)
  then show ?case
  proof cases
    case head
    then show ?thesis by (intro exI [of _ b] exI [of _ tc]) (simp add: pending_action_def)
  next
    case tail
    obtain c tc' where c: "keeps ?b c" "pa_Decision x = classifyToolCall c tc'" "pa_Name x = tc_Name tc'"
      "pa_Arguments x = tc_Arguments tc'"
      using Cons.IH [OF tail] by blast
    moreover have "keeps b c" by (rule keeps_trans [OF _ c(1)]) simp
    ultimately show ?thesis by blast
  qed
qed simp

lemma manual_auto_rated:
  assumes "permissions c = permissions a" "ag_policy c = ApprovalPolicyManual" "manual a"
    and "ad_Decision (classifyToolCall c tc) = ExecutionDecisionAutoExecute"
    and "pa_Name x = tc_Name tc" "pa_Arguments x = tc_Arguments tc"
  shows "rated_safe a x"
proof -
  have c: "ag_reviewAllTools c = ag_reviewAllTools a" "ag_tools c = ag_tools a" "ag_executor c = ag_executor a" "safeDirs c = safeDirs a"
    using assms(1) by (simp_all add: permissions_def safeDirs_def)
  then show ?thesis
    using assms(2-) unfolding auto_execute_iff
    by (auto simp: rated_safe_def auto_allowed_def tool_call_decision_def Let_def manual_def split: if_splits)
qed

lemma guarded_record_results:
  "guarded a s \<Longrightarrow> guarded a (fst (record_results rec env wrap executed results s))"
  by (auto simp: record_results_def fail_def Let_def markDurabilityFailed_def guarded_def permissions_def
      split: option.split prod.split)

lemma guarded_handle_calls:
  assumes "guarded a s" "manual a"
  shows "guarded a (fst (handle_calls sum8 rec env calls s))"
proof -
  obtain b actions where cl: "classify_calls (tn_now env) (tn_classifierModel env) 0 calls (lp_agent s) = (b, actions)" by fastforce
  define s1 where "s1 = steer (tn_steer_decide env) (s\<lparr>lp_agent := b\<rparr>)"
  have b: "keeps (lp_agent s) b"
    using keeps_classify [of "lp_agent s" "lp_agent s" "tn_now env" "tn_classifierModel env" 0 calls] cl by simp
  have s1: "guarded a s1" using assms(1) b by (simp add: s1_def steer_def guarded_def keeps_def)
  have ex: "guarded a (fst (execute_calls sum8 rec env xs s1))"
    if xs: "\<And>x. x \<in> set xs \<Longrightarrow> x \<in> set actions \<and> ad_Decision (pa_Decision x) \<in> {ExecutionDecisionAutoExecute, ExecutionDecisionBlock}" for xs
  proof -
    obtain d r where run: "executeActions sum8 (tn_now env) (tn_tools env) xs True (lp_agent s1) = (d, r)" by fastforce
    have d: "keeps (lp_agent s1) d"
      using keeps_execute [of "lp_agent s1" sum8 "tn_now env" "tn_tools env" xs True] run by simp
    show ?thesis
    proof (cases r)
      case (Inl e)
      then show ?thesis using run s1 d by (simp add: execute_calls_def guarded_def keeps_def)
    next
      case (Inr rs)
      obtain results started where rs: "rs = (results, started)" by fastforce
      have "rated_safe a x" if x: "x \<in> set started" for x
      proof -
        have st: "x \<in> set xs" "ad_Decision (pa_Decision x) \<noteq> ExecutionDecisionBlock"
          using executeActions_started [OF run [unfolded Inr rs] x] by simp_all
        then have auto: "ad_Decision (pa_Decision x) = ExecutionDecisionAutoExecute" "x \<in> set actions" using xs by auto
        obtain c tc where c: "keeps (lp_agent s) c" "pa_Decision x = classifyToolCall c tc" "pa_Name x = tc_Name tc"
          "pa_Arguments x = tc_Arguments tc"
          using classified_action [of x "tn_now env" "tn_classifierModel env" 0 calls "lp_agent s"] auto(2) cl by auto
        have "permissions c = permissions a" "ag_policy c = ApprovalPolicyManual"
          using c(1) assms(1) by (simp_all add: keeps_def guarded_def)
        from manual_auto_rated [OF this assms(2)] c auto show ?thesis by simp
      qed
      then have "guarded a (steer (tn_steer_tools env) (s1\<lparr>lp_agent := d, lp_started := lp_started s1 @ started\<rparr>))"
        using s1 d by (auto simp: guarded_def keeps_def list_all_iff steer_def)
      from guarded_record_results [OF this] show ?thesis using run Inr rs by (simp add: execute_calls_def)
    qed
  qed
  have "guarded a (s1\<lparr>lp_agent := (lp_agent s1)\<lparr>ag_state := x, ag_pendingActions := y, ag_deferredActions := z\<rparr>\<rparr>)" for x y z
    using s1 by (simp add: guarded_def)
  moreover have "guarded a (fst (recordInterruptedToolCalls rec env calls s1))"
    unfolding recordInterruptedToolCalls_def by (rule guarded_record_results [OF s1])
  moreover note ex [of "orderedActions (decided ExecutionDecisionAutoExecute actions @ decided ExecutionDecisionBlock actions)"]
  ultimately show ?thesis
    using s1 by (auto simp: handle_calls_def cl Let_def s1_def [symmetric] orderedActions_def)
qed

lemma guarded_profiles:
  assumes "guarded a s" "manual a"
  shows "guarded a (switch_profiles ps s)"
  using assms(1)
proof (induction ps arbitrary: s)
  case (Cons p ps)
  have "guarded a (s\<lparr>lp_agent := profile_agent p (lp_agent s),
      lp_compressor := profile_compressor (lp_compressorSummarizer s) p (lp_compressor s)\<rparr>)"
    using Cons.prems assms(2)
    by (auto simp: guarded_def profile_agent_def refreshApprovalPolicy_def permissions_def manual_def)
  from Cons.IH [OF this] show ?case by (simp add: switch_profiles_def)
qed (simp add: switch_profiles_def)

lemma guarded_agent: "keeps (lp_agent s) b \<Longrightarrow> guarded a s \<Longrightarrow> guarded a (s\<lparr>lp_agent := b\<rparr>)"
  by (simp add: guarded_def keeps_def)

lemma guarded_take_steering: "guarded a s \<Longrightarrow> guarded a (fst (take_steering rec env ack later s))"
proof -
  assume s: "guarded a s"
  obtain told err where ack: "(case ack of AckCancelled e \<Rightarrow> ([], Some e)
      | AckAnswered r \<Rightarrow> ([(event_of EventTypeSteeringApplied)\<lparr>ev_SteeringIDs :=
           filter (\<lambda>i. i \<noteq> '''') (map msg_ID (ag_pendingTurnUser (lp_agent s)))\<rparr>], r)) = (told, err)"
    by fastforce
  define s1 where "s1 = (if ag_pendingTurnUser (lp_agent s) = [] then s else emit told s)"
  have "guarded a s1" using s by (simp add: s1_def)
  then have "guarded a (s1\<lparr>lp_agent := fst (applyPendingTurnUserInput rec (tn_now env) (tn_update env) err later (lp_agent s1))\<rparr>)"
    by (intro guarded_agent keeps_drain)
  then show ?thesis
    unfolding take_steering_def Let_def ack s1_def
    by (cases "ag_pendingTurnUser (lp_agent s) = []") (simp_all add: ack split_beta)
qed

lemma guarded_make_request: "guarded a s \<Longrightarrow> guarded a (fst (make_request rec env s))"
proof -
  assume s: "guarded a s"
  obtain b r where ctx: "buildContext rec (tn_compaction env) (lp_compressor s) (lp_agent s) = (b, r)" by fastforce
  have "keeps (lp_agent s) b"
    using keeps_buildContext [of "lp_agent s" rec "tn_compaction env" "lp_compressor s"] ctx by simp
  then show ?thesis
    using s ctx by (cases r) (auto simp: make_request_def fail_def Let_def guarded_def keeps_def)
qed

lemma guarded_recover: "guarded a s \<Longrightarrow> guarded a (fst (recover_or_fail rec env e s))"
proof -
  assume s: "guarded a s"
  obtain b r where rcv: "tryReactiveRecover rec (tn_recovery env) (lp_compressor s) (is_context_length e) (lp_reactiveRetries s) 1
      (lp_agent s) = (b, r)" by fastforce
  have "keeps (lp_agent s) b"
    using keeps_recover [of "lp_agent s" rec "tn_recovery env" "lp_compressor s"] rcv by (metis fst_conv)
  then show ?thesis
    using s rcv by (cases r) (auto simp: recover_or_fail_def fail_def guarded_def keeps_def)
qed

lemma guarded_stream: "guarded a s \<Longrightarrow> guarded a (fst (stream_answer rec env s))"
  by (auto simp: stream_answer_def stream_failed_def Let_def
      intro!: guarded_recover split: sum.split option.split prod.split)

lemma guarded_record_answer: "guarded a s \<Longrightarrow> guarded a (fst (record_answer rec env input st s))"
proof -
  assume "guarded a s"
  then have "guarded a (steer (tn_steer_answer env) s)" by simp
  moreover have "guarded a (t\<lparr>lp_agent := (lp_agent t)\<lparr>ag_conversation := c\<rparr>\<rparr>) = guarded a t" for t c
    by (simp add: guarded_def)
  ultimately show ?thesis
    by (auto simp: record_answer_def Let_def guarded_fail split: option.split prod.split)
qed

lemma guarded_end_turn: "guarded a s \<Longrightarrow> guarded a (fst (end_turn rec env st s))"
proof -
  have conv: "guarded a (t\<lparr>lp_emptyRecovery := n, lp_agent := (lp_agent t)\<lparr>ag_conversation := c\<rparr>\<rparr>) = guarded a t" for t n c
    by (simp add: guarded_def)
  have nudge: "guarded a (fst (nudge_empty rec env st t))" if "guarded a t" for t
    using that by (auto simp: nudge_empty_def Let_def conv guarded_fail split: option.split prod.split)
  have finish: "guarded a (fst (finish_turn env st t))" if "guarded a t" for t
  proof -
    have "guarded a (u\<lparr>lp_agent := (lp_agent u)\<lparr>ag_pendingTurnUser := [], ag_state := StateIdle\<rparr>\<rparr>) = guarded a u" for u
      by (simp add: guarded_def)
    then show ?thesis using that by (simp add: finish_turn_def Let_def)
  qed
  show "guarded a s \<Longrightarrow> guarded a (fst (end_turn rec env st s))"
    unfolding end_turn_def
    by (intro guarded_and_then guarded_take_steering)
      (auto intro!: guarded_and_then guarded_take_steering nudge finish)
qed

lemma guarded_turn_step:
  assumes "guarded a s" "manual a"
  shows "guarded a (fst (turn_step sum8 rec env s))"
proof -
  have check: "guarded a (fst (check_paused t))" if "guarded a t" for t
    using that by (simp add: check_paused_def)
  have after: "guarded a (fst (after_answer sum8 rec env st b t))" if "guarded a t" for st b t
    using that assms(2)
    by (auto simp: after_answer_def recordInterruptedToolCalls_def
        intro: guarded_record_results guarded_handle_calls guarded_end_turn)
  show ?thesis
    unfolding turn_step_def
    by (intro guarded_and_then check guarded_take_steering guarded_profiles guarded_make_request guarded_stream
        guarded_record_answer after assms)
qed

lemma guarded_run:
  "run_loop sum8 rec envs s = (s', outcome) \<Longrightarrow> guarded a s \<Longrightarrow> manual a \<Longrightarrow> guarded a s'"
proof (induction envs arbitrary: s)
  case (Cons env envs)
  obtain s1 p where step: "turn_step sum8 rec env s = (s1, p)" by fastforce
  have "guarded a s1" using guarded_turn_step [OF Cons.prems(2,3), of sum8 rec env] step by simp
  then show ?case using Cons step by (cases p) auto
qed simp

lemma manual_run_started:
  assumes "run_loop sum8 rec envs (loop_start compressor summarizer a) = (s, outcome)"
    and "manual a" "x \<in> set (lp_started s)"
  shows "rated_safe a x"
proof -
  have "guarded a (loop_start compressor summarizer a)"
    using assms(2) by (simp add: loop_start_def guarded_def manual_def)
  from guarded_run [OF assms(1) this assms(2)] show ?thesis
    using assms(3) by (simp add: guarded_def list_all_iff)
qed

text \<open>
  C11. Under manual approval a run starts a tool on its own only if the tool itself, asked about these
  arguments in the agent's directories, rates the call safe and demands no approval, whatever the
  model asks for and whatever profiles are switched to meanwhile.
\<close>

theorem manual_run_starts_rated_safe:
  assumes "run_loop sum8 rec envs (loop_start compressor summarizer a) = (s, outcome)"
    and "manual a" "x \<in> set (lp_started s)"
  shows "\<exists>tool. ag_tools a (pa_Name x) = Some tool \<and>
    (let dec = tool \<lparr>sc_Arguments = pa_Arguments x, sc_WorkDir = ex_WorkDir (ag_executor a), sc_SafeDirs = safeDirs a\<rparr>
     in sd_Level dec \<le> LevelSafe \<and> \<not> sd_RequiresApproval dec)"
  using manual_run_started [OF assms] by (simp add: rated_safe_def)

theorem manual_run_starts_rated_safe_witness:
  "length (lp_started (fst (ask_run two_rounds))) = 1 \<and> rated_safe asking_agent (hd (lp_started (fst (ask_run two_rounds)))) \<and>
   pa_Name (hd (lp_started (fst (ask_run two_rounds)))) = ''read''"
proof -
  obtain x where x: "lp_started (fst (ask_run two_rounds)) = [x]" "pa_Name x = ''read''"
    using two_rounds_results by auto
  have man: "manual asking_agent" by (simp add: manual_def asking_agent_def sample_agent_def)
  have "x \<in> set (lp_started (fst (ask_run two_rounds)))" by (simp add: x)
  from manual_run_starts_rated_safe [OF prod.collapse [symmetric] man this] show ?thesis
    by (simp add: rated_safe_def x)
qed

end
