(* ===== verification/Turn_Endings.thy ===== *)
theory Turn_Endings
  imports Turn_Permissions
begin

text \<open>
  How runs end: without tool calls and steering input within three rounds; and what is lost or left
  unsaid at the end of a turn.
\<close>

section \<open>Runs without tool calls\<close>

definition quiet :: "turn_env \<Rightarrow> bool" where
  "quiet env \<longleftrightarrow> tn_steer_start env = [] \<and> tn_steer_answer env = [] \<and> tn_steer_decide env = [] \<and> tn_steer_tools env = [] \<and>
     tn_steer_drain env = [] \<and> tn_steer_empty env = [] \<and> tn_steer_end env = [] \<and> tn_steer_late env = [] \<and>
     (case tn_stream env of Inl _ \<Rightarrow> True | Inr events \<Rightarrow> List.map_filter event_call events = [])"

text \<open>The rounds a run may still start over: one compaction and one nudge.\<close>

definition budget :: "'r loop_state \<Rightarrow> nat" where
  "budget s = (1 - lp_reactiveRetries s) + (1 - lp_emptyRecovery s)"

definition calm :: "'r loop_state \<Rightarrow> bool" where
  "calm s \<longleftrightarrow> ag_pendingTurnUser (lp_agent s) = []"

abbreviation settles :: "('x \<Rightarrow> 'r loop_state \<Rightarrow> bool) \<Rightarrow> nat \<Rightarrow> 'r loop_state \<times> 'x phase \<Rightarrow> bool" where
  "settles Q k r \<equiv> holds Q (\<lambda>s. calm s \<and> budget s < k) (\<lambda>_ _. True) r"

lemma steer_nothing [simp]: "steer [] s = s"
  by (simp add: steer_def)

lemma calm_simps [simp]:
  "calm (emit es s) = calm s" "calm (emit_usage e s) = calm s" "calm (add_usage u s) = calm s"
  "budget (emit es s) = budget s" "budget (emit_usage e s) = budget s" "budget (add_usage u s) = budget s"
  "calm (switch_profiles ps s) = calm s" "budget (switch_profiles ps s) = budget s"
  by (simp_all add: calm_def budget_def)

lemma take_steering_calm: "calm s \<Longrightarrow> take_steering rec env ack [] s = (s, Next False)"
  by (cases ack) (simp_all add: take_steering_def applyPendingTurnUserInput_def calm_def Let_def)

lemma settles_fail: "holds Q A (\<lambda>_ _. True) (fail e s)"
  by (simp add: fail_def)

lemma commit_pending:
  "ag_pendingTurnUser (fst (compressHistoryWithPromptLocked rec env c force reactive a)) = ag_pendingTurnUser a"
  by (auto simp: compressHistoryWithPromptLocked_def commit_compressed_def Let_def
      split: if_splits option.splits prod.splits sum.splits)

lemma settles_recover:
  assumes "calm s" "budget s \<le> k"
  shows "settles Q k (recover_or_fail rec env e s)"
proof (cases "lp_compressor s")
  case None
  then show ?thesis by (simp add: recover_or_fail_def tryReactiveRecover_def settles_fail)
next
  case (Some c)
  obtain a r err where comp: "compressHistoryWithPromptLocked rec (tn_recovery env) c True True (lp_agent s) = (a, r, err)"
    by (metis prod.exhaust)
  have "ag_pendingTurnUser a = []"
    using commit_pending [of rec "tn_recovery env" c True True "lp_agent s"] comp assms(1) by (simp add: calm_def)
  then show ?thesis
    using Some comp assms
    by (auto simp: recover_or_fail_def tryReactiveRecover_def settles_fail calm_def budget_def)
qed

lemma settles_request:
  assumes "calm s" "budget s \<le> k"
  shows "settles (\<lambda>_ s. calm s \<and> budget s \<le> k) k (make_request rec env s)"
proof -
  obtain a r where ctx: "buildContext rec (tn_compaction env) (lp_compressor s) (lp_agent s) = (a, r)" by fastforce
  have "ag_pendingTurnUser a = ag_pendingTurnUser (lp_agent s)"
  proof (cases "lp_compressor s")
    case (Some c)
    obtain b res e where "compressHistoryWithPromptLocked rec (tn_compaction env) c False False (lp_agent s) = (b, res, e)"
      by (metis prod.exhaust)
    then show ?thesis
      using ctx Some commit_pending [of rec "tn_compaction env" c False False "lp_agent s"]
      by (cases e) (auto simp: buildContext_def Let_def)
  qed (use ctx in \<open>auto simp: buildContext_def Let_def\<close>)
  then show ?thesis
    using ctx assms by (cases r) (auto simp: make_request_def Let_def settles_fail calm_def budget_def)
qed

lemma settles_stream:
  assumes "calm s" "budget s \<le> k" "quiet env"
  shows "settles (\<lambda>st s. calm s \<and> budget s \<le> k \<and> st_toolCalls st = []) k (stream_answer rec env s)"
proof (cases "tn_stream env")
  case (Inl e)
  then show ?thesis using settles_recover [OF assms(1,2)] by (simp add: stream_answer_def)
next
  case (Inr events)
  obtain st out err where cons: "consume_stream events stream_start = (st, out, err)" by (metis prod.exhaust)
  show ?thesis
  proof (cases err)
    case None
    have "st_toolCalls st = []"
      using consume_stream_gathers(1) [OF cons None] assms(3) Inr by (simp add: quiet_def stream_start_def)
    then show ?thesis using Inr cons None assms(1,2) by (simp add: stream_answer_def)
  next
    case (Some ee)
    obtain evt e where ee: "ee = (evt, e)" by fastforce
    show ?thesis
      using Inr cons Some ee assms(1,2)
      by (auto simp: stream_answer_def stream_failed_def Let_def intro!: settles_recover split: option.split)
  qed
qed

lemma settles_record:
  assumes "calm s" "budget s \<le> k" "quiet env"
  shows "settles (\<lambda>b s. \<not> b \<and> calm s \<and> (st_content st = '''' \<and> st_toolCalls st = [] \<longrightarrow> budget s \<le> k)) k
    (record_answer rec env input st s)"
  using assms
  by (auto simp: record_answer_def Let_def settles_fail quiet_def calm_def budget_def split: option.split prod.split)

lemma settles_end:
  assumes "calm s" "st_content st = '''' \<and> st_toolCalls st = [] \<longrightarrow> budget s \<le> k" "quiet env"
  shows "settles (\<lambda>_ _. False) k (end_turn rec env st s)"
proof -
  have steer: "steer (tn_steer_drain env) s = s" "tn_steer_empty env = []" "tn_steer_end env = []"
    using assms(3) by (simp_all add: quiet_def)
  have nudge: "settles (\<lambda>_ s'. s' = s) k (nudge_empty rec env st s)"
    using assms(1,2) steer
    by (auto simp: nudge_empty_def Let_def settles_fail calm_def budget_def split: option.split prod.split)
  show ?thesis
    unfolding end_turn_def steer(1) take_steering_calm [OF assms(1)]
    by (simp add: and_then_def [of "(s, Next False)"], rule holds_and_then [OF nudge])
      (simp add: steer(3) take_steering_calm [OF assms(1)] and_then_def finish_turn_def Let_def)
qed

lemma settles_step:
  assumes "calm s" "quiet env"
  shows "settles (\<lambda>_ _. False) (budget s) (turn_step sum8 rec env s)"
proof -
  define k where "k = budget s"
  have check: "settles (\<lambda>_ s'. s' = s) k (check_paused s)" by (simp add: check_paused_def)
  have prof: "calm (switch_profiles (tn_profiles env) s)" "budget (switch_profiles (tn_profiles env) s) \<le> k"
    using assms(1) by (simp_all add: k_def)
  have start: "tn_steer_start env = []" using assms(2) by (simp add: quiet_def)
  show ?thesis
    unfolding turn_step_def k_def [symmetric]
    apply (rule holds_and_then [OF check])
    apply (simp add: start take_steering_calm [OF prof(1)] and_then_def [of "(switch_profiles (tn_profiles env) s, Next False)"])
    apply (rule holds_and_then [OF settles_request [OF prof]])
    apply (erule conjE, rule holds_and_then [OF settles_stream], assumption+, rule assms)
    apply (elim conjE, rule holds_and_then [OF settles_record], assumption+, rule assms)
    apply (auto simp: after_answer_def intro!: settles_end [OF _ _ assms(2)])
    done
qed

lemma quiet_run:
  assumes "calm s" "list_all quiet envs" "budget s < length envs"
  obtains s' e where "\<And>rest. run_loop sum8 rec (envs @ rest) s = (s', Some e)"
proof -
  have "\<exists>s' e. \<forall>rest. run_loop sum8 rec (envs @ rest) s = (s', Some e)"
    using assms
  proof (induction envs arbitrary: s)
    case (Cons env envs)
    obtain s1 p where step: "turn_step sum8 rec env s = (s1, p)" by fastforce
    have "settles (\<lambda>_ _. False) (budget s) (s1, p)"
      using settles_step [OF Cons.prems(1), of env sum8 rec] Cons.prems(2) step by simp
    then show ?case
      using Cons step by (cases p) (auto simp: less_Suc_eq)
  qed simp
  then show thesis using that by blast
qed

text \<open>
  C16. A run in which the model asks for no tool and nobody steers ends within three rounds, whatever
  the model says and whichever requests fail: it is retried at most once after a compaction and nudged
  at most once after an empty answer.
\<close>

theorem quiet_run_ends:
  assumes "ag_pendingTurnUser a = []" "quiet e1" "quiet e2" "quiet e3"
  shows "\<exists>s e. \<forall>rest. run_loop sum8 rec (e1 # e2 # e3 # rest) (loop_start compressor summarizer a) = (s, Some e)"
proof -
  have "calm (loop_start compressor summarizer a)" "budget (loop_start compressor summarizer a) < length [e1, e2, e3]"
    using assms(1) by (simp_all add: calm_def budget_def loop_start_def)
  moreover have "list_all quiet [e1, e2, e3]" using assms by simp
  ultimately obtain s e where "\<And>rest. run_loop sum8 rec ([e1, e2, e3] @ rest) (loop_start compressor summarizer a) = (s, Some e)"
    using quiet_run by blast
  then show ?thesis by (metis append_Cons append_Nil)
qed

text \<open>An answer without a call ends the turn at once.\<close>

definition plain_round :: turn_env where
  "plain_round = quiet_round [text_delta ''done'', NewFinishEvent FinishReasonStop]"

theorem quiet_run_ends_witness:
  "\<exists>s. \<forall>rest. run_loop (\<lambda>x. x) no_record (plain_round # plain_round # plain_round # rest) (loop_start None None asking_agent) = (s, Some None) \<and>
     length (lp_requests s) = 1"
proof -
  have calm: "ag_pendingTurnUser asking_agent = []" by (simp add: asking_agent_def sample_agent_def)
  have q: "quiet plain_round" by code_simp
  obtain s e where run: "\<And>rest. run_loop (\<lambda>x. x) no_record (plain_round # plain_round # plain_round # rest)
      (loop_start None None asking_agent) = (s, Some e)"
    using quiet_run_ends [OF calm q q q, of "\<lambda>x. x" no_record None None] by blast
  have "(snd (ask_run [plain_round, plain_round, plain_round]),
      length (lp_requests (fst (ask_run [plain_round, plain_round, plain_round])))) = (Some None, 1)"
    by code_simp
  then have "e = None \<and> length (lp_requests s) = 1"
    unfolding run [of "[]"] by (simp only: fst_conv snd_conv prod.inject option.inject)
  then show ?thesis using run by (intro exI [of _ s] allI conjI) simp_all
qed

section \<open>What the end of a turn loses\<close>

definition late_message :: Message where
  "late_message = NewUserMessage 2 ''wait''"

definition late_round :: turn_env where
  "late_round = plain_round\<lparr>tn_steer_late := [late_message]\<rparr>"


text \<open>
  Progress and terminal events carry the usage of the run, except the error of a batch that fails as
  a whole: it is reported without, although the run has used tokens.
\<close>

lemma batch_failure_without_usage:
  assumes "executeActions sum8 (tn_now env) (tn_tools env) actions True (lp_agent s) = (a, Inl e)" "\<not> isZeroUsage (lp_runUsage s)"
  shows "ev_Usage (last (lp_out (fst (execute_calls sum8 rec env actions s)))) = None"
    and "ev_Usage (last (lp_out (fst (fail err s)))) = Some (Normalized (lp_runUsage s))"
  using assms by (simp_all add: execute_calls_def emit_def fail_def emit_usage_def withUsage_def)

end
