(* ===== verification/Provider_Retry.thy ===== *)
theory Provider_Retry
  imports Json Turn_Stream
begin

text \<open>
  Retrying a model request (\<open>core/providers/retry.go\<close>): a request is repeated at most twice, only
  after an error that looks transient and only before any output was passed on.

  An error is what the code asks of it: its text, the sentinels it wraps, and the code it carries.
  The environment of an attempt holds the state of the caller's context at the points where it is
  looked at, the answer of the provider, the response headers that matter, and the random part of the
  delay.  Durations are nanoseconds.

  Shown: output of different attempts is never mixed and nothing is passed on after an error; at most
  three requests are made, each after a bounded wait; every retry that is announced is resolved.
\<close>

section \<open>Errors\<close>

record provider_error =
  pe_text :: string
  pe_canceled :: bool
  pe_contextLength :: bool
  pe_tooLarge :: bool
  pe_timeout :: bool
  pe_eof :: bool
  pe_connection :: bool
  pe_retryCode :: "string option"

record retryAttempt =
  ra_status :: int
  ra_shouldRetry :: string
  ra_retryAfter :: string

definition transientStatus :: "int \<Rightarrow> bool" where
  "transientStatus status \<longleftrightarrow> status = 408 \<or> status = 409 \<or> status = 429 \<or> 500 \<le> status \<and> status \<le> 599"

definition transientCode :: "string \<Rightarrow> bool" where
  "transientCode code \<longleftrightarrow>
     code \<in> set [''server_error'', ''internal_error'', ''api_error'', ''overloaded_error'', ''rate_limit_error'', ''rate_limit_exceeded'']"

text \<open>The fields of a stream error: the raw code, absent or as last given, and the type.\<close>

fun last_field :: "string \<Rightarrow> (string \<times> json) list \<Rightarrow> json option \<Rightarrow> json option" where
  "last_field name [] cur = cur"
| "last_field name ((k, v) # ps) cur = last_field name ps (if fold_key k = fold_key name then Some v else cur)"

definition decode_stream_error :: "(string \<times> json) list \<Rightarrow> json option \<times> string \<Rightarrow> (json option \<times> string) option" where
  "decode_stream_error ps cur =
     map_option (Pair (last_field ''code'' ps (fst cur))) (store_string_field ''type'' ps (snd cur))"

fun decode_error_ptr :: "(string \<times> json) list \<Rightarrow> (json option \<times> string) option \<Rightarrow> (json option \<times> string) option option" where
  "decode_error_ptr [] cur = Some cur"
| "decode_error_ptr ((k, v) # ps) cur =
     (if fold_key k = ''error'' then
        (case v of
           JObj qs \<Rightarrow>
             (case decode_stream_error qs (case cur of None \<Rightarrow> (None, '''') | Some d \<Rightarrow> d) of
                None \<Rightarrow> None | Some d \<Rightarrow> decode_error_ptr ps (Some d))
         | JNull \<Rightarrow> decode_error_ptr ps None
         | _ \<Rightarrow> None)
      else decode_error_ptr ps cur)"

definition error_detail :: "string \<Rightarrow> (json option \<times> string) option" where
  "error_detail body =
     (case unmarshal_object body of
        None \<Rightarrow> None
      | Some ps \<Rightarrow>
          (case (decode_error_ptr ps None, decode_stream_error ps (None, '''')) of
             (Some ptr, Some embedded) \<Rightarrow> Some (case ptr of None \<Rightarrow> embedded | Some d \<Rightarrow> d)
           | _ \<Rightarrow> None))"

definition detail_status :: "json option \<Rightarrow> int" where
  "detail_status code = (case code of Some (JNum w) \<Rightarrow> (case parse_int64 w of Some n \<Rightarrow> n | None \<Rightarrow> 0) | _ \<Rightarrow> 0)"

definition detail_code :: "json option \<Rightarrow> string" where
  "detail_code code = (case code of Some (JStr s) \<Rightarrow> s | _ \<Rightarrow> '''')"

definition transientError :: "provider_error \<Rightarrow> retryAttempt \<Rightarrow> bool" where
  "transientError err state =
     (if pe_canceled err \<or> pe_contextLength err \<or> pe_tooLarge err then False
      else if ra_shouldRetry state = ''false'' then False
      else if ra_status state \<ge> 400 then transientStatus (ra_status state)
      else if pe_timeout err \<or> pe_eof err \<or> pe_connection err then True
      else
        (let coded = (case pe_retryCode err of None \<Rightarrow> False | Some c \<Rightarrow> transientCode c);
             body = dropWhile (\<lambda>c. c \<noteq> CHR ''{'') (pe_text err)
         in if body = '''' then coded
            else case error_detail body of
                   None \<Rightarrow> coded
                 | Some (code, typ) \<Rightarrow>
                     transientStatus (detail_status code) \<or> transientCode (detail_code code) \<or> transientCode typ))"

section \<open>Delays\<close>

abbreviation (input) second :: int where "second \<equiv> 1000000000"
abbreviation (input) minute :: int where "minute \<equiv> 60000000000"

text \<open>
  The header as \<open>strconv.ParseInt\<close> with 32 bits reads it; an HTTP date is given by the time until then.
\<close>

definition header_seconds :: "string \<Rightarrow> int option" where
  "header_seconds h =
     (let neg = prefix ''-'' h; ds = (if neg \<or> prefix ''+'' h then tl h else h); v = (if neg then - dec_val ds else dec_val ds)
      in if digits1 ds \<and> - (2 ^ 31) \<le> v \<and> v < 2 ^ 31 then Some v else None)"

definition retryDelay :: "(string \<Rightarrow> int option) \<Rightarrow> int \<Rightarrow> string \<Rightarrow> nat \<Rightarrow> int" where
  "retryDelay untilDate random header attempt =
     (let delay = second * 2 ^ attempt + random
      in case header_seconds header of
           Some seconds \<Rightarrow>
             if seconds > 0 then max delay (seconds * second)
             else (case untilDate header of Some d \<Rightarrow> max delay d | None \<Rightarrow> delay)
         | None \<Rightarrow> (case untilDate header of Some d \<Rightarrow> max delay d | None \<Rightarrow> delay))"

section \<open>Attempts\<close>

text \<open>An item of a stream is an event, with the error it carries if it is an error event.\<close>

type_synonym stream_item = "Event \<times> provider_error option"

record attempt_env =
  at_ctxBefore :: "provider_error option"
  at_stream :: "provider_error + stream_item list"
  at_ctxAfter :: "provider_error option"
  at_state :: retryAttempt
  at_untilDate :: "string \<Rightarrow> int option"
  at_random :: int
  at_ctxWaiting :: "provider_error option"

text \<open>What goes out: events of the provider, reports of the retries, and errors.\<close>

datatype retry_out = Forward Event | Report string nat int | Terminal "Event option" provider_error

text \<open>The events before the first error of a stream, and that error.\<close>

fun split_stream :: "stream_item list \<Rightarrow> Event list \<times> (Event \<times> provider_error) option" where
  "split_stream [] = ([], None)"
| "split_stream ((e, None) # items) = (case split_stream items of (es, err) \<Rightarrow> (e # es, err))"
| "split_stream ((e, Some err) # items) = ([], Some (e, err))"

definition fail_report :: "nat \<Rightarrow> bool \<Rightarrow> bool \<Rightarrow> retry_out list" where
  "fail_report retryCount recovered canceled =
     (if retryCount = 0 \<or> recovered then []
      else [Report (if canceled then ''canceled'' else ''failed'') retryCount 0])"

text \<open>
  What an attempt gives: the events passed on, and how it failed, with the error event if the stream
  ended with one.
\<close>

definition attempt_result :: "attempt_env \<Rightarrow> Event list \<times> (Event option \<times> provider_error) option" where
  "attempt_result env =
     (case at_stream env of
        Inl e \<Rightarrow> ([], Some (None, e))
      | Inr items \<Rightarrow> (case split_stream items of
          (es, None) \<Rightarrow> (es, None) | (es, Some (evt, e)) \<Rightarrow> (es, Some (Some evt, e))))"

text \<open>
  The loop from a given attempt, with the number of retries so far; it also returns the number of
  requests made.  Three environments are always enough.
\<close>

fun retry_loop :: "attempt_env list \<Rightarrow> nat \<Rightarrow> nat \<Rightarrow> retry_out list \<times> nat" where
  "retry_loop [] attempt retryCount = ([], 0)"
| "retry_loop (env # envs) attempt retryCount =
     (case at_ctxBefore env of
        Some e \<Rightarrow> (fail_report retryCount False True @ [Terminal None e], 0)
      | None \<Rightarrow>
          (let (events, err) = attempt_result env;
               recovered = (retryCount > 0 \<and> events \<noteq> []);
               out = (if recovered then [Report ''recovered'' retryCount 0] else []) @ map Forward events
           in case err of
                None \<Rightarrow> (out @ (if retryCount > 0 \<and> \<not> recovered then [Report ''recovered'' retryCount 0] else []), 1)
              | Some (terminal, e) \<Rightarrow>
                  (let canceled = (at_ctxAfter env \<noteq> None);
                       usage = (case terminal of None \<Rightarrow> None | Some evt \<Rightarrow> ev_Usage evt)
                   in if events \<noteq> [] \<or> usage \<noteq> None \<or> attempt \<ge> 2 \<or> canceled \<or> \<not> transientError e (at_state env)
                      then (out @ fail_report retryCount recovered canceled @ [Terminal terminal e], 1)
                      else
                        (let delay = retryDelay (at_untilDate env) (at_random env) (ra_retryAfter (at_state env)) attempt
                         in if delay > minute
                            then (out @ fail_report retryCount recovered False @ [Terminal None e], 1)
                            else
                              (let waiting = out @ [Report ''waiting'' (Suc attempt) (delay div 1000000)]
                               in case at_ctxWaiting env of
                                    Some ce \<Rightarrow> (waiting @ fail_report (Suc attempt) recovered True @ [Terminal None ce], 1)
                                  | None \<Rightarrow>
                                      (case retry_loop envs (Suc attempt) (Suc attempt) of
                                         (rest, n) \<Rightarrow> (waiting @ [Report ''retrying'' (Suc attempt) 0] @ rest, Suc n)))))))"

definition StreamChat :: "attempt_env list \<Rightarrow> retry_out list \<times> nat" where
  "StreamChat envs = retry_loop envs 0 0"

section \<open>What a request may do\<close>

definition forwarded :: "retry_out list \<Rightarrow> Event list" where
  "forwarded out = List.map_filter (\<lambda>x. case x of Forward e \<Rightarrow> Some e | _ \<Rightarrow> None) out"

definition is_terminal :: "retry_out \<Rightarrow> bool" where
  "is_terminal x \<longleftrightarrow> (case x of Terminal _ _ \<Rightarrow> True | _ \<Rightarrow> False)"

definition attempt_events :: "attempt_env \<Rightarrow> Event list" where
  "attempt_events env = fst (attempt_result env)"

fun reports :: "retry_out list \<Rightarrow> string list" where
  "reports [] = []"
| "reports (Report status k d # out) = status # reports out"
| "reports (Forward e # out) = reports out"
| "reports (Terminal te e # out) = reports out"

definition settled :: "retry_out list \<Rightarrow> bool" where
  "settled out \<longleftrightarrow> (case reports out of [] \<Rightarrow> True | ss \<Rightarrow> last ss \<in> set [''recovered'', ''failed'', ''canceled''])"

lemma reports_append [simp]: "reports (xs @ ys) = reports xs @ reports ys"
  by (induction xs rule: reports.induct) simp_all

lemma reports_Forward [simp]: "reports (map Forward es) = []"
  by (induction es) simp_all

lemma reports_fail [simp]:
  "reports (fail_report k b c) = (if k = 0 \<or> b then [] else [if c then ''canceled'' else ''failed''])"
  by (simp add: fail_report_def)

lemma settled_reports: "settled out \<longleftrightarrow> reports out = [] \<or> last (reports out) \<in> set [''recovered'', ''failed'', ''canceled'']"
  by (simp add: settled_def split: list.split)

lemma forwarded_simps [simp]:
  "forwarded (xs @ ys) = forwarded xs @ forwarded ys" "forwarded [] = []" "forwarded (Forward e # xs) = e # forwarded xs"
  "forwarded (Report r n d # xs) = forwarded xs" "forwarded (Terminal te pe # xs) = forwarded xs"
  "forwarded (map Forward es) = es" "forwarded (fail_report n b c) = []"
  by (auto simp: forwarded_def List.map_filter_def fail_report_def comp_def)

lemma terminal_simps [simp]:
  "\<not> is_terminal (Forward e)" "\<not> is_terminal (Report r n d)" "is_terminal (Terminal te pe)"
  "x \<in> set (fail_report n b c) \<Longrightarrow> \<not> is_terminal x"
  by (auto simp: is_terminal_def fail_report_def split: if_splits)

text \<open>One attempt: what goes out in it, and whether the loop goes on after a wait.\<close>

lemma retry_loop_cases:
  assumes "retry_loop (env # envs) attempt retryCount = (out, n)"
  obtains (final) body where "n \<le> 1" "settled body" "retryCount > 0 \<Longrightarrow> reports body \<noteq> []"
      "out = body \<or> (\<exists>t e. out = body @ [Terminal t e])" "list_all (\<lambda>x. \<not> is_terminal x) body"
      "forwarded body = [] \<or> forwarded body = attempt_events env" "\<And>k d. Report ''waiting'' k d \<in> set body \<Longrightarrow>
         attempt < 2 \<and> k = Suc attempt \<and> d = retryDelay (at_untilDate env) (at_random env) (ra_retryAfter (at_state env)) attempt div 1000000 \<and>
         retryDelay (at_untilDate env) (at_random env) (ra_retryAfter (at_state env)) attempt \<le> minute"
  | (again) rest m where "attempt < 2" "retry_loop envs (Suc attempt) (Suc attempt) = (rest, m)" "n = Suc m"
      "out = Report ''waiting'' (Suc attempt)
         (retryDelay (at_untilDate env) (at_random env) (ra_retryAfter (at_state env)) attempt div 1000000) #
         Report ''retrying'' (Suc attempt) 0 # rest"
      "retryDelay (at_untilDate env) (at_random env) (ra_retryAfter (at_state env)) attempt \<le> minute"
proof -
  define delay where "delay = retryDelay (at_untilDate env) (at_random env) (ra_retryAfter (at_state env)) attempt"
  define events where "events = attempt_events env"
  define recovered where "recovered = (retryCount > 0 \<and> events \<noteq> [])"
  define pre where "pre = (if recovered then [Report ''recovered'' retryCount 0] else []) @ map Forward events"
  have pre: "list_all (\<lambda>x. \<not> is_terminal x) pre" "forwarded pre = events" "\<And>k d. Report ''waiting'' k d \<notin> set pre"
    by (auto simp: pre_def list_all_iff)
  have reports_pre: "reports pre = (if recovered then [''recovered''] else [])" by (simp add: pre_def)
  have quiet: "list_all (\<lambda>x. \<not> is_terminal x) (fail_report k b c)" "\<And>k' d. Report ''waiting'' k' d \<notin> set (fail_report k b c)" for k b c
    by (auto simp: list_all_iff fail_report_def)
  show thesis
  proof (cases "at_ctxBefore env")
    case (Some e)
    then show thesis using assms quiet by (intro final [of "fail_report retryCount False True"]) (auto simp: settled_reports)
  next
    case before: None
    obtain err where split: "attempt_result env = (events, err)"
      by (metis attempt_events_def events_def prod.collapse)
    show thesis
    proof (cases err)
      case None
      define tail where "tail = (if retryCount > 0 \<and> \<not> recovered then [Report ''recovered'' retryCount 0] else [])"
      have "(out, n) = (pre @ tail, 1)"
        using before split None unfolding assms [symmetric] recovered_def pre_def tail_def by (simp add: Let_def)
      moreover have "reports tail = (if retryCount > 0 \<and> \<not> recovered then [''recovered''] else [])" "forwarded tail = []"
          "list_all (\<lambda>x. \<not> is_terminal x) tail" "\<And>k d. Report ''waiting'' k d \<notin> set tail"
        by (simp_all add: tail_def)
      ultimately show thesis using pre by (intro final [of "pre @ tail"]) (auto simp: settled_reports reports_pre events_def)
    next
      case (Some te)
      obtain terminal e where te: "te = (terminal, e)" by fastforce
      define stop where "stop \<longleftrightarrow> events \<noteq> [] \<or> (case terminal of None \<Rightarrow> None | Some evt \<Rightarrow> ev_Usage evt) \<noteq> None \<or> attempt \<ge> 2 \<or>
          at_ctxAfter env \<noteq> None \<or> \<not> transientError e (at_state env)"
      have loop: "(out, n) =
          (if stop then (pre @ fail_report retryCount recovered (at_ctxAfter env \<noteq> None) @ [Terminal terminal e], 1)
           else if delay > minute then (pre @ fail_report retryCount recovered False @ [Terminal None e], 1)
           else (case at_ctxWaiting env of
                   Some ce \<Rightarrow> ((pre @ [Report ''waiting'' (Suc attempt) (delay div 1000000)]) @
                      fail_report (Suc attempt) recovered True @ [Terminal None ce], 1)
                 | None \<Rightarrow> (case retry_loop envs (Suc attempt) (Suc attempt) of
                     (rest, m) \<Rightarrow> ((pre @ [Report ''waiting'' (Suc attempt) (delay div 1000000)]) @ [Report ''retrying'' (Suc attempt) 0] @ rest, Suc m))))"
        using before split Some te
        unfolding assms [symmetric] recovered_def pre_def delay_def stop_def
        by (simp add: Let_def split: option.splits prod.splits cong: if_cong)
      consider (stop) "stop" | (long) "\<not> stop" "delay > minute" | (wait) ce where "\<not> stop" "delay \<le> minute" "at_ctxWaiting env = Some ce"
        | (again) "\<not> stop" "delay \<le> minute" "at_ctxWaiting env = None"
        by fastforce
      then show thesis
      proof cases
        case stop
        then show thesis using loop pre quiet
          by (intro final [of "pre @ fail_report retryCount recovered (at_ctxAfter env \<noteq> None)"]) (auto simp: events_def settled_reports reports_pre)
      next
        case long
        then show thesis using loop pre quiet
          by (intro final [of "pre @ fail_report retryCount recovered False"]) (auto simp: events_def settled_reports reports_pre)
      next
        case wait
        then have recovered_waiting: "\<not> recovered" "attempt < 2" by (simp_all add: stop_def recovered_def)
        from wait show thesis using loop pre quiet
          by (intro final [of "pre @ [Report ''waiting'' (Suc attempt) (delay div 1000000)] @ fail_report (Suc attempt) recovered True"])
            (auto simp: events_def delay_def settled_reports reports_pre recovered_waiting)
      next
        case go: again
        obtain rest m where rest: "retry_loop envs (Suc attempt) (Suc attempt) = (rest, m)" by fastforce
        have "events = []" "attempt < 2" using go(1) by (auto simp: stop_def)
        then have "pre = []" by (simp add: pre_def recovered_def)
        then show thesis using loop go rest \<open>attempt < 2\<close> by (intro again [OF _ rest]) (auto simp: delay_def)
      qed
    qed
  qed
qed

declare retry_loop.simps(2) [simp del]

lemma retry_loop_requests:
  assumes "retry_loop envs attempt retryCount = (out, n)"
  shows "n \<le> Suc (2 - attempt)"
  using assms
proof (induction envs arbitrary: attempt retryCount out n)
  case (Cons env envs)
  from Cons.prems show ?case
  proof (cases rule: retry_loop_cases)
    case (again rest m)
    then show ?thesis using Cons.IH [OF again(2)] by simp
  qed simp
qed simp

lemma retry_loop_output:
  assumes "retry_loop envs attempt retryCount = (out, n)"
  shows "forwarded out = [] \<or> (\<exists>env \<in> set envs. forwarded out = attempt_events env)"
    "list_all (\<lambda>x. \<not> is_terminal x) (butlast out)"
  using assms
proof (induction envs arbitrary: attempt retryCount out n)
  case (Cons env envs)
  { case 1
    from 1 show ?case
    proof (cases rule: retry_loop_cases)
      case (again rest m)
      then show ?thesis using Cons.IH(1) [OF again(2)] by auto
    qed auto
  next
    case 2
    from 2 show ?case
    proof (cases rule: retry_loop_cases)
      case (final body)
      then show ?thesis by (auto simp: list_all_iff butlast_append dest: in_set_butlastD)
    next
      case (again rest m)
      then show ?thesis using Cons.IH(2) [OF again(2)] by simp
    qed }
qed simp_all

lemma retry_loop_settled:
  assumes "retry_loop envs attempt retryCount = (out, n)" "3 \<le> attempt + length envs"
  shows "settled out" "retryCount > 0 \<Longrightarrow> envs \<noteq> [] \<Longrightarrow> reports out \<noteq> []"
  using assms
proof (induction envs arbitrary: attempt retryCount out n)
  case (Cons env envs)
  { case 1
    from 1(1) show ?case
    proof (cases rule: retry_loop_cases)
      case (final body)
      then show ?thesis by (auto simp: settled_reports)
    next
      case (again rest m)
      then have "envs \<noteq> []" using 1 by auto
      then show ?thesis using again Cons.IH(1) [OF again(2)] Cons.IH(2) [OF _ _ again(2)] 1(2) by (auto simp: settled_reports)
    qed
  next
    case 2
    from 2(3) show ?case
      by (cases rule: retry_loop_cases) (use 2 in auto)
  }
qed (auto simp: settled_reports)

lemma retry_loop_waits:
  assumes "retry_loop envs attempt retryCount = (out, n)" "Report ''waiting'' k d \<in> set out" "list_all (\<lambda>env. 0 \<le> at_random env) envs"
  shows "attempt < k \<and> k \<le> 2 \<and> 1000 * 2 ^ (k - 1) \<le> d \<and> d \<le> 60000"
  using assms
proof (induction envs arbitrary: attempt retryCount out n)
  case (Cons env envs)
  define delay where "delay = retryDelay (at_untilDate env) (at_random env) (ra_retryAfter (at_state env)) attempt"
  have "second * 2 ^ attempt \<le> delay" if "0 \<le> at_random env"
    using that by (auto simp: delay_def retryDelay_def Let_def split: option.splits)
  then have bound: "1000 * 2 ^ attempt \<le> delay div 1000000 \<and> delay div 1000000 \<le> 60000" if "0 \<le> at_random env" "delay \<le> minute"
    using that zdiv_mono1 [of "1000000 * (1000 * 2 ^ attempt)" delay 1000000] zdiv_mono1 [of delay minute 1000000] by simp
  note waiting = Cons.prems(2) and random = Cons.prems(3)
  from Cons.prems(1) show ?case
  proof (cases rule: retry_loop_cases)
    case (final body)
    then have "Report ''waiting'' k d \<in> set body" using waiting by auto
    then show ?thesis using final(7) [of k d] bound random by (auto simp: delay_def)
  next
    case (again rest m)
    show ?thesis
    proof (cases "Report ''waiting'' k d \<in> set rest")
      case True
      then show ?thesis using Cons.IH [OF again(2)] random again(1) by simp
    next
      case False
      then have "k = Suc attempt" "d = delay div 1000000" using waiting again(4) by (auto simp: delay_def)
      then show ?thesis using bound random again(1,5) by (simp add: delay_def)
    qed
  qed
qed simp_all

lemma retry_loop_three: "3 \<le> attempt + length envs \<Longrightarrow> retry_loop (envs @ more_envs) attempt retryCount = retry_loop envs attempt retryCount \<or> envs = []"
proof (induction envs arbitrary: attempt retryCount)
  case (Cons env envs)
  show ?case
  proof (cases "attempt < 2")
    case True
    then have "envs \<noteq> []" using Cons.prems by auto
    then have later: "retry_loop (envs @ more_envs) (Suc attempt) r = retry_loop envs (Suc attempt) r" for r
      using Cons.IH [of "Suc attempt" r] Cons.prems by simp
    show ?thesis unfolding append_Cons retry_loop.simps(2) later by simp
  next
    case False
    then show ?thesis by (auto simp: retry_loop.simps(2) Let_def split: option.split prod.split)
  qed
qed simp

section \<open>A request that succeeds at the second attempt\<close>

definition reset_error :: provider_error where
  "reset_error = \<lparr>pe_text = ''read tcp: connection reset by peer'', pe_canceled = False, pe_contextLength = False, pe_tooLarge = False,
     pe_timeout = False, pe_eof = False, pe_connection = True, pe_retryCode = None\<rparr>"

definition reset_attempt :: attempt_env where
  "reset_attempt = \<lparr>at_ctxBefore = None, at_stream = Inl reset_error, at_ctxAfter = None,
     at_state = \<lparr>ra_status = 0, ra_shouldRetry = '''', ra_retryAfter = ''7''\<rparr>, at_untilDate = (\<lambda>_. None), at_random = 1,
     at_ctxWaiting = None\<rparr>"

definition served_attempt :: attempt_env where
  "served_attempt = reset_attempt\<lparr>at_stream := Inr [(NewFinishEvent FinishReasonStop, None)]\<rparr>"

lemmas sample_attempts = reset_error_def reset_attempt_def served_attempt_def

lemma served_after_reset:
  "StreamChat [reset_attempt, served_attempt, served_attempt] =
     ([Report ''waiting'' 1 7000, Report ''retrying'' 1 0, Report ''recovered'' 1 0, Forward (NewFinishEvent FinishReasonStop)], 2)"
  by (simp add: StreamChat_def retry_loop.simps(2) sample_attempts attempt_result_def transientError_def retryDelay_def
      header_seconds_def dec_val_def digits1_def is_digit_def byte_def Let_def)

section \<open>The promises of a request\<close>

text \<open>
  C15. A request is sent to the provider at most three times; whatever is passed on to the caller as
  model output comes from one attempt only, never from two, and is exactly what that attempt gave before
  it failed or ended; and nothing at all goes out after the error that ends it.
\<close>

theorem retry_no_replay:
  "snd (StreamChat envs) \<le> 3 \<and>
   (forwarded (fst (StreamChat envs)) = [] \<or> (\<exists>env \<in> set envs. forwarded (fst (StreamChat envs)) = attempt_events env)) \<and>
   list_all (\<lambda>x. \<not> is_terminal x) (butlast (fst (StreamChat envs)))"
proof -
  have "retry_loop envs 0 0 = (fst (StreamChat envs), snd (StreamChat envs))" by (simp add: StreamChat_def)
  from retry_loop_requests [OF this] retry_loop_output [OF this] show ?thesis by simp
qed

text \<open>
  C25. Waits are bounded and grow: a wait that is announced is the first or the second, lasts at least
  one or two seconds, and never longer than a minute, whatever the server asked for.
\<close>

theorem retry_waits_bounded:
  assumes "Report ''waiting'' k d \<in> set (fst (StreamChat envs))" "list_all (\<lambda>env. 0 \<le> at_random env) envs"
  shows "1 \<le> k \<and> k \<le> 2 \<and> 1000 * 2 ^ (k - 1) \<le> d \<and> d \<le> 60000"
proof -
  have "retry_loop envs 0 0 = (fst (StreamChat envs), snd (StreamChat envs))" by (simp add: StreamChat_def)
  from retry_loop_waits [OF this assms] show ?thesis by simp
qed

theorem retry_waits_bounded_witness:
  "(1::nat) \<le> 1 \<and> (1::nat) \<le> 2 \<and> 1000 * 2 ^ (1 - 1) \<le> (7000::int) \<and> (7000::int) \<le> 60000"
  by (rule retry_waits_bounded [of 1 7000 "[reset_attempt, served_attempt, served_attempt]"])
    (simp_all add: served_after_reset, simp_all add: sample_attempts)

text \<open>
  C26. A retry that is announced is settled: the last report is that the request recovered, failed or
  was canceled, so no client is left showing a pending retry; and three attempts settle a request, what
  would happen in later ones plays no part.
\<close>

theorem retry_settled:
  assumes "3 \<le> length envs"
  shows "settled (fst (StreamChat envs)) \<and> StreamChat (envs @ later) = StreamChat envs"
proof -
  have "retry_loop envs 0 0 = (fst (StreamChat envs), snd (StreamChat envs))" by (simp add: StreamChat_def)
  from retry_loop_settled(1) [OF this] show ?thesis
    using assms retry_loop_three [of 0 envs later 0] by (auto simp: StreamChat_def)
qed

theorem retry_settled_witness:
  "settled (fst (StreamChat [reset_attempt, served_attempt, served_attempt])) \<and>
   StreamChat ([reset_attempt, served_attempt, served_attempt] @ [reset_attempt]) = StreamChat [reset_attempt, served_attempt, served_attempt]"
  by (rule retry_settled) simp

end
