(* ===== verification/Regexp.thy ===== *)
theory Regexp
  imports Json
begin

text \<open>
  Package \<open>regexp\<close> as far as the shell policy uses it: patterns of literals, escapes, classes, groups,
  alternatives, the repetitions star, plus and question mark, the dot and the end anchor, compiled
  case-insensitively and searched for anywhere in a text.

  Matching is on bytes.  A literal or class member stands for both its cases and, as under Unicode
  folding, \<open>k\<close> also for the Kelvin sign and \<open>s\<close> also for the long s.  The dot stands for any byte but
  a newline: whether a text matches is the same as for runes, since what follows a dot in a pattern
  starts with an ASCII byte or with the encoding of a whole rune.

  The matcher is proved to find exactly the matches of the denotational reading of a pattern.
\<close>

section \<open>Patterns\<close>

datatype regex =
    REps | RSet string | RNot string | RSeq regex regex | RAlt regex regex | RStar regex | REnd

text \<open>The rests of a text after a match of the pattern at its start.\<close>

fun star_ends :: "(string \<Rightarrow> string list) \<Rightarrow> nat \<Rightarrow> string \<Rightarrow> string list" where
  "star_ends f 0 s = [s]"
| "star_ends f (Suc n) s = s # concat (map (\<lambda>t. if length t < length s then star_ends f n t else []) (f s))"

primrec ends :: "regex \<Rightarrow> string \<Rightarrow> string list" where
  "ends REps s = [s]"
| "ends (RSet cs) s = (case s of c # t \<Rightarrow> if c \<in> set cs then [t] else [] | [] \<Rightarrow> [])"
| "ends (RNot cs) s = (case s of c # t \<Rightarrow> if c \<notin> set cs then [t] else [] | [] \<Rightarrow> [])"
| "ends (RSeq p q) s = concat (map (ends q) (ends p s))"
| "ends (RAlt p q) s = ends p s @ ends q s"
| "ends (RStar p) s = star_ends (ends p) (length s) s"
| "ends REnd s = (if s = [] then [s] else [])"

fun MatchString :: "regex \<Rightarrow> string \<Rightarrow> bool" where
  "MatchString r [] \<longleftrightarrow> ends r [] \<noteq> []"
| "MatchString r (c # s) \<longleftrightarrow> ends r (c # s) \<noteq> [] \<or> MatchString r s"

section \<open>Compiling\<close>

definition fold_case :: "char \<Rightarrow> string" where
  "fold_case c =
     (if 0x61 \<le> byte c \<and> byte c \<le> 0x7A then [c, char_of (byte c - 32)]
      else if 0x41 \<le> byte c \<and> byte c \<le> 0x5A then [c, char_of (byte c + 32)] else [c])"

text \<open>A set of bytes under folding: the two letters that fold to runes outside ASCII add them.\<close>

definition folded :: "string \<Rightarrow> regex" where
  "folded cs =
     (let all = concat (map fold_case cs);
          withK = (if CHR ''k'' \<in> set all then RAlt (RSet all) (RSeq (RSet [CHR 0xE2]) (RSeq (RSet [CHR 0x84]) (RSet [CHR 0xAA])))
                   else RSet all)
      in if CHR ''s'' \<in> set all then RAlt withK (RSeq (RSet [CHR 0xC5]) (RSet [CHR 0xBF])) else withK)"

definition space_class :: string where
  "space_class = [CHR 0x09, CHR 0x0A, CHR 0x0C, CHR 0x0D, CHR 0x20]"

fun class_items :: "string \<Rightarrow> (string \<times> string) option" where
  "class_items (a # b # c # s) =
     (if a = CHR '']'' then Some ([], b # c # s)
      else if b = CHR ''-'' \<and> c \<noteq> CHR '']'' then
        map_option (\<lambda>(cs, r). (map char_of [byte a .. byte c] @ cs, r)) (class_items s)
      else map_option (\<lambda>(cs, r). (a # cs, r)) (class_items (b # c # s)))"
| "class_items (a # s) =
     (if a = CHR '']'' then Some ([], s) else map_option (\<lambda>(cs, r). (a # cs, r)) (class_items s))"
| "class_items [] = None"

text \<open>Recursive descent with fuel; every call consumes a character or returns.\<close>

fun parse_alt :: "nat \<Rightarrow> string \<Rightarrow> (regex \<times> string) option"
  and parse_seq :: "nat \<Rightarrow> string \<Rightarrow> (regex \<times> string) option"
  and parse_atom :: "nat \<Rightarrow> string \<Rightarrow> (regex \<times> string) option"
where
  "parse_alt 0 s = None"
| "parse_alt (Suc n) s =
     (case parse_seq n s of
        Some (p, c # t) \<Rightarrow>
          if c = CHR ''|'' then map_option (\<lambda>(q, u). (RAlt p q, u)) (parse_alt n t) else Some (p, c # t)
      | r \<Rightarrow> r)"
| "parse_seq 0 s = None"
| "parse_seq (Suc n) s =
     (case s of
        [] \<Rightarrow> Some (REps, [])
      | c # t \<Rightarrow>
          if c = CHR ''|'' \<or> c = CHR '')'' then Some (REps, s)
          else case parse_atom n s of
                 None \<Rightarrow> None
               | Some (p, u) \<Rightarrow>
                   (let (p', v) = (case u of
                        d # w \<Rightarrow> if d = CHR ''*'' then (RStar p, w) else if d = CHR ''+'' then (RSeq p (RStar p), w)
                                 else if d = CHR ''?'' then (RAlt p REps, w) else (p, u)
                      | [] \<Rightarrow> (p, u))
                    in map_option (\<lambda>(q, x). (RSeq p' q, x)) (parse_seq n v)))"
| "parse_atom 0 s = None"
| "parse_atom (Suc n) s =
     (case s of
        [] \<Rightarrow> None
      | c # t \<Rightarrow>
          if c = CHR ''('' then
            (case parse_alt n t of Some (p, d # u) \<Rightarrow> if d = CHR '')'' then Some (p, u) else None | _ \<Rightarrow> None)
          else if c = CHR ''['' then map_option (\<lambda>(cs, u). (folded cs, u)) (class_items t)
          else if c = CHR ''.'' then Some (RNot [CHR 0x0A], t)
          else if c = CHR ''$'' then Some (REnd, t)
          else if c = CHR 0x5C then
            (case t of
               d # u \<Rightarrow> Some (if d = CHR ''s'' then RSet space_class else folded [d], u)
             | [] \<Rightarrow> None)
          else if c = CHR ''*'' \<or> c = CHR ''+'' \<or> c = CHR ''?'' then None
          else Some (folded [c], t))"

text \<open>\<open>regexp.Compile("(?i)" + pattern)\<close> on the subset.\<close>

definition compile_folded :: "string \<Rightarrow> regex option" where
  "compile_folded pattern =
     (case parse_alt (2 * length pattern + 3) pattern of Some (p, []) \<Rightarrow> Some p | _ \<Rightarrow> None)"

section \<open>What a pattern means\<close>

inductive consumes :: "regex \<Rightarrow> string \<Rightarrow> string \<Rightarrow> bool" where
  eps: "consumes REps s s"
| set: "c \<in> set cs \<Longrightarrow> consumes (RSet cs) (c # s) s"
| other: "c \<notin> set cs \<Longrightarrow> consumes (RNot cs) (c # s) s"
| seq: "consumes p s t \<Longrightarrow> consumes q t u \<Longrightarrow> consumes (RSeq p q) s u"
| alt1: "consumes p s t \<Longrightarrow> consumes (RAlt p q) s t"
| alt2: "consumes q s t \<Longrightarrow> consumes (RAlt p q) s t"
| star_nil: "consumes (RStar p) s s"
| star: "consumes p s t \<Longrightarrow> consumes (RStar p) t u \<Longrightarrow> consumes (RStar p) s u"
| eot: "consumes REnd [] []"

inductive_cases consumes_cases [elim!]:
  "consumes REps s t" "consumes (RSet cs) s t" "consumes (RNot cs) s t" "consumes (RSeq p q) s t"
  "consumes (RAlt p q) s t" "consumes REnd s t"

lemma consumes_suffix: "consumes r s t \<Longrightarrow> suffix t s"
  by (induction rule: consumes.induct) (auto intro: suffix_order.trans suffix_ConsI)

lemma consumes_length: "consumes r s t \<Longrightarrow> length t \<le> length s"
  by (blast dest: consumes_suffix suffix_length_le)

text \<open>A repetition may skip empty rounds, so that its fuel is enough.\<close>

lemma star_ends_iff:
  assumes "\<And>s t. t \<in> set (ends p s) \<longleftrightarrow> consumes p s t"
  shows "length s \<le> n \<Longrightarrow> t \<in> set (star_ends (ends p) n s) \<longleftrightarrow> consumes (RStar p) s t"
proof (rule iffI)
  show "t \<in> set (star_ends (ends p) n s) \<Longrightarrow> consumes (RStar p) s t"
    by (induction n arbitrary: s)
      (auto simp: assms intro: consumes.star_nil consumes.star split: if_splits)
next
  assume "consumes (RStar p) s t" "length s \<le> n"
  then show "t \<in> set (star_ends (ends p) n s)"
  proof (induction "RStar p" s t arbitrary: n rule: consumes.induct)
    case (star_nil s)
    then show ?case by (cases n) simp_all
  next
    case (star s t u)
    show ?case
    proof (cases "length t < length s")
      case True
      then obtain m where m: "n = Suc m" "length t \<le> m" using star.prems by (cases n) auto
      have "t \<in> set (ends p s)" using star.hyps(1) assms by blast
      then show ?thesis using True star.hyps(4) [OF m(2)] m(1) by auto
    next
      case False
      moreover have "suffix t s" by (rule consumes_suffix [OF star.hyps(1)])
      ultimately have "t = s" by (auto simp: suffix_def)
      then show ?thesis using star by simp
    qed
  qed
qed

lemma ends_iff: "t \<in> set (ends r s) \<longleftrightarrow> consumes r s t"
proof (induction r arbitrary: s t)
  case (RStar p)
  then show ?case using star_ends_iff by simp
qed (auto intro: consumes.intros split: list.splits if_splits)

lemma MatchString_iff: "MatchString r s \<longleftrightarrow> (\<exists>a b t. s = a @ b \<and> consumes r b t)"
proof -
  have ne: "ends r s \<noteq> [] \<longleftrightarrow> (\<exists>t. consumes r s t)" for s
    using ends_iff [of _ r s] by (metis list.set_intros(1) neq_Nil_conv empty_iff list.set(1))
  show ?thesis
  proof (induction s)
    case (Cons c s)
    have "(\<exists>a b t. c # s = a @ b \<and> consumes r b t) \<longleftrightarrow> (\<exists>t. consumes r (c # s) t) \<or> (\<exists>a b t. s = a @ b \<and> consumes r b t)"
      by (auto simp: Cons_eq_append_conv)
    then show ?case using Cons ne by simp
  qed (use ne in auto)
qed

text \<open>A pattern without the end anchor matches whatever follows.\<close>

primrec anchored :: "regex \<Rightarrow> bool" where
  "anchored REps = False"
| "anchored (RSet cs) = False"
| "anchored (RNot cs) = False"
| "anchored (RSeq p q) = (anchored p \<or> anchored q)"
| "anchored (RAlt p q) = (anchored p \<or> anchored q)"
| "anchored (RStar p) = anchored p"
| "anchored REnd = True"

lemma consumes_context: "consumes r s t \<Longrightarrow> \<not> anchored r \<Longrightarrow> consumes r (s @ y) (t @ y)"
  by (induction rule: consumes.induct) (auto intro: consumes.intros)

lemma MatchString_context:
  assumes "MatchString r s" "\<not> anchored r"
  shows "MatchString r (x @ s @ y)"
proof -
  obtain a b t where "s = a @ b" "consumes r b t" using assms(1) unfolding MatchString_iff by blast
  then have "x @ s @ y = (x @ a) @ (b @ y)" "consumes r (b @ y) (t @ y)"
    using consumes_context assms(2) by simp_all
  then show ?thesis unfolding MatchString_iff by blast
qed

end
