(* ===== verification/Spec2Isabelle.thy ===== *)
theory Spec2Isabelle
  imports Prelude Json Protocol Conversation Paths Tool_Safety File_Tools Loop_Detector
    Agent_Types Agent_Decision Provider_Classifier Agent_Audit Agent_Actions Base64 Runtime_WAL
    Input_Queue Completion_Triggers Display_Log Tool_Recovery Session_Input Queue_Dispatch Utf8 Prompt_Projection Compressor
    Agent_Input Agent_Compaction Turn_Stream Runtime_Profile Agent_Loop Call_Answers Agent_Turns
    Turn_Permissions Turn_Endings Provider_Retry Regexp Shell_Tool
begin

text \<open>
  Verification of zotigo, a coding agent that runs in a terminal or behind a daemon.

  \<^bold>\<open>The program.\<close>  An agent (\<open>core/agent\<close>) keeps a conversation with a model, runs the tool calls
  the model asks for, and asks a human where a call is not allowed on its own.  A conversation that
  outgrows the window of the model is compacted (\<open>core/services\<close>).  A daemon (\<open>internal/zotigod\<close>)
  hosts agents in worker processes: it queues the input of clients (\<open>core/workspace\<close>), hands it to a
  worker, and shows clients a display log (\<open>core/session\<close>).  A worker journals every change of a
  conversation in a write-ahead log before memory changes, so that a crashed turn can be recovered.

  \<^bold>\<open>Conventions.\<close>  Go strings are byte strings, \<open>int\<close> counters that may wrap are 64-bit words and the
  others mathematical integers, an instant is the number of nanoseconds since Go's zero time, structs
  are records and open string enumerations are datatypes with a constructor for any other string.
  Deep copies are identities.  Errors are values of a sum or an option.  What the code cannot decide
  is an argument: the clock, the answers of the operating system, the provider, the database and the
  host, random bytes, map iteration orders, and the moments at which other goroutines act.  Where a
  mutex makes an operation atomic it is one definition; where other goroutines may act between two
  critical sections, the environment says what they did.

  \<^bold>\<open>Theories.\<close>  Each section below lists a theory, the sources it models, and what is shown.

  \<^item> \<open>Prelude\<close>, \<open>Json\<close>, \<open>Utf8\<close>, \<open>Base64\<close>, \<open>Paths\<close>: the functions of \<open>strings\<close>, \<open>encoding/json\<close>,
    \<open>unicode/utf8\<close>, \<open>encoding/base64\<close> and \<open>path/filepath\<close> the sources call, with the collections and
    generic lemmas the components share.  \<open>Base64\<close> and \<open>Utf8\<close> show the round trip of the encoding
    and where valid text may be cut.
  \<^item> \<open>Protocol\<close> (\<open>core/protocol\<close>): messages, parts, tool calls and results, usage accounting.
  \<^item> \<open>Conversation\<close> (\<open>core/agent/conversation_state.go\<close>): a history with a recorder that must
    accept a change before memory does.  The locale \<open>durable_recorder\<close> is the contract of a recorder;
    \<open>Runtime_WAL\<close> interprets it on the log of the worker.
  \<^item> \<open>Tool_Safety\<close>, \<open>File_Tools\<close> (\<open>core/tools\<close>, \<open>core/executor/local.go\<close>): the path scopes that
    rate a call and the file tools themselves.  A call rated as confined changes, or reads, nothing
    outside the directories it is confined to; argument objects that evade the rating are exhibited.
  \<^item> \<open>Loop_Detector\<close> (\<open>core/services/loop_detector.go\<close>): the window reports exactly the runs of
    equal calls of the whole history.
  \<^item> \<open>Agent_Types\<close>, \<open>Agent_Decision\<close>, \<open>Provider_Classifier\<close> (\<open>core/agent\<close>): which calls run without
    a human, as an exact table; the classifier asked about the others, its prompt, its parser and its
    retries.
  \<^item> \<open>Agent_Audit\<close>, \<open>Agent_Actions\<close>: turn audits, the snapshot before a batch, and the execution,
    interruption, approval and denial of batches of calls: every call is answered once and in order,
    only permitted calls are started, and a batch whose results cannot be recorded is never repeated.
  \<^item> \<open>Agent_Input\<close>: starting a turn, steering a running one, saving and restoring an agent.
  \<^item> \<open>Turn_Stream\<close>, \<open>Provider_Retry\<close> (\<open>core/protocol/event.go\<close>, \<open>core/agent/agent.go\<close>,
    \<open>core/providers/retry.go\<close>): events, the assistant message assembled from a streamed answer, and the
    repetition of failed requests: the message holds the deltas in order, output of two attempts is
    never mixed, and an announced retry is settled within three requests.
  \<^item> \<open>Runtime_Profile\<close> (\<open>core/agent/runtime_profile.go\<close>): switching the profile of an agent between
    activities, as a step relation; every request is answered once and the last success is in use.
  \<^item> \<open>Agent_Loop\<close>, \<open>Call_Answers\<close>, \<open>Agent_Turns\<close>, \<open>Turn_Permissions\<close>, \<open>Turn_Endings\<close> (\<open>RunMessage\<close> in
    \<open>core/agent/agent.go\<close>): the loop of a turn as phases over its state.  Every request sent answers
    all tool calls in it, what runs under manual approval is what the tools rate safe, and a quiet run
    ends within three rounds; a steering message that comes late is shown to be lost.
  \<^item> \<open>Regexp\<close>, \<open>Shell_Tool\<close> (\<open>core/tools/builtin/shell.go\<close>, \<open>shell_policy.go\<close>): the patterns of the
    shell policy with a matcher proved against their denotation, the rating of commands as a table, and
    what the default policy blocks and the read-only list lets through.
  \<^item> \<open>Prompt_Projection\<close>, \<open>Compressor\<close>, \<open>Agent_Compaction\<close> (\<open>core/services/compressor.go\<close>,
    \<open>context_usage.go\<close>, \<open>core/agent/agent.go\<close>): the bounded form of a conversation that is sent to a
    model, its compression, and the compaction of an agent's conversation.  Projecting is idempotent, a
    compaction strictly shrinks the conversation and keeps its tail, tool results stay with their calls
    where a safe boundary exists, and compactions cannot go on.
  \<^item> \<open>Runtime_WAL\<close> (\<open>core/session/runtime_wal.go\<close>, \<open>worker_runtime_wal.go\<close>): files with torn and
    missing lines, the writer that poisons itself after a failed append, and recovery: it yields the
    base session replayed over all acknowledged changes and at most one more.
  \<^item> \<open>Tool_Recovery\<close> (\<open>worker_tool_recovery.go\<close>): what a starting worker answers to interrupted calls.
  \<^item> \<open>Input_Queue\<close>, \<open>Completion_Triggers\<close> (\<open>core/workspace\<close>): the durable queue of a session and the
    one-shot callbacks that put a notification into it.
  \<^item> \<open>Display_Log\<close>, \<open>Session_Input\<close>, \<open>Queue_Dispatch\<close> (\<open>core/session/display_log.go\<close>,
    \<open>internal/zotigod\<close>): paging, open turns and approvals; the admission of an input by a worker; the
    dispatcher that hands a batch of queued inputs to a worker and settles it.  An input is recorded
    once, settled once, and never submitted again once the log shows it.

  \<^bold>\<open>Loops and fuel.\<close>  Every definition terminates.  Loops over data are structural or have a
  measure (the rest of a text, the length of a batch).  \<open>strip_seqs\<close> takes the length of the text as
  its fuel, and each round removes at least one byte.  The loops that wait for the outside world
  consume a list of answers, one per round: a run of the turn loop is \<open>None\<close> while it still waits for
  another, three rounds are shown to be enough for a quiet run and three attempts for a request.
  \<open>star_ends\<close> takes the length of the text as its fuel and \<open>parse_alt\<close> a little more than twice
  the length of the pattern; a pattern for which that were too little would fail to compile, and the
  default policy is shown to compile.

  \<^bold>\<open>Not modelled.\<close>  The terminal and command line interface, the HTTP, WebSocket and ACP servers and
  their clients, the wire adapters of the model providers, the channel service with its chat adapter,
  the worker that drives a foreign agent, the file layout of the session store, the SQL text of the
  catalog (its statements are modelled by what they do to the tables), skills, prompts, LSP,
  observability, hooks, updates and workspace provisioning: they move data between the parts above and
  the outside world.
\<close>

section \<open>Tools under manual approval\<close>


definition file_agent :: "unit Agent" where
  "file_agent = asking_agent\<lparr>ag_extraSafeDirs := [''/skills''], ag_tools :=
     [''read_file'' \<mapsto> read_file_Classify, ''write_file'' \<mapsto> write_file_Classify, ''edit'' \<mapsto> edit_Classify]\<rparr>"

definition file_rounds :: "turn_env list" where
  "file_rounds = [quiet_round [call_end \<lparr>tc_Index = 0, tc_ID = ''c1'', tc_Name = ''read_file'', tc_Arguments = args_a\<rparr>]]"

definition file_run :: "unit loop_state" where
  "file_run = fst (run_loop (\<lambda>x. x) no_record file_rounds (loop_start None None file_agent))"


end
